(* ===== verification/Prelude.thy ===== *)
theory Prelude
  imports Main "HOL-Library.Word"
begin

text \<open>
  Shared vocabulary of the development: the faults a C++ operation can end in, the
  result type that carries them, the control characters of the text protocols, and the
  generic list lemmas the components use. The collection \<open>wire\<close> gathers the rewrite
  rules that compute what a component puts on a connection.
\<close>

named_theorems wire \<open>rules that compute bytes and lines put on a connection\<close>
named_theorems frames \<open>frame rules: fields an operation leaves alone\<close>

section \<open>Faults and results\<close>

text \<open>
  A C++ operation that does not return normally either throws (an exception value) or
  has no defined behaviour at all. Both are values here: \<open>Inl f\<close> is the fault,
  \<open>Inr x\<close> the normal return.
\<close>

datatype fault = Undefined_Behaviour | Out_Of_Range | Invalid_Argument | Length_Error | System_Error

type_synonym 'a result = "fault + 'a"

definition bind_result :: "'a result \<Rightarrow> ('a \<Rightarrow> 'b result) \<Rightarrow> 'b result" where
  "bind_result r f = (case r of Inl e \<Rightarrow> Inl e | Inr x \<Rightarrow> f x)"

lemma bind_result_simps [simp]:
  "bind_result (Inl e) f = Inl e"
  "bind_result (Inr x) f = f x"
  by (simp_all add: bind_result_def)

lemma bind_result_eq_Inr:
  "bind_result r f = Inr y \<longleftrightarrow> (\<exists>x. r = Inr x \<and> f x = Inr y)"
  by (cases r) simp_all

definition returns :: "'a result \<Rightarrow> bool" where
  "returns r \<longleftrightarrow> (\<exists>x. r = Inr x)"

lemma returns_simps [simp]: "returns (Inr x)" "\<not> returns (Inl e)"
  by (simp_all add: returns_def)

lemma returnsE [elim]: "returns r \<Longrightarrow> (\<And>x. r = Inr x \<Longrightarrow> P) \<Longrightarrow> P"
  by (auto simp: returns_def)

section \<open>Characters and lines\<close>

abbreviation CR :: char where "CR \<equiv> CHR 0x0D"
abbreviation LF :: char where "LF \<equiv> CHR 0x0A"
abbreviation SP :: char where "SP \<equiv> CHR 0x20"

definition CRLF :: string where
  "CRLF = [CR, LF]"

definition QUOTE :: char where
  "QUOTE = CHR 0x22"

section \<open>Lists\<close>

lemma takeWhile_stop [simp]:
  "\<forall>x \<in> set w. P x \<Longrightarrow> \<not> P c \<Longrightarrow> takeWhile P (w @ c # r) = w"
  by (induction w) auto

lemma dropWhile_stop [simp]:
  "\<forall>x \<in> set w. P x \<Longrightarrow> \<not> P c \<Longrightarrow> dropWhile P (w @ c # r) = c # r"
  by (induction w) auto

lemma takeWhile_all [simp]: "\<forall>x \<in> set w. P x \<Longrightarrow> takeWhile P w = w"
  by (induction w) auto

lemma dropWhile_all [simp]: "\<forall>x \<in> set w. P x \<Longrightarrow> dropWhile P w = []"
  by (induction w) auto

lemma dropWhile_eq_Cons_notin:
  "dropWhile (\<lambda>x. x \<noteq> c) xs = y # ys \<Longrightarrow> y = c"
  by (induction xs) (auto split: if_splits)

lemma dropWhile_neq_Nil_iff: "dropWhile (\<lambda>x. x \<noteq> c) xs = [] \<longleftrightarrow> c \<notin> set xs"
  by (induction xs) auto

lemma split_at_first:
  assumes "c \<in> set xs"
  obtains ys zs where "xs = ys @ c # zs" and "c \<notin> set ys"
  using assms by (meson split_list_first)

lemma length_dropWhile_less:
  "dropWhile P xs = y # ys \<Longrightarrow> length ys < length xs"
  by (metis length_Cons length_dropWhile_le less_eq_Suc_le)

lemma concat_snoc [simp]: "concat (xs @ [x]) = concat xs @ x"
  by simp

section \<open>Association lists kept in key order: the model of std::map\<close>

text \<open>
  \<open>smap_insert\<close> is \<open>std::map::insert\<close>: the entries stay sorted by key, and a key
  that is already there keeps its old value.
\<close>

fun smap_insert :: "'k::linorder \<times> 'v \<Rightarrow> ('k \<times> 'v) list \<Rightarrow> ('k \<times> 'v) list" where
  "smap_insert (k, v) [] = [(k, v)]"
| "smap_insert (k, v) ((k', v') # es) =
     (if k < k' then (k, v) # (k', v') # es
      else if k = k' then (k', v') # es
      else (k', v') # smap_insert (k, v) es)"

definition smap_ok :: "('k::linorder \<times> 'v) list \<Rightarrow> bool" where
  "smap_ok m \<longleftrightarrow> sorted_wrt (<) (map fst m)"

lemma set_smap_insert: "fst ` set (smap_insert (k, v) m) = insert k (fst ` set m)"
proof (induction m)
  case (Cons e m)
  then show ?case by (cases e) auto
qed simp

lemma smap_ok_Nil [simp]: "smap_ok []"
  by (simp add: smap_ok_def)

lemma smap_ok_Cons: "smap_ok ((k, v) # m) \<longleftrightarrow> (\<forall>x \<in> fst ` set m. k < x) \<and> smap_ok m"
  by (auto simp: smap_ok_def)

lemma smap_ok_insert: "smap_ok m \<Longrightarrow> smap_ok (smap_insert (k, v) m)"
proof (induction m)
  case (Cons e m)
  obtain k' v' where e: "e = (k', v')" by force
  from Cons.prems e have "\<forall>x \<in> fst ` set m. k' < x" and "smap_ok m"
    by (auto simp: smap_ok_Cons)
  with Cons.IH e show ?case
    by (auto simp: smap_ok_Cons set_smap_insert dest: less_trans)
qed (simp add: smap_ok_Cons)

lemma map_of_smap_insert:
  "smap_ok m \<Longrightarrow>
   map_of (smap_insert (k, v) m) = (case map_of m k of None \<Rightarrow> (map_of m)(k \<mapsto> v) | Some _ \<Rightarrow> map_of m)"
proof (induction m)
  case (Cons e m)
  obtain k' v' where e: "e = (k', v')" by force
  have notin: "map_of m x = None" if "x < k' \<or> x = k'" for x
    using Cons.prems e that
    by (fastforce simp: smap_ok_Cons map_of_eq_None_iff)
  show ?case
  proof (cases "k < k' \<or> k = k'")
    case True
    then show ?thesis using e notin[OF True] by (auto simp: fun_eq_iff split: option.splits)
  next
    case False
    moreover have "smap_ok m" using Cons.prems e by (simp add: smap_ok_Cons)
    ultimately show ?thesis using e Cons.IH by (auto simp: fun_eq_iff split: option.splits)
  qed
qed (simp add: fun_eq_iff)

end
