(* ===== verification/Cpp_String.thy ===== *)
theory Cpp_String
  imports Prelude
begin

text \<open>
  The parts of the C++ standard library the sources lean on: \<open>std::string::find\<close> and
  \<open>substr\<close> with their \<open>size_t\<close> arithmetic, \<open>std::getline\<close> on a stream with its
  end-of-file state, and the numeric conversions \<open>std::stoi\<close> and \<open>std::stoull\<close>.
\<close>

section \<open>size_t\<close>

definition size_max :: nat where
  "size_max = 2 ^ 64"

text \<open>Subtraction of two \<open>size_t\<close> values wraps around.\<close>

definition sz_sub :: "nat \<Rightarrow> nat \<Rightarrow> nat" where
  "sz_sub a b = (size_max + a - b) mod size_max"

lemma sz_sub_le [simp]: "b \<le> a \<Longrightarrow> a < size_max \<Longrightarrow> sz_sub a b = a - b"
  unfolding sz_sub_def
  by (metis Nat.add_diff_assoc less_imp_diff_less mod_add_self1 mod_less)

lemma sz_sub_wrap: "a < b \<Longrightarrow> b \<le> size_max \<Longrightarrow> sz_sub a b = size_max + a - b"
  by (simp add: sz_sub_def)

lemma sz_sub_bound: "sz_sub a b < size_max"
  by (simp add: sz_sub_def size_max_def)

section \<open>find and substr\<close>

fun index_of :: "char \<Rightarrow> string \<Rightarrow> nat option" where
  "index_of c [] = None"
| "index_of c (x # xs) = (if x = c then Some 0 else map_option Suc (index_of c xs))"

definition str_find :: "string \<Rightarrow> char \<Rightarrow> nat \<Rightarrow> nat option" where
  "str_find s c pos = map_option ((+) pos) (index_of c (drop pos s))"

definition str_substr :: "string \<Rightarrow> nat \<Rightarrow> nat \<Rightarrow> string result" where
  "str_substr s pos n = (if length s < pos then Inl Out_Of_Range else Inr (take n (drop pos s)))"

lemma index_of_None [simp]: "index_of c s = None \<longleftrightarrow> c \<notin> set s"
  by (induction s) auto

lemma index_of_append [simp]: "c \<notin> set w \<Longrightarrow> index_of c (w @ c # r) = Some (length w)"
  by (induction w) auto

lemma index_of_Some:
  "index_of c s = Some i \<Longrightarrow> i < length s \<and> s ! i = c \<and> c \<notin> set (take i s)"
  by (induction s arbitrary: i) (auto split: if_splits simp: nth_Cons')

lemma str_find_0 [simp]: "str_find s c 0 = index_of c s"
  proof -
  have "map_option ((+) 0) x = x" for x :: "nat option" by (cases x) auto
  then show ?thesis by (simp only: str_find_def drop0)
qed

lemma str_find_Some:
  assumes "str_find s c pos = Some i"
  shows "pos \<le> i" and "i < length s" and "s ! i = c"
proof -
  from assms obtain j where j: "index_of c (drop pos s) = Some j" and i: "i = pos + j"
    by (auto simp: str_find_def)
  note * = index_of_Some[OF j]
  show "pos \<le> i" using i by simp
  show "i < length s" using * i by auto
  show "s ! i = c" using * i by (auto simp: nth_append)
qed

lemma str_find_after [simp]:
  "pos = length u \<Longrightarrow> c \<notin> set w \<Longrightarrow> str_find (u @ w @ c # r) c pos = Some (length u + length w)"
  by (simp add: str_find_def)

lemma str_find_after_None [simp]:
  "pos = length u \<Longrightarrow> c \<notin> set w \<Longrightarrow> str_find (u @ w) c pos = None"
  by (simp add: str_find_def)

lemma str_substr_prefix [simp]:
  "str_substr (w @ r) 0 (length w) = Inr w"
  by (simp add: str_substr_def)

lemma str_substr_mid [simp]:
  "pos = length u \<Longrightarrow> n = length w \<Longrightarrow> str_substr (u @ w @ r) pos n = Inr w"
  by (simp add: str_substr_def)

lemma str_substr_returns: "pos \<le> length s \<Longrightarrow> str_substr s pos n = Inr (take n (drop pos s))"
  by (simp add: str_substr_def)

section \<open>Input streams and getline\<close>

text \<open>
  A stream over a buffer: the characters not yet extracted and the two state bits.
  \<open>std::getline\<close> first builds a sentry. On a stream whose state is not good the sentry
  fails: \<open>failbit\<close> is set and the string is left as it was. Otherwise the string is
  cleared and filled up to the newline, which is extracted and dropped; running into the
  end of the buffer sets \<open>eofbit\<close>, and \<open>failbit\<close> too when nothing was extracted.
\<close>

record istream =
  pending :: string
  eofbit :: bool
  failbit :: bool

definition istream_of :: "string \<Rightarrow> istream" where
  "istream_of s = \<lparr>pending = s, eofbit = False, failbit = False\<rparr>"

definition stream_good :: "istream \<Rightarrow> bool" where
  "stream_good st \<longleftrightarrow> \<not> eofbit st \<and> \<not> failbit st"

definition getline :: "istream \<Rightarrow> string \<Rightarrow> string \<times> istream" where
  "getline st line =
     (if \<not> stream_good st then (line, st\<lparr>failbit := True\<rparr>)
      else (let l = takeWhile (\<lambda>c. c \<noteq> LF) (pending st) in
        case dropWhile (\<lambda>c. c \<noteq> LF) (pending st) of
          [] \<Rightarrow> (l, st\<lparr>pending := [], eofbit := True, failbit := (l = [])\<rparr>)
        | _ # r \<Rightarrow> (l, st\<lparr>pending := r\<rparr>)))"

lemma istream_of_simps [simp]:
  "pending (istream_of s) = s" "\<not> eofbit (istream_of s)" "\<not> failbit (istream_of s)"
  "stream_good (istream_of s)"
  by (simp_all add: istream_of_def stream_good_def)

lemma istream_of_pending: "stream_good st \<Longrightarrow> istream_of (pending st) = st"
  by (simp add: istream_of_def stream_good_def)

lemma getline_bad [simp]: "\<not> stream_good st \<Longrightarrow> getline st line = (line, st\<lparr>failbit := True\<rparr>)"
  by (simp add: getline_def)

lemma getline_line [simp]:
  "LF \<notin> set w \<Longrightarrow> getline (istream_of (w @ LF # r)) line = (w, istream_of r)"
proof -
  assume "LF \<notin> set w"
  then have "\<forall>c \<in> set w. c \<noteq> LF" by metis
  then show ?thesis by (simp add: getline_def istream_of_def stream_good_def)
qed

lemma getline_last:
  "LF \<notin> set w \<Longrightarrow>
   getline (istream_of w) line = (w, \<lparr>pending = [], eofbit = True, failbit = (w = [])\<rparr>)"
proof -
  assume "LF \<notin> set w"
  then have "\<forall>c \<in> set w. c \<noteq> LF" by metis
  then show ?thesis by (simp add: getline_def istream_of_def stream_good_def)
qed

lemma getline_pending_less:
  "pending st \<noteq> [] \<Longrightarrow> stream_good st \<Longrightarrow>
   length (pending (snd (getline st line))) < length (pending st)"
  by (auto simp: getline_def Let_def length_dropWhile_less split: list.splits)

section \<open>Numeric conversions\<close>

definition is_space :: "char \<Rightarrow> bool" where
  "is_space c \<longleftrightarrow> of_char c = (32::nat) \<or> (9 \<le> (of_char c :: nat) \<and> (of_char c :: nat) \<le> 13)"

definition is_digit :: "char \<Rightarrow> bool" where
  "is_digit c \<longleftrightarrow> 48 \<le> (of_char c :: nat) \<and> (of_char c :: nat) \<le> 57"

definition digit_val :: "char \<Rightarrow> nat" where
  "digit_val c = of_char c - 48"

fun digits_val :: "nat \<Rightarrow> string \<Rightarrow> nat" where
  "digits_val acc [] = acc"
| "digits_val acc (c # cs) = digits_val (10 * acc + digit_val c) cs"

text \<open>The sign and the digits \<open>strtol\<close> and \<open>strtoull\<close> recognise, leading blanks skipped.\<close>

definition scan_number :: "string \<Rightarrow> (bool \<times> string)" where
  "scan_number s =
     (case dropWhile is_space s of
        [] \<Rightarrow> (False, [])
      | c # cs \<Rightarrow>
          if c = CHR ''-'' then (True, takeWhile is_digit cs)
          else if c = CHR ''+'' then (False, takeWhile is_digit cs)
          else (False, takeWhile is_digit (c # cs)))"

definition stoi :: "string \<Rightarrow> int result" where
  "stoi s =
     (let (neg, ds) = scan_number s;
          v = (if neg then - int (digits_val 0 ds) else int (digits_val 0 ds))
      in if ds = [] then Inl Invalid_Argument
         else if v < - (2 ^ 31) \<or> 2 ^ 31 \<le> v then Inl Out_Of_Range
         else Inr v)"

definition stoull :: "string \<Rightarrow> nat result" where
  "stoull s =
     (let (neg, ds) = scan_number s; v = digits_val 0 ds
      in if ds = [] then Inl Invalid_Argument
         else if size_max \<le> v then Inl Out_Of_Range
         else Inr (if neg then sz_sub 0 v else v))"

lemma stoi_no_digit:
  "\<not> is_space c \<Longrightarrow> \<not> is_digit c \<Longrightarrow> c \<noteq> CHR ''-'' \<Longrightarrow> c \<noteq> CHR ''+'' \<Longrightarrow>
   stoi (c # cs) = Inl Invalid_Argument"
  by (simp add: stoi_def scan_number_def)

lemma stoi_Nil [simp]: "stoi [] = Inl Invalid_Argument"
  by (simp add: stoi_def scan_number_def)

lemma stoi_not_UB [simp]: "stoi s \<noteq> Inl Undefined_Behaviour" "stoi s \<noteq> Inl Length_Error"
  by (auto simp: stoi_def Let_def split: prod.splits)

lemma stoi_range: "stoi s = Inr v \<Longrightarrow> - (2 ^ 31) \<le> v \<and> v < 2 ^ 31"
  by (auto simp: stoi_def Let_def split: prod.splits if_splits)

lemma stoull_range: "stoull s = Inr v \<Longrightarrow> v < size_max"
  by (auto simp: stoull_def Let_def sz_sub_bound split: prod.splits if_splits)

section \<open>Decimal output\<close>

text \<open>What \<open>operator<<\<close> prints for an unsigned integer.\<close>

fun show_nat :: "nat \<Rightarrow> string" where
  "show_nat n = (if n < 10 then [char_of (48 + n)] else show_nat (n div 10) @ [char_of (48 + n mod 10)])"

declare show_nat.simps [simp del]

lemma digits_val_append [simp]: "digits_val a (xs @ ys) = digits_val (digits_val a xs) ys"
  by (induction xs arbitrary: a) auto

lemma digit_val_char [simp]: "(d::nat) < 10 \<Longrightarrow> digit_val (char_of (48 + d)) = d"
  by (simp add: digit_val_def)

lemma is_digit_char [simp]: "(d::nat) < 10 \<Longrightarrow> is_digit (char_of (48 + d))"
  by (simp add: is_digit_def)

lemma show_nat_digits: "\<forall>c \<in> set (show_nat n). is_digit c"
proof (induction n rule: show_nat.induct)
  case (1 n)
  show ?case
    by (cases "n < 10") (use 1 in \<open>auto simp: show_nat.simps[of n]\<close>)
qed

lemma show_nat_nonempty [simp]: "show_nat n \<noteq> []"
  by (simp add: show_nat.simps)

lemma digits_val_show_nat: "digits_val 0 (show_nat n) = n"
proof (induction n rule: show_nat.induct)
  case (1 n)
  show ?case
    by (cases "n < 10") (use 1 in \<open>auto simp: show_nat.simps[of n]\<close>)
qed

lemma digit_not_special:
  "is_digit c \<Longrightarrow> \<not> is_space c \<and> c \<noteq> CHR ''-'' \<and> c \<noteq> CHR ''+'' \<and> c \<noteq> CR \<and> c \<noteq> LF"
  by (auto simp: is_digit_def is_space_def)

lemma scan_number_show_nat:
  assumes "r = [] \<or> \<not> is_digit (hd r)"
  shows "scan_number (show_nat n @ r) = (False, show_nat n)"
proof -
  obtain c cs where s: "show_nat n = c # cs"
    by (meson show_nat_nonempty neq_Nil_conv)
  then have c: "is_digit c" using show_nat_digits by (metis list.set_intros(1))
  have "takeWhile is_digit (show_nat n @ r) = show_nat n"
    using assms show_nat_digits by (cases r) (auto simp: takeWhile_append)
  with s digit_not_special[OF c] show ?thesis
    by (simp add: scan_number_def)
qed

lemma stoull_show_nat:
  "n < size_max \<Longrightarrow> r = [] \<or> \<not> is_digit (hd r) \<Longrightarrow> stoull (show_nat n @ r) = Inr n"
  by (simp add: stoull_def scan_number_show_nat digits_val_show_nat)

end
