(* ===== verification/Irc_Reply.thy ===== *)
theory Irc_Reply
  imports Cpp_String
begin

text \<open>
  The numeric replies of \<^verbatim>\<open>irc/irc_client.hpp\<close>. An unscoped C++ enumeration is an integer
  type with named constants, and the client casts any parsed number into it, so the type is
  \<open>int\<close>; the two tables list the enumerators in source order with their values. The values
  reach the client as the three-digit command of a line, so the lemmas relate them to
  \<open>std::stoi\<close>.
\<close>

section \<open>The enumeration\<close>

type_synonym Reply = int

definition rpl_values :: "(string \<times> Reply) list" where
  "rpl_values = [
    (''RPL_WELCOME'', 1), (''RPL_YOURHOST'', 2), (''RPL_CREATED'', 3), (''RPL_MYINFO'', 4),
    (''RPL_BOUNCE'', 5), (''RPL_TRACELINK'', 200), (''RPL_TRACECONNECTING'', 201),
    (''RPL_TRACEHANDSHAKE'', 202), (''RPL_TRACEUNKNOWN'', 203), (''RPL_TRACEOPERATOR'', 204),
    (''RPL_TRACEUSER'', 205), (''RPL_TRACESERVER'', 206), (''RPL_TRACESERVICE'', 207),
    (''RPL_TRACENEWTYPE'', 208), (''RPL_TRACECLASS'', 209), (''RPL_TRACERECONNECT'', 210),
    (''RPL_STATSLINKINFO'', 211), (''RPL_STATSCOMMANDS'', 212), (''RPL_STATSCLINE'', 213),
    (''RPL_STATSNLINE'', 214), (''RPL_STATSILINE'', 215), (''RPL_STATSKLINE'', 216),
    (''RPL_STATSQLINE'', 217), (''RPL_STATSYLINE'', 218), (''RPL_ENDOFSTATS'', 219),
    (''RPL_UMODEIS'', 221), (''RPL_SERVICEINFO'', 231), (''RPL_ENDOFSERVICES'', 232),
    (''RPL_SERVICE'', 233), (''RPL_SERVLIST'', 234), (''RPL_SERVLISTEND'', 235),
    (''RPL_STATSVLINE'', 240), (''RPL_STATSLLINE'', 241), (''RPL_STATSUPTIME'', 242),
    (''RPL_STATSOLINE'', 243), (''RPL_STATSHLINE'', 244), (''RPL_STATSSLINE'', 244),
    (''RPL_STATSPING'', 246), (''RPL_STATSBLINE'', 247), (''RPL_STATSDLINE'', 250),
    (''RPL_LUSERCLIENT'', 251), (''RPL_LUSEROP'', 252), (''RPL_LUSERUNKNOWN'', 253),
    (''RPL_LUSERCHANNELS'', 254), (''RPL_LUSERME'', 255), (''RPL_ADMINME'', 256),
    (''RPL_ADMINLOC1'', 257), (''RPL_ADMINLOC2'', 258), (''RPL_ADMINEMAIL'', 259),
    (''RPL_TRACELOG'', 261), (''RPL_TRACEEND'', 262), (''RPL_TRYAGAIN'', 263),
    (''RPL_NONE'', 300), (''RPL_AWAY'', 301), (''RPL_USERHOST'', 302), (''RPL_ISON'', 303),
    (''RPL_UNAWAY'', 305), (''RPL_NOWAWAY'', 306), (''RPL_WHOISUSER'', 311),
    (''RPL_WHOISSERVER'', 312), (''RPL_WHOISOPERATOR'', 313), (''RPL_WHOWASUSER'', 314),
    (''RPL_ENDOFWHO'', 315), (''RPL_WHOISCHANOP'', 316), (''RPL_WHOISIDLE'', 317),
    (''RPL_ENDOFWHOIS'', 318), (''RPL_WHOISCHANNELS'', 319), (''RPL_LISTSTART'', 321),
    (''RPL_LIST'', 322), (''RPL_LISTEND'', 323), (''RPL_CHANNELMODEIS'', 324),
    (''RPL_UNIQOPIS'', 325), (''RPL_NOTOPIC'', 331), (''RPL_TOPIC'', 332),
    (''RPL_INVITING'', 341), (''RPL_SUMMONING'', 342), (''RPL_INVITELIST'', 346),
    (''RPL_ENDOFINVITELIST'', 347), (''RPL_EXCEPTLIST'', 348), (''RPL_ENDOFEXCEPTLIST'', 349),
    (''RPL_VERSION'', 351), (''RPL_WHOREPLY'', 352), (''RPL_NAMREPLY'', 353),
    (''RPL_KILLDONE'', 361), (''RPL_CLOSING'', 362), (''RPL_CLOSEEND'', 363),
    (''RPL_LINKS'', 364), (''RPL_ENDOFLINKS'', 365), (''RPL_ENDOFNAMES'', 366),
    (''RPL_BANLIST'', 367), (''RPL_ENDOFBANLIST'', 368), (''RPL_ENDOFWHOWAS'', 369),
    (''RPL_INFO'', 371), (''RPL_MOTD'', 372), (''RPL_INFOSTART'', 373),
    (''RPL_ENDOFINFO'', 374), (''RPL_MOTDSTART'', 375), (''RPL_ENDOFMOTD'', 376),
    (''RPL_YOUREOPER'', 381), (''RPL_REHASHING'', 382), (''RPL_YOURESERVICE'', 383),
    (''RPL_MYPORTIS'', 384), (''RPL_TIME'', 391), (''RPL_USERSSTART'', 392),
    (''RPL_USERS'', 393), (''RPL_ENDOFUSERS'', 394), (''RPL_NOUSERS'', 395)]"

definition err_values :: "(string \<times> Reply) list" where
  "err_values = [
    (''ERR_NOSUCHNICK'', 401), (''ERR_NOSUCHSERVER'', 402), (''ERR_NOSUCHCHANNEL'', 403),
    (''ERR_CANNOTSENDTOCHAN'', 404), (''ERR_TOOMANYCHANNELS'', 405),
    (''ERR_WASNOSUCHNICK'', 406), (''ERR_TOOMANYTARGETS'', 407), (''ERR_NOSUCHSERVICE'', 408),
    (''ERR_NOORIGIN'', 409), (''ERR_NORECIPIENT'', 411), (''ERR_NOTEXTTOSEND'', 412),
    (''ERR_NOTOPLEVEL'', 413), (''ERR_WILDTOPLEVEL'', 414), (''ERR_BADMASK'', 415),
    (''ERR_UNKNOWNCOMMAND'', 421), (''ERR_NOMOTD'', 422), (''ERR_NOADMININFO'', 423),
    (''ERR_FILEERROR'', 424), (''ERR_NONICKNAMEGIVEN'', 431), (''ERR_ERRONEUSNICKNAME'', 432),
    (''ERR_NICKNAMEINUSE'', 433), (''ERR_NICKCOLLISION'', 436), (''ERR_UNAVAILRESOURCE'', 437),
    (''ERR_USERNOTINCHANNEL'', 441), (''ERR_NOTONCHANNEL'', 442), (''ERR_USERONCHANNEL'', 443),
    (''ERR_NOLOGIN'', 444), (''ERR_SUMMONDISABLED'', 445), (''ERR_USERSDISABLED'', 446),
    (''ERR_NOTREGISTERED'', 451), (''ERR_NEEDMOREPARAMS'', 461),
    (''ERR_ALREADYREGISTRED'', 462), (''ERR_NOPERMFORHOST'', 463),
    (''ERR_PASSWDMISMATCH'', 464), (''ERR_YOUREBANNEDCREEP'', 465),
    (''ERR_YOUWILLBEBANNED'', 466), (''ERR_KEYSET'', 467), (''ERR_CHANNELISFULL'', 471),
    (''ERR_UNKNOWNMODE'', 472), (''ERR_INVITEONLYCHAN'', 473), (''ERR_BANNEDFROMCHAN'', 474),
    (''ERR_BADCHANNELKEY'', 475), (''ERR_BADCHANMASK'', 476), (''ERR_NOCHANMODES'', 477),
    (''ERR_BANLISTFULL'', 478), (''ERR_NOPRIVILEGES'', 481), (''ERR_CHANOPRIVSNEEDED'', 482),
    (''ERR_CANTKILLSERVER'', 483), (''ERR_RESTRICTED'', 484), (''ERR_UNIQOPPRIVSNEEDED'', 485),
    (''ERR_NOOPERHOST'', 491), (''ERR_NOSERVICEHOST'', 492), (''ERR_UMODEUNKNOWNFLAG'', 501),
    (''ERR_USERSDONTMATCH'', 502)]"

definition reply_values :: "(string \<times> Reply) list" where
  "reply_values = rpl_values @ err_values"

text \<open>The enumerators the clients name.\<close>

definition enumerator :: "string \<Rightarrow> Reply" where
  "enumerator n = (case map_of reply_values n of Some v \<Rightarrow> v | None \<Rightarrow> 0)"

abbreviation RPL_WELCOME :: Reply where "RPL_WELCOME \<equiv> enumerator ''RPL_WELCOME''"
abbreviation RPL_YOURHOST :: Reply where "RPL_YOURHOST \<equiv> enumerator ''RPL_YOURHOST''"
abbreviation RPL_CREATED :: Reply where "RPL_CREATED \<equiv> enumerator ''RPL_CREATED''"
abbreviation RPL_MYINFO :: Reply where "RPL_MYINFO \<equiv> enumerator ''RPL_MYINFO''"
abbreviation RPL_MOTDSTART :: Reply where "RPL_MOTDSTART \<equiv> enumerator ''RPL_MOTDSTART''"
abbreviation RPL_MOTD :: Reply where "RPL_MOTD \<equiv> enumerator ''RPL_MOTD''"
abbreviation RPL_ENDOFMOTD :: Reply where "RPL_ENDOFMOTD \<equiv> enumerator ''RPL_ENDOFMOTD''"

lemma enumerator_values [simp]:
  "enumerator ''RPL_WELCOME'' = 1" "enumerator ''RPL_YOURHOST'' = 2"
  "enumerator ''RPL_CREATED'' = 3" "enumerator ''RPL_MYINFO'' = 4"
  "enumerator ''RPL_MOTDSTART'' = 375" "enumerator ''RPL_MOTD'' = 372"
  "enumerator ''RPL_ENDOFMOTD'' = 376"
  by code_simp+

text \<open>The three digits a server sends for a code.\<close>

definition three_digits :: "Reply \<Rightarrow> string" where
  "three_digits v = map (\<lambda>d. char_of (48 + nat d)) [v div 100, v div 10 mod 10, v mod 10]"

lemma char_digit_val [simp]: "0 \<le> d \<Longrightarrow> d < 10 \<Longrightarrow> digit_val (char_of (48 + nat d)) = nat d"
  by simp

lemma stoi_three_digits:
  assumes "0 \<le> v" and "v < 1000"
  shows "stoi (three_digits v) = Inr v"
proof -
  have d: "is_digit (char_of (48 + nat (v div 100)))" "is_digit (char_of (48 + nat (v div 10 mod 10)))"
    "is_digit (char_of (48 + nat (v mod 10)))"
    using assms by simp_all
  have sp: "\<not> is_space (char_of (48 + nat (v div 100)))" "char_of (48 + nat (v div 100)) \<noteq> CHR ''-''"
      "char_of (48 + nat (v div 100)) \<noteq> CHR ''+''"
    using digit_not_special[OF d(1)] by blast+
  have "scan_number (three_digits v) = (False, three_digits v)"
    by (simp only: scan_number_def three_digits_def list.map dropWhile.simps takeWhile.simps
        list.case sp d if_False if_True)
  moreover have "int (digits_val 0 (three_digits v)) = v"
  proof -
    have "digits_val 0 (three_digits v) = 10 * (10 * nat (v div 100) + nat (v div 10 mod 10)) + nat (v mod 10)"
      using assms by (simp add: three_digits_def)
    then have "int (digits_val 0 (three_digits v)) = 10 * (10 * (v div 100) + v div 10 mod 10) + v mod 10"
      using assms by (simp add: pos_imp_zdiv_nonneg_iff)
    also have "10 * (v div 100) + v div 10 mod 10 = v div 10"
      using mult_div_mod_eq[of 10 "v div 10"] by (simp add: zdiv_zmult2_eq[symmetric])
    also have "10 * (v div 10) + v mod 10 = v" by (rule mult_div_mod_eq)
    finally show ?thesis .
  qed
  ultimately show ?thesis using assms by (simp add: stoi_def three_digits_def)
qed

lemma reply_values_range: "list_all (\<lambda>(n, v). 1 \<le> v \<and> v \<le> 502) reply_values"
  by code_simp

lemma reply_values_ascending:
  "successively (<) (map snd (filter (\<lambda>(n, v). n \<noteq> ''RPL_STATSSLINE'') reply_values))"
  by code_simp

text \<open>Every enumerator fits the three digits of a numeric reply and \<open>stoi\<close> of these digits is
  the enumerator's value again. The values are strictly ascending, so no two enumerators
  share one, but for \<open>RPL_STATSHLINE\<close> and \<open>RPL_STATSSLINE\<close>, which are both 244.\<close>

theorem reply_values_decode:
  "list_all (\<lambda>(n, v). stoi (three_digits v) = Inr v) reply_values
   \<and> sorted_wrt (<) (map snd (filter (\<lambda>(n, v). n \<noteq> ''RPL_STATSSLINE'') reply_values))
   \<and> enumerator ''RPL_STATSHLINE'' = 244 \<and> enumerator ''RPL_STATSSLINE'' = 244"
proof (intro conjI)
  show "list_all (\<lambda>(n, v). stoi (three_digits v) = Inr v) reply_values"
    using reply_values_range by (auto simp: list_all_iff stoi_three_digits)
  show "sorted_wrt (<) (map snd (filter (\<lambda>(n, v). n \<noteq> ''RPL_STATSSLINE'') reply_values))"
    using reply_values_ascending by (simp add: successively_conv_sorted_wrt[OF transp_on_less])
qed (code_simp+)

end
