(* ===== verification/Perl_Regex.thy ===== *)
theory Perl_Regex
  imports Prelude
begin

text \<open>
  The fragment of the Perl regular expression syntax the sources use, with the matching
  order Boost.Regex documents for it: a depth-first search that tries the alternatives of
  a repeat in order (greedy repeats longest first, lazy ones shortest first) and reports
  the first match it finds. \<open>rx_search\<close> is the reference against which the engine
  parameter of the model is specified; it is not a model of the engine's code.
\<close>

section \<open>Syntax\<close>

text \<open>
  \<open>Chars False cs\<close> is a character of \<open>cs\<close>, \<open>Chars True cs\<close> one outside it (so
  \<open>Chars True []\<close> is the dot, which in Boost's default flags matches every character).
  \<open>Star greedy neg cs\<close> repeats such a class; \<open>Upto n r\<close> is the greedy \<open>r{0,n}\<close>.
\<close>

datatype rx =
    Bol
  | Eol
  | Chars bool string
  | Seq rx rx
  | Opt rx
  | Star bool bool string
  | Group nat rx
  | Upto nat rx

fun rx_seq :: "rx list \<Rightarrow> rx" where
  "rx_seq [] = Upto 0 Bol"
| "rx_seq [r] = r"
| "rx_seq (r # rs) = Seq r (rx_seq rs)"

definition in_class :: "bool \<Rightarrow> string \<Rightarrow> char \<Rightarrow> bool" where
  "in_class neg cs c \<longleftrightarrow> (c \<in> set cs) \<noteq> neg"

lemma in_class_simps [simp]:
  "in_class False cs c \<longleftrightarrow> c \<in> set cs"
  "in_class True cs c \<longleftrightarrow> c \<notin> set cs"
  by (simp_all add: in_class_def)

section \<open>Matching\<close>

text \<open>
  A position of the search: the character before it (none at the start of the text), the
  text from it on, and the sub-matches recorded so far.
\<close>

type_synonym captures = "nat \<Rightarrow> string option"
type_synonym position = "char option \<times> string \<times> captures"

definition is_separator :: "char \<Rightarrow> bool" where
  "is_separator c \<longleftrightarrow> c = LF \<or> c = CR \<or> c = CHR 0x0C"

definition at_bol :: "char option \<Rightarrow> string \<Rightarrow> bool" where
  "at_bol p s =
     (case p of None \<Rightarrow> True
      | Some c \<Rightarrow> is_separator c \<and> \<not> (c = CR \<and> s \<noteq> [] \<and> hd s = LF))"

definition at_eol :: "char option \<Rightarrow> string \<Rightarrow> bool" where
  "at_eol p s =
     (case s of [] \<Rightarrow> True | c # _ \<Rightarrow> is_separator c \<and> \<not> (p = Some CR \<and> c = LF))"

fun star_greedy :: "(char \<Rightarrow> bool) \<Rightarrow> (position \<Rightarrow> 'r option) \<Rightarrow> char option \<Rightarrow> string \<Rightarrow> captures \<Rightarrow> 'r option"
where
  "star_greedy C k p [] cp = k (p, [], cp)"
| "star_greedy C k p (x # xs) cp =
     (if C x then
        (case star_greedy C k (Some x) xs cp of Some v \<Rightarrow> Some v | None \<Rightarrow> k (p, x # xs, cp))
      else k (p, x # xs, cp))"

fun star_lazy :: "(char \<Rightarrow> bool) \<Rightarrow> (position \<Rightarrow> 'r option) \<Rightarrow> char option \<Rightarrow> string \<Rightarrow> captures \<Rightarrow> 'r option"
where
  "star_lazy C k p [] cp = k (p, [], cp)"
| "star_lazy C k p (x # xs) cp =
     (case k (p, x # xs, cp) of
        Some v \<Rightarrow> Some v
      | None \<Rightarrow> if C x then star_lazy C k (Some x) xs cp else None)"

fun rep :: "nat \<Rightarrow> ((position \<Rightarrow> 'r option) \<Rightarrow> position \<Rightarrow> 'r option) \<Rightarrow> (position \<Rightarrow> 'r option) \<Rightarrow> position \<Rightarrow> 'r option"
where
  "rep 0 m k st = k st"
| "rep (Suc n) m k st = (case m (rep n m k) st of Some v \<Rightarrow> Some v | None \<Rightarrow> k st)"

primrec rx_run :: "rx \<Rightarrow> (position \<Rightarrow> 'r option) \<Rightarrow> position \<Rightarrow> 'r option" where
  "rx_run Bol = (\<lambda>k (p, s, cp). if at_bol p s then k (p, s, cp) else None)"
| "rx_run Eol = (\<lambda>k (p, s, cp). if at_eol p s then k (p, s, cp) else None)"
| "rx_run (Chars neg cs) = (\<lambda>k (p, s, cp).
     case s of [] \<Rightarrow> None | x # xs \<Rightarrow> if in_class neg cs x then k (Some x, xs, cp) else None)"
| "rx_run (Seq a b) = (\<lambda>k. rx_run a (rx_run b k))"
| "rx_run (Opt r) = (\<lambda>k st. case rx_run r k st of Some v \<Rightarrow> Some v | None \<Rightarrow> k st)"
| "rx_run (Star greedy neg cs) = (\<lambda>k (p, s, cp).
     (if greedy then star_greedy else star_lazy) (in_class neg cs) k p s cp)"
| "rx_run (Group n r) = (\<lambda>k (p, s, cp).
     rx_run r (\<lambda>(p', s', cp'). k (p', s', cp'(n \<mapsto> take (length s - length s') s))) (p, s, cp))"
| "rx_run (Upto n r) = rep n (rx_run r)"

fun search_from :: "rx \<Rightarrow> char option \<Rightarrow> string \<Rightarrow> captures option" where
  "search_from r p [] = rx_run r (\<lambda>(_, _, cp). Some cp) (p, [], Map.empty)"
| "search_from r p (x # xs) =
     (case rx_run r (\<lambda>(_, _, cp). Some cp) (p, x # xs, Map.empty) of
        Some cp \<Rightarrow> Some cp
      | None \<Rightarrow> search_from r (Some x) xs)"

definition rx_search :: "rx \<Rightarrow> string \<Rightarrow> captures option" where
  "rx_search r s = search_from r None s"

text \<open>The text of a sub-match; one that took no part in the match is empty.\<close>

definition sub_match :: "captures \<Rightarrow> nat \<Rightarrow> string" where
  "sub_match cp n = (case cp n of None \<Rightarrow> [] | Some s \<Rightarrow> s)"

lemma search_from_here:
  "rx_run r (\<lambda>(_, _, cp). Some cp) (p, s, Map.empty) = Some cp \<Longrightarrow> search_from r p s = Some cp"
  by (cases s) simp_all

section \<open>First-match lemmas\<close>

text \<open>
  A greedy repeat takes the longest run of its class when what follows succeeds there; a
  lazy one the shortest prefix at which what follows succeeds.
\<close>

definition last_char :: "char option \<Rightarrow> string \<Rightarrow> char option" where
  "last_char p w = (if w = [] then p else Some (last w))"

lemma last_char_simps [simp]:
  "last_char p [] = p"
  "last_char p (x # w) = last_char (Some x) w"
  by (auto simp: last_char_def)

lemma star_greedy_run:
  assumes "\<forall>x \<in> set w. C x" and "r = [] \<or> \<not> C (hd r)" and "k (last_char p w, r, cp) = Some v"
  shows "star_greedy C k p (w @ r) cp = Some v"
  using assms
proof (induction w arbitrary: p)
  case Nil
  then show ?case by (cases r) auto
qed simp

lemma star_lazy_run:
  assumes "\<forall>x \<in> set w. C x"
    and "\<And>u v p. w = u @ v \<Longrightarrow> v \<noteq> [] \<Longrightarrow> k (p, v @ r, cp) = None"
    and "k (last_char p w, r, cp) = Some v"
  shows "star_lazy C k p (w @ r) cp = Some v"
  using assms
proof (induction w arbitrary: p)
  case Nil
  then show ?case by (cases r) auto
next
  case (Cons x w)
  have "k (p, (x # w) @ r, cp) = None" by (rule Cons.prems(2)[of "[]"]) simp_all
  moreover have "star_lazy C k (Some x) (w @ r) cp = Some v"
    using Cons.prems by (intro Cons.IH) (auto simp: append_eq_Cons_conv)
  ultimately show ?case using Cons.prems(1) by simp
qed

text \<open>The same facts as introduction rules on \<open>rx_run\<close>, one per constructor.\<close>

lemma run_seq:
  "rx_run a (rx_run b k) st = Some v \<Longrightarrow> rx_run (Seq a b) k st = Some v"
  by simp

lemma run_opt:
  "rx_run r k st = Some v \<Longrightarrow> rx_run (Opt r) k st = Some v"
  by simp

lemma run_opt_skip:
  "rx_run r k st = None \<Longrightarrow> k st = Some v \<Longrightarrow> rx_run (Opt r) k st = Some v"
  by simp

lemma run_char:
  "in_class neg cs x \<Longrightarrow> k (Some x, s, cp) = Some v \<Longrightarrow> rx_run (Chars neg cs) k (p, x # s, cp) = Some v"
  by simp

lemma run_group:
  "rx_run r (\<lambda>(p', s', cp'). k (p', s', cp'(n \<mapsto> take (length s - length s') s))) (p, s, cp) = Some v \<Longrightarrow>
   rx_run (Group n r) k (p, s, cp) = Some v"
  by simp

lemma run_greedy:
  "\<forall>x \<in> set w. in_class neg cs x \<Longrightarrow> r = [] \<or> \<not> in_class neg cs (hd r) \<Longrightarrow>
   k (last_char p w, r, cp) = Some v \<Longrightarrow> rx_run (Star True neg cs) k (p, w @ r, cp) = Some v"
  by (simp add: star_greedy_run)

lemma run_lazy:
  "\<forall>x \<in> set w. in_class neg cs x \<Longrightarrow>
   (\<And>u v p. w = u @ v \<Longrightarrow> v \<noteq> [] \<Longrightarrow> k (p, v @ r, cp) = None) \<Longrightarrow>
   k (last_char p w, r, cp) = Some v \<Longrightarrow> rx_run (Star False neg cs) k (p, w @ r, cp) = Some v"
  by (simp add: star_lazy_run)

lemmas first_match = run_seq run_opt run_char run_group

section \<open>The declarative reading of a match\<close>

text \<open>
  \<open>rx_matches r a b\<close>: the pattern can take the search from position \<open>a\<close> to position
  \<open>b\<close>, in any way. The search is sound and complete for it: it succeeds exactly if some
  way leads to a position from which the rest succeeds.
\<close>

inductive rx_matches :: "rx \<Rightarrow> position \<Rightarrow> position \<Rightarrow> bool" where
  m_bol: "at_bol p s \<Longrightarrow> rx_matches Bol (p, s, cp) (p, s, cp)"
| m_eol: "at_eol p s \<Longrightarrow> rx_matches Eol (p, s, cp) (p, s, cp)"
| m_chars: "in_class neg cs x \<Longrightarrow> rx_matches (Chars neg cs) (p, x # s, cp) (Some x, s, cp)"
| m_seq: "rx_matches a st st1 \<Longrightarrow> rx_matches b st1 st2 \<Longrightarrow> rx_matches (Seq a b) st st2"
| m_opt_some: "rx_matches r st st1 \<Longrightarrow> rx_matches (Opt r) st st1"
| m_opt_none: "rx_matches (Opt r) st st"
| m_star: "\<forall>x \<in> set w. in_class neg cs x \<Longrightarrow>
     rx_matches (Star g neg cs) (p, w @ s, cp) (last_char p w, s, cp)"
| m_group: "rx_matches r (p, s, cp) (p', s', cp') \<Longrightarrow>
     rx_matches (Group n r) (p, s, cp) (p', s', cp'(n \<mapsto> take (length s - length s') s))"
| m_upto_done: "rx_matches (Upto n r) st st"
| m_upto_more: "rx_matches r st st1 \<Longrightarrow> rx_matches (Upto n r) st1 st2 \<Longrightarrow>
     rx_matches (Upto (Suc n) r) st st2"

inductive_cases rx_bolE: "rx_matches Bol st st'"
inductive_cases rx_eolE: "rx_matches Eol st st'"
inductive_cases rx_charsE: "rx_matches (Chars neg cs) st st'"
inductive_cases rx_seqE: "rx_matches (Seq a b) st st'"
inductive_cases rx_optE: "rx_matches (Opt r) st st'"
inductive_cases rx_starE: "rx_matches (Star g neg cs) st st'"
inductive_cases rx_groupE: "rx_matches (Group n r) st st'"
inductive_cases rx_upto0E: "rx_matches (Upto 0 r) st st'"
inductive_cases rx_uptoE: "rx_matches (Upto n r) st st'"

lemma star_greedy_sound:
  "star_greedy C k p s cp = Some v \<Longrightarrow>
   \<exists>w s'. s = w @ s' \<and> (\<forall>x \<in> set w. C x) \<and> k (last_char p w, s', cp) = Some v"
proof (induction s arbitrary: p)
  case (Cons x xs)
  show ?case
  proof (cases "C x \<and> star_greedy C k (Some x) xs cp = Some v")
    case True
    with Cons.IH[of "Some x"] obtain w s' where
      "xs = w @ s'" "\<forall>x \<in> set w. C x" "k (last_char (Some x) w, s', cp) = Some v" by auto
    with True show ?thesis by (intro exI[of _ "x # w"] exI[of _ s']) simp
  next
    case False
    with Cons.prems have "k (p, x # xs, cp) = Some v" by (auto split: if_splits option.splits)
    then show ?thesis by (intro exI[of _ "[]"] exI[of _ "x # xs"]) simp
  qed
qed simp

lemma star_lazy_sound:
  "star_lazy C k p s cp = Some v \<Longrightarrow>
   \<exists>w s'. s = w @ s' \<and> (\<forall>x \<in> set w. C x) \<and> k (last_char p w, s', cp) = Some v"
proof (induction s arbitrary: p)
  case (Cons x xs)
  show ?case
  proof (cases "k (p, x # xs, cp) = Some v")
    case True
    then show ?thesis by (intro exI[of _ "[]"] exI[of _ "x # xs"]) simp
  next
    case False
    with Cons.prems have "C x" "star_lazy C k (Some x) xs cp = Some v"
      by (auto split: if_splits option.splits)
    moreover from Cons.IH[OF this(2)] obtain w s' where
      "xs = w @ s'" "\<forall>x \<in> set w. C x" "k (last_char (Some x) w, s', cp) = Some v" by auto
    ultimately show ?thesis by (intro exI[of _ "x # w"] exI[of _ s']) simp
  qed
qed simp

lemma rep_sound:
  assumes "\<And>k st. m k st = Some v \<Longrightarrow> \<exists>st'. rx_matches r st st' \<and> k st' = Some v"
    and "rep n m k st = Some v"
  shows "\<exists>st'. rx_matches (Upto n r) st st' \<and> k st' = Some v"
  using assms(2)
proof (induction n arbitrary: st)
  case 0
  then show ?case by (metis rep.simps(1) m_upto_done)
next
  case (Suc n)
  show ?case
  proof (cases "m (rep n m k) st = Some v")
    case True
    with assms(1) obtain st1 where "rx_matches r st st1" "rep n m k st1 = Some v" by blast
    with Suc.IH show ?thesis by (blast intro: m_upto_more)
  next
    case False
    with Suc.prems have "k st = Some v" by (auto split: option.splits)
    then show ?thesis by (metis m_upto_done)
  qed
qed

theorem rx_run_sound: "rx_run r k st = Some v \<Longrightarrow> \<exists>st'. rx_matches r st st' \<and> k st' = Some v"
proof (induction r arbitrary: k st)
  case (Seq a b)
  then have "rx_run a (rx_run b k) st = Some v" by simp
  with Seq.IH(1) obtain st1 where "rx_matches a st st1" "rx_run b k st1 = Some v" by blast
  with Seq.IH(2) show ?case by (blast intro: m_seq)
next
  case (Opt r)
  then show ?case by (fastforce intro: m_opt_some m_opt_none split: option.splits)
next
  case (Star g neg cs)
  obtain p s cp where st: "st = (p, s, cp)" by (cases st)
  with Star have "\<exists>w s'. s = w @ s' \<and> (\<forall>x \<in> set w. in_class neg cs x) \<and> k (last_char p w, s', cp) = Some v"
    by (cases g) (auto dest: star_greedy_sound star_lazy_sound)
  with st show ?case using m_star by fastforce
next
  case (Group n r)
  obtain p s cp where st: "st = (p, s, cp)" by (cases st)
  with Group.prems Group.IH obtain p' s' cp' where
    "rx_matches r (p, s, cp) (p', s', cp')"
    "k (p', s', cp'(n \<mapsto> take (length s - length s') s)) = Some v" by fastforce
  with st show ?case by (blast intro: m_group)
next
  case (Upto n r)
  then show ?case using rep_sound[of "rx_run r" v r] by simp
qed (auto split: prod.splits list.splits if_splits intro: rx_matches.intros)

lemma star_complete:
  assumes "\<forall>x \<in> set w. C x" and "k (last_char p w, s, cp) \<noteq> None"
  shows "star_greedy C k p (w @ s) cp \<noteq> None" and "star_lazy C k p (w @ s) cp \<noteq> None"
proof -
  show "star_greedy C k p (w @ s) cp \<noteq> None"
    using assms
  proof (induction w arbitrary: p)
    case Nil
    then show ?case by (cases s) (auto split: option.splits)
  next
    case (Cons a w)
    then obtain v where "star_greedy C k (Some a) (w @ s) cp = Some v" by fastforce
    with Cons.prems show ?case by simp
  qed
  show "star_lazy C k p (w @ s) cp \<noteq> None"
    using assms
  proof (induction w arbitrary: p)
    case Nil
    then show ?case by (cases s) (auto split: option.splits)
  next
    case (Cons a w)
    then obtain v where "star_lazy C k (Some a) (w @ s) cp = Some v" by fastforce
    with Cons.prems show ?case by (simp split: option.splits)
  qed
qed

theorem rx_run_complete: "rx_matches r st st' \<Longrightarrow> k st' \<noteq> None \<Longrightarrow> rx_run r k st \<noteq> None"
proof (induction arbitrary: k rule: rx_matches.induct)
  case (m_opt_some r st st1)
  have "rx_run r k st \<noteq> None" by (rule m_opt_some.IH) (rule m_opt_some.prems)
  then show ?case by (auto split: option.splits)
next
  case (m_opt_none r st)
  then show ?case by (cases "rx_run r k st") auto
next
  case (m_star w neg cs g p s cp)
  then show ?case using star_complete[of w "in_class neg cs" k p s cp] by simp
next
  case (m_upto_done n r st)
  then show ?case by (cases n) (auto split: option.splits)
next
  case (m_upto_more r st st1 n st2)
  have "rx_run (Upto n r) k st1 \<noteq> None" by (rule m_upto_more.IH(2)) (rule m_upto_more.prems)
  then have "rx_run r (rep n (rx_run r) k) st \<noteq> None" by (intro m_upto_more.IH(1)) simp
  then show ?case by (auto split: option.splits)
qed auto

lemma search_from_None:
  "search_from r p s = None \<Longrightarrow> rx_run r (\<lambda>(_, _, cp). Some cp) (p, s, Map.empty) = None"
  by (cases s) (auto split: option.splits)

lemma rx_search_matches:
  assumes "rx_matches r (None, s, Map.empty) st"
  obtains cp where "rx_run r (\<lambda>(_, _, cp). Some cp) (None, s, Map.empty) = Some cp"
    and "rx_search r s = Some cp"
proof -
  have "rx_run r (\<lambda>(_, _, cp). Some cp) (None, s, Map.empty) \<noteq> None"
    by (rule rx_run_complete[OF assms]) (simp split: prod.splits)
  then obtain cp where
    "rx_run r (\<lambda>(_, _, cp). Some cp) (None, s, Map.empty) = Some cp" by (meson not_None_eq)
  moreover from this have "rx_search r s = Some cp"
    by (simp only: rx_search_def search_from_here)
  ultimately show thesis by (rule that)
qed

lemma search_from_sound:
  "search_from r p s = Some cp \<Longrightarrow>
   \<exists>u t p' st. s = u @ t \<and> rx_matches r (p', t, Map.empty) st \<and> snd (snd st) = cp"
proof (induction s arbitrary: p)
  case Nil
  then obtain st where "rx_matches r (p, [], Map.empty) st" "(\<lambda>(_, _, cp). Some cp) st = Some cp"
    using rx_run_sound[of r "\<lambda>(_, _, cp). Some cp" "(p, [], Map.empty)" cp] by auto
  then show ?case by (intro exI[of _ "[]"] exI[of _ "[]"] exI[of _ p] exI[of _ st]) (auto split: prod.splits)
next
  case (Cons x xs)
  show ?case
  proof (cases "rx_run r (\<lambda>(_, _, cp). Some cp) (p, x # xs, Map.empty)")
    case None
    with Cons.prems have "search_from r (Some x) xs = Some cp" by simp
    then obtain u t p' st where "xs = u @ t" "rx_matches r (p', t, Map.empty) st" "snd (snd st) = cp"
      using Cons.IH by blast
    then show ?thesis by (intro exI[of _ "x # u"] exI[of _ t] exI[of _ p'] exI[of _ st]) simp
  next
    case (Some c)
    with Cons.prems have "c = cp" by simp
    with Some obtain st where "rx_matches r (p, x # xs, Map.empty) st" "(\<lambda>(_, _, cp). Some cp) st = Some cp"
      using rx_run_sound[of r "\<lambda>(_, _, cp). Some cp" "(p, x # xs, Map.empty)" cp] by auto
    then show ?thesis by (intro exI[of _ "[]"] exI[of _ "x # xs"] exI[of _ p] exI[of _ st]) (auto split: prod.splits)
  qed
qed

end
