(* ===== verification/Boost_Api.thy ===== *)
theory Boost_Api
  imports Perl_Regex
begin

text \<open>
  The Boost libraries are not part of the repository. What the sources call is a parameter
  of the model: the record \<open>boost_lib\<close> holds one function per library routine, and every
  definition that uses one takes the record as an argument. \<open>boost_contract\<close> states the
  documented behaviour the sources rely on. \<open>ref_boost\<close> is a concrete library that
  satisfies the contract; witnesses run on it.
\<close>

section \<open>The routines\<close>

text \<open>
  \<open>bx_split s c\<close> is \<open>boost::split(out, s, boost::is_any_of(c))\<close>; \<open>bx_join\<close> is
  \<open>boost::algorithm::join\<close>; \<open>bx_format\<close> is \<open>str(boost::format(f) % a1 % ... )\<close>;
  \<open>bx_search\<close> is \<open>boost::regex_search\<close> with the sub-matches of the first match;
  \<open>bx_match\<close> is \<open>boost::regex_match\<close> of a text against a pattern given as a string;
  \<open>bx_iequals\<close> is \<open>boost::algorithm::iequals\<close>.
\<close>

record boost_lib =
  bx_split :: "string \<Rightarrow> char \<Rightarrow> string list"
  bx_join :: "string list \<Rightarrow> string \<Rightarrow> string"
  bx_format :: "string \<Rightarrow> string list \<Rightarrow> string"
  bx_search :: "rx \<Rightarrow> string \<Rightarrow> captures option"
  bx_match :: "string \<Rightarrow> string \<Rightarrow> captures option"
  bx_iequals :: "string \<Rightarrow> string \<Rightarrow> bool"

section \<open>Reference functions\<close>

fun split_on :: "char \<Rightarrow> string \<Rightarrow> string list" where
  "split_on c [] = [[]]"
| "split_on c (x # xs) =
     (if x = c then [] # split_on c xs
      else (case split_on c xs of [] \<Rightarrow> [[x]] | p # ps \<Rightarrow> (x # p) # ps))"

fun join_with :: "string \<Rightarrow> string list \<Rightarrow> string" where
  "join_with sep [] = []"
| "join_with sep [x] = x"
| "join_with sep (x # y # ys) = x @ sep @ join_with sep (y # ys)"

fun format_ref :: "string \<Rightarrow> string list \<Rightarrow> string" where
  "format_ref (p # d # q # f) args =
     (if p = CHR ''%'' \<and> q = CHR ''%'' \<and> 49 \<le> (of_char d :: nat) \<and> (of_char d :: nat) - 48 \<le> length args
         \<and> (of_char d :: nat) \<le> 57
      then args ! (of_char d - 49) @ format_ref f args
      else p # format_ref (d # q # f) args)"
| "format_ref f args = f"

definition upper :: "char \<Rightarrow> char" where
  "upper c = (if 97 \<le> (of_char c :: nat) \<and> (of_char c :: nat) \<le> 122 then char_of ((of_char c :: nat) - 32) else c)"

definition lower :: "char \<Rightarrow> char" where
  "lower c = (if 65 \<le> (of_char c :: nat) \<and> (of_char c :: nat) \<le> 90 then char_of ((of_char c :: nat) + 32) else c)"

lemma split_on_neq_Nil [simp]: "split_on c s \<noteq> []"
  by (induction s) (auto split: list.splits)

lemma split_on_no_sep: "p \<in> set (split_on c s) \<Longrightarrow> c \<notin> set p"
  by (induction s arbitrary: p) (auto split: if_splits list.splits)

lemma join_with_Cons: "ys \<noteq> [] \<Longrightarrow> join_with sep (x # ys) = x @ sep @ join_with sep ys"
  by (cases ys) auto

lemma join_split_on: "join_with [c] (split_on c s) = s"
proof (induction s)
  case (Cons x xs)
  obtain p ps where s: "split_on c xs = p # ps" by (meson neq_Nil_conv split_on_neq_Nil)
  show ?case
    using Cons s by (cases ps) (auto simp: join_with_Cons)
qed simp

lemma split_on_notin: "c \<notin> set s \<Longrightarrow> split_on c s = [s]"
  by (induction s) auto

lemma split_on_append: "c \<notin> set w \<Longrightarrow> split_on c (w @ c # r) = w # split_on c r"
  by (induction w) auto

text \<open>
  Splitting is determined by its documented laws: the pieces hold no separator and joining
  them gives the text back.
\<close>

lemma split_unique:
  "ps \<noteq> [] \<Longrightarrow> \<forall>p \<in> set ps. c \<notin> set p \<Longrightarrow> split_on c (join_with [c] ps) = ps"
proof (induction ps)
  case (Cons p ps)
  show ?case
  proof (cases "ps = []")
    case True
    with Cons show ?thesis by (simp add: split_on_notin)
  next
    case False
    with Cons show ?thesis by (simp add: join_with_Cons split_on_append)
  qed
qed simp

section \<open>The contract\<close>

definition split_contract :: "boost_lib \<Rightarrow> bool" where
  "split_contract L \<longleftrightarrow> (\<forall>s c. bx_split L s c \<noteq> [] \<and> (\<forall>p \<in> set (bx_split L s c). c \<notin> set p)
     \<and> bx_join L (bx_split L s c) [c] = s)"

definition join_contract :: "boost_lib \<Rightarrow> bool" where
  "join_contract L \<longleftrightarrow> (\<forall>sep. bx_join L [] sep = [] \<and> (\<forall>x. bx_join L [x] sep = x)
     \<and> (\<forall>x y ys. bx_join L (x # y # ys) sep = x @ sep @ bx_join L (y # ys) sep))"

definition format_contract :: "boost_lib \<Rightarrow> bool" where
  "format_contract L \<longleftrightarrow> (\<forall>args. bx_format L [] args = []
     \<and> (\<forall>c f. c \<noteq> CHR ''%'' \<longrightarrow> bx_format L (c # f) args = c # bx_format L f args)
     \<and> (\<forall>d f. 49 \<le> (of_char d :: nat) \<and> (of_char d :: nat) \<le> 57 \<and> (of_char d :: nat) - 48 \<le> length args \<longrightarrow>
          bx_format L (CHR ''%'' # d # CHR ''%'' # f) args
            = args ! (of_char d - 49) @ bx_format L f args))"

definition boost_contract :: "boost_lib \<Rightarrow> bool" where
  "boost_contract L \<longleftrightarrow> split_contract L \<and> join_contract L \<and> format_contract L
     \<and> (\<forall>r s. bx_search L r s = rx_search r s)
     \<and> (\<forall>a b. bx_iequals L a b \<longleftrightarrow> map upper a = map upper b)"

text \<open>The clients' view of the library: lemmas proved once from the contract.\<close>

locale boost =
  fixes L :: boost_lib
  assumes contract: "boost_contract L"
begin

lemma join_eq: "bx_join L ps sep = join_with sep ps"
proof (induction ps rule: induct_list012)
  case 1 then show ?case using contract by (simp add: boost_contract_def join_contract_def)
next
  case (2 x) then show ?case using contract by (simp add: boost_contract_def join_contract_def)
next
  case (3 x y ys)
  then show ?case using contract by (simp add: boost_contract_def join_contract_def)
qed

lemma split_eq: "bx_split L s c = split_on c s"
proof -
  have *: "bx_split L s c \<noteq> []" "\<forall>p \<in> set (bx_split L s c). c \<notin> set p"
    "join_with [c] (bx_split L s c) = s"
    using contract by (simp_all add: boost_contract_def split_contract_def join_eq[symmetric])
  with split_unique[OF *(1,2)] show ?thesis by simp
qed

lemma search_eq: "bx_search L r s = rx_search r s"
  using contract by (simp add: boost_contract_def)

lemma iequals_eq: "bx_iequals L a b \<longleftrightarrow> map upper a = map upper b"
  using contract by (simp add: boost_contract_def)

lemma format_Nil: "bx_format L [] args = []"
  using contract by (simp add: boost_contract_def format_contract_def)

lemma format_char: "c \<noteq> CHR ''%'' \<Longrightarrow> bx_format L (c # f) args = c # bx_format L f args"
  using contract by (simp add: boost_contract_def format_contract_def)

lemma format_arg:
  "49 \<le> (of_char d :: nat) \<Longrightarrow> (of_char d :: nat) \<le> 57 \<Longrightarrow> (of_char d :: nat) - 48 \<le> length args \<Longrightarrow>
   bx_format L (CHR ''%'' # d # CHR ''%'' # f) args = args ! (of_char d - 49) @ bx_format L f args"
  using contract by (simp add: boost_contract_def format_contract_def)

lemma format_two: "bx_format L ''%1% %2%'' [a, b] = a @ '' '' @ b"
  by (simp add: format_arg format_char format_Nil)

end

section \<open>A library that satisfies the contract\<close>

definition ref_boost :: boost_lib where
  "ref_boost = \<lparr>bx_split = (\<lambda>s c. split_on c s), bx_join = (\<lambda>ps sep. join_with sep ps),
     bx_format = format_ref, bx_search = rx_search,
     bx_match = (\<lambda>pat s. if pat = s then Some [0 \<mapsto> s] else None),
     bx_iequals = (\<lambda>a b. map upper a = map upper b)\<rparr>"

lemma ref_boost_simps [simp]:
  "bx_split ref_boost s c = split_on c s"
  "bx_join ref_boost ps sep = join_with sep ps"
  "bx_format ref_boost = format_ref"
  "bx_search ref_boost = rx_search"
  "bx_iequals ref_boost a b \<longleftrightarrow> map upper a = map upper b"
  by (simp_all add: ref_boost_def)

lemma format_ref_char: "c \<noteq> CHR ''%'' \<Longrightarrow> format_ref (c # f) args = c # format_ref f args"
  by (cases "(c # f, args)" rule: format_ref.cases) auto

lemma format_ref_arg:
  "49 \<le> (of_char d :: nat) \<Longrightarrow> (of_char d :: nat) \<le> 57 \<Longrightarrow> (of_char d :: nat) - 48 \<le> length args \<Longrightarrow>
   format_ref (CHR ''%'' # d # CHR ''%'' # f) args = args ! (of_char d - 49) @ format_ref f args"
  by simp

lemma ref_boost_contract: "boost_contract ref_boost"
  unfolding boost_contract_def split_contract_def join_contract_def format_contract_def
  using split_on_no_sep
  by (auto simp: join_split_on format_ref_char format_ref_arg simp del: format_ref.simps(1))

interpretation ref: boost ref_boost
  by unfold_locales (rule ref_boost_contract)

end
