(* ===== verification/Irc_Message.thy ===== *)
theory Irc_Message
  imports Boost_Api Cpp_String "HOL-Library.Char_ord" "HOL-Library.List_Lexorder"
begin

text \<open>
  The IRC message of \<^verbatim>\<open>irc/irc_client.hpp\<close>: the regular expression a raw line is matched
  against, the class \<open>Message\<close> with its constructor and \<open>toString\<close>. The lemmas give the
  fields of every well-formed line (a round trip from a rendered line), show that the
  constructor never leaves the defined behaviour of C++, and bound the parameter list.
\<close>

section \<open>The regular expression\<close>

definition lit :: "char \<Rightarrow> rx" where
  "lit c = Chars False [c]"

text \<open>\<^verbatim>\<open>(?:@(.*?)\ )?\<close>\<close>

definition rx_tags :: rx where
  "rx_tags = Opt (rx_seq [lit CHR ''@'', Group 1 (Star False True []), lit SP])"

text \<open>\<^verbatim>\<open>(?:(?:!([^@]*))?@([^\ ]*))?\<close>\<close>

definition rx_user_host :: rx where
  "rx_user_host = Opt (rx_seq [
     Opt (rx_seq [lit CHR ''!'', Group 4 (Star True True [CHR ''@''])]),
     lit CHR ''@'', Group 5 (Star True True [SP])])"

text \<open>\<^verbatim>\<open>(?::(([^@!\ ]*) ... )\ )?\<close>\<close>

definition rx_prefix :: rx where
  "rx_prefix = Opt (rx_seq [lit CHR '':'',
     Group 2 (rx_seq [Group 3 (Star True True [CHR ''@'', CHR ''!'', SP]), rx_user_host]),
     lit SP])"

text \<open>\<^verbatim>\<open>([^\ ]+)\<close>\<close>

definition rx_command :: rx where
  "rx_command = Group 6 (Seq (Chars True [SP]) (Star True True [SP]))"

text \<open>\<^verbatim>\<open>((?:\ [^:\ ][^\ ]*){0,14})\<close>\<close>

definition rx_param :: rx where
  "rx_param = rx_seq [lit SP, Chars True [CHR '':'', SP], Star True True [SP]]"

definition rx_params :: rx where
  "rx_params = Group 7 (Upto 14 rx_param)"

text \<open>\<^verbatim>\<open>(?:\ :?(.*))?\<close>\<close>

definition rx_trailing :: rx where
  "rx_trailing = Opt (rx_seq [lit SP, Opt (lit CHR '':''), Group 8 (Star True True [])])"

definition message_regex :: rx where
  "message_regex = rx_seq [Bol, rx_tags, rx_prefix, rx_command, rx_params, rx_trailing, Eol]"

section \<open>The class\<close>

record message =
  m_raw :: string
  m_tags :: "(string \<times> string) list"
  prefix :: string
  nickname :: string
  user :: string
  host :: string
  command :: string
  params :: "string list"

definition empty_message :: message where
  "empty_message = \<lparr>m_raw = [], m_tags = [], prefix = [], nickname = [], user = [], host = [],
     command = [], params = []\<rparr>"

text \<open>
  The loop over the tags: each is split at \<^verbatim>\<open>=\<close>; one with an empty key is skipped, one
  with a second \<^verbatim>\<open>=\<close> is printed and dropped. Indexing \<open>tag[0]\<close> of an empty vector would
  be undefined behaviour.
\<close>

definition insert_tag ::
  "boost_lib \<Rightarrow> (string \<times> string) list \<times> string list \<Rightarrow> string \<Rightarrow> ((string \<times> string) list \<times> string list) result"
where
  "insert_tag L acc t =
     (case bx_split L t CHR ''='' of
        [] \<Rightarrow> Inl Undefined_Behaviour
      | k # vs \<Rightarrow>
          if k = [] then Inr acc
          else (case vs of
              [v] \<Rightarrow> Inr (smap_insert (k, v) (fst acc), snd acc)
            | [] \<Rightarrow> Inr (smap_insert (k, []) (fst acc), snd acc)
            | _ \<Rightarrow> Inr (fst acc, snd acc @ [t @ [LF]])))"

fun insert_tags ::
  "boost_lib \<Rightarrow> (string \<times> string) list \<times> string list \<Rightarrow> string list \<Rightarrow> ((string \<times> string) list \<times> string list) result"
where
  "insert_tags L acc [] = Inr acc"
| "insert_tags L acc (t # ts) = bind_result (insert_tag L acc t) (\<lambda>acc'. insert_tags L acc' ts)"

text \<open>
  The constructor returns the message and the lines it prints. When the expression does
  not match, no member is assigned. The first piece of the split parameters is erased; the
  test before \<open>push_back(what[8])\<close> ends in a semicolon, so the push is unconditional.
\<close>

definition message_ctor :: "boost_lib \<Rightarrow> string \<Rightarrow> (message \<times> string list) result" where
  "message_ctor L raw =
     (case bx_search L message_regex raw of
        None \<Rightarrow> Inr (empty_message, [])
      | Some what \<Rightarrow>
          bind_result (insert_tags L ([], []) (bx_split L (sub_match what 1) CHR '';'')) (\<lambda>(tags, out).
            case bx_split L (sub_match what 7) SP of
              [] \<Rightarrow> Inl Undefined_Behaviour
            | _ # ps \<Rightarrow>
                Inr (\<lparr>m_raw = raw, m_tags = tags, prefix = sub_match what 2,
                  nickname = sub_match what 3, user = sub_match what 4, host = sub_match what 5,
                  command = sub_match what 6, params = ps @ [sub_match what 8]\<rparr>, out)))"

text \<open>\<open>toString\<close>, a JSON-like rendering through two \<open>boost::format\<close> templates.\<close>

definition tag_template :: string where
  "tag_template = ''        '' @ [QUOTE] @ ''%1%'' @ [QUOTE] @ '': '' @ [QUOTE] @ ''%2%'' @ [QUOTE] @ '','' @ CRLF"

definition field_template :: "string \<Rightarrow> string \<Rightarrow> string" where
  "field_template name arg = ''    '' @ [QUOTE] @ name @ [QUOTE] @ '': '' @ [QUOTE] @ arg @ [QUOTE] @ '','' @ CRLF"

definition message_template :: string where
  "message_template = ''{'' @ CRLF @ field_template ''nickname'' ''%1%'' @ field_template ''user'' ''%2%''
     @ field_template ''host'' ''%3%'' @ field_template ''command'' ''%4%''
     @ field_template ''params'' ''%5%'' @ ''%6%}''"

definition toString :: "boost_lib \<Rightarrow> message \<Rightarrow> string" where
  "toString L m =
     (let tags = ''    '' @ [QUOTE] @ ''tags'' @ [QUOTE] @ '': ['' @ CRLF
            @ concat (map (\<lambda>(k, v). bx_format L tag_template [k, v]) (m_tags m)) @ ''    ]'' @ CRLF
      in bx_format L message_template
           [nickname m, user m, host m, command m, bx_join L (params m) '':'', tags])"

section \<open>The first match on a well-formed line\<close>

text \<open>
  The parts of a line as RFC 2812 and the IRCv3 tags write them; \<open>render_line\<close> puts them
  together. \<open>line_parts_ok\<close> are the character restrictions of the grammar.
\<close>

record line_parts =
  lp_tags :: "string option"
  lp_prefix :: "(string \<times> (string option \<times> string) option) option"
  lp_command :: string
  lp_middle :: "string list"
  lp_trailing :: "string option"

definition render_user_host :: "(string option \<times> string) option \<Rightarrow> string" where
  "render_user_host uh =
     (case uh of None \<Rightarrow> []
      | Some (None, h) \<Rightarrow> ''@'' @ h
      | Some (Some u, h) \<Rightarrow> ''!'' @ u @ ''@'' @ h)"

definition render_tags :: "string option \<Rightarrow> string" where
  "render_tags t = (case t of None \<Rightarrow> [] | Some t \<Rightarrow> ''@'' @ t @ [SP])"

definition render_prefix :: "(string \<times> (string option \<times> string) option) option \<Rightarrow> string" where
  "render_prefix p = (case p of None \<Rightarrow> [] | Some (n, uh) \<Rightarrow> '':'' @ n @ render_user_host uh @ [SP])"

definition render_middle :: "string list \<Rightarrow> string" where
  "render_middle ps = concat (map ((#) SP) ps)"

definition render_trailing :: "string option \<Rightarrow> string" where
  "render_trailing t = (case t of None \<Rightarrow> [] | Some t \<Rightarrow> '' :'' @ t)"

definition render_line :: "line_parts \<Rightarrow> string" where
  "render_line lp = render_tags (lp_tags lp) @ render_prefix (lp_prefix lp) @ lp_command lp
     @ render_middle (lp_middle lp) @ render_trailing (lp_trailing lp)"

definition middle_ok :: "string \<Rightarrow> bool" where
  "middle_ok p \<longleftrightarrow> p \<noteq> [] \<and> hd p \<noteq> CHR '':'' \<and> SP \<notin> set p"

definition user_host_ok :: "(string option \<times> string) option \<Rightarrow> bool" where
  "user_host_ok uh =
     (case uh of None \<Rightarrow> True
      | Some (u, h) \<Rightarrow> SP \<notin> set h \<and> (case u of None \<Rightarrow> True | Some u \<Rightarrow> CHR ''@'' \<notin> set u))"

definition prefix_ok :: "(string \<times> (string option \<times> string) option) option \<Rightarrow> bool" where
  "prefix_ok p =
     (case p of None \<Rightarrow> True
      | Some (n, uh) \<Rightarrow> CHR ''@'' \<notin> set n \<and> CHR ''!'' \<notin> set n \<and> SP \<notin> set n \<and> user_host_ok uh)"

definition line_parts_ok :: "line_parts \<Rightarrow> bool" where
  "line_parts_ok lp \<longleftrightarrow>
     (case lp_tags lp of None \<Rightarrow> True | Some t \<Rightarrow> SP \<notin> set t) \<and> prefix_ok (lp_prefix lp)
     \<and> lp_command lp \<noteq> [] \<and> SP \<notin> set (lp_command lp)
     \<and> hd (lp_command lp) \<noteq> CHR '':'' \<and> hd (lp_command lp) \<noteq> CHR ''@''
     \<and> length (lp_middle lp) \<le> 14 \<and> (\<forall>p \<in> set (lp_middle lp). middle_ok p)"

text \<open>The sub-matches the parts turn into.\<close>

definition user_host_caps :: "(string option \<times> string) option \<Rightarrow> captures \<Rightarrow> captures" where
  "user_host_caps uh cp =
     (case uh of None \<Rightarrow> cp
      | Some (None, h) \<Rightarrow> cp(5 \<mapsto> h)
      | Some (Some u, h) \<Rightarrow> cp(4 \<mapsto> u, 5 \<mapsto> h))"

definition prefix_caps :: "(string \<times> (string option \<times> string) option) option \<Rightarrow> captures \<Rightarrow> captures" where
  "prefix_caps p cp =
     (case p of None \<Rightarrow> cp
      | Some (n, uh) \<Rightarrow> (user_host_caps uh (cp(3 \<mapsto> n)))(2 \<mapsto> n @ render_user_host uh))"

definition tags_caps :: "string option \<Rightarrow> captures \<Rightarrow> captures" where
  "tags_caps t cp = (case t of None \<Rightarrow> cp | Some t \<Rightarrow> cp(1 \<mapsto> t))"

definition trailing_caps :: "string option \<Rightarrow> captures \<Rightarrow> captures" where
  "trailing_caps t cp = (case t of None \<Rightarrow> cp | Some t \<Rightarrow> cp(8 \<mapsto> t))"

definition line_caps :: "line_parts \<Rightarrow> captures" where
  "line_caps lp = trailing_caps (lp_trailing lp)
     ((prefix_caps (lp_prefix lp) (tags_caps (lp_tags lp) Map.empty))
        (6 \<mapsto> lp_command lp, 7 \<mapsto> render_middle (lp_middle lp)))"

lemma run_lit:
  "k (Some c, s, cp) = Some v \<Longrightarrow> rx_run (lit c) k (p, c # s, cp) = Some v"
  by (simp add: lit_def)

lemma run_lit_other:
  "s = [] \<or> hd s \<noteq> c \<Longrightarrow> rx_run (lit c) k (p, s, cp) = None"
  by (cases s) (simp_all add: lit_def)

lemma run_tags_none:
  assumes "s = [] \<or> hd s \<noteq> CHR ''@''" and "k (p, s, cp) = Some v"
  shows "rx_run rx_tags k (p, s, cp) = Some v"
  unfolding rx_tags_def rx_seq.simps
  by (rule run_opt_skip) (use assms in \<open>simp_all add: run_lit_other\<close>)

lemma run_tags_some:
  assumes "SP \<notin> set t" and "\<And>p. k (p, s, cp(1 \<mapsto> t)) = Some v"
  shows "rx_run rx_tags k (p, CHR ''@'' # t @ SP # s, cp) = Some v"
  unfolding rx_tags_def rx_seq.simps
proof (intro first_match run_lit run_lazy)
  fix u w p assume "t = u @ w" "w \<noteq> []"
  with assms(1) obtain x w' where "w = x # w'" "x \<noteq> SP" by (cases w) auto
  then show "(\<lambda>(p', s', cp'). rx_run (lit SP) k (p', s', cp'(1 \<mapsto> take (length (t @ SP # s) - length s') (t @ SP # s))))
    (p, w @ SP # s, cp) = None"
    by (simp add: run_lit_other)
qed (use assms in \<open>auto intro: run_lit\<close>)

lemma run_tags:
  assumes "case t of None \<Rightarrow> s = [] \<or> hd s \<noteq> CHR ''@'' | Some t \<Rightarrow> SP \<notin> set t"
    and "\<And>p. k (p, s, tags_caps t cp) = Some v"
  shows "rx_run rx_tags k (p, render_tags t @ s, cp) = Some v"
proof (cases t)
  case None
  with assms show ?thesis by (simp add: render_tags_def tags_caps_def run_tags_none)
next
  case (Some u)
  with assms show ?thesis by (simp add: render_tags_def tags_caps_def run_tags_some)
qed

lemma run_user_host:
  assumes "user_host_ok uh" and "\<And>p. k (p, SP # s, user_host_caps uh cp) = Some v"
  shows "rx_run rx_user_host k (p, render_user_host uh @ SP # s, cp) = Some v"
proof (cases uh)
  case None
  with assms show ?thesis
    unfolding rx_user_host_def rx_seq.simps
    by (intro run_opt_skip) (simp_all add: lit_def render_user_host_def user_host_caps_def)
next
  case (Some uh')
  obtain u h where uh': "uh' = (u, h)" by force
  have h: "\<forall>x \<in> set h. in_class True [SP] x"
    using assms(1) Some uh' by (auto simp: user_host_ok_def)
  show ?thesis
  proof (cases u)
    case None
    have "rx_run rx_user_host k (p, CHR ''@'' # h @ SP # s, cp) = Some v"
      unfolding rx_user_host_def rx_seq.simps
    proof (rule run_opt, rule run_seq, rule run_opt_skip)
      show "rx_run (Seq (lit CHR ''@'') (Group 5 (Star True True [SP]))) k (p, CHR ''@'' # h @ SP # s, cp) = Some v"
        by (intro run_seq run_lit run_group run_greedy h)
          (use assms Some uh' None in \<open>simp_all add: user_host_caps_def\<close>)
    qed (simp add: lit_def)
    with Some uh' None show ?thesis by (simp add: render_user_host_def)
  next
    case (Some u')
    have u: "\<forall>x \<in> set u'. in_class True [CHR ''@''] x"
      using assms(1) \<open>uh = Some uh'\<close> uh' Some by (auto simp: user_host_ok_def)
    have tail: "rx_run (Seq (lit CHR ''@'') (Group 5 (Star True True [SP]))) k
        (q, CHR ''@'' # h @ SP # s, cp(4 \<mapsto> u')) = Some v" for q
      by (intro run_seq run_lit run_group run_greedy h)
        (use assms \<open>uh = Some uh'\<close> uh' Some in \<open>simp_all add: user_host_caps_def\<close>)
    have "rx_run rx_user_host k (p, CHR ''!'' # u' @ CHR ''@'' # h @ SP # s, cp) = Some v"
      unfolding rx_user_host_def rx_seq.simps
      by (intro run_opt run_seq run_lit run_group run_greedy u) (use tail in simp_all)
    with \<open>uh = Some uh'\<close> uh' Some show ?thesis by (simp add: render_user_host_def)
  qed
qed

lemma run_prefix:
  assumes "prefix_ok pf" and "pf = None \<Longrightarrow> s = [] \<or> hd s \<noteq> CHR '':''"
    and "\<And>p. k (p, s, prefix_caps pf cp) = Some v"
  shows "rx_run rx_prefix k (p, render_prefix pf @ s, cp) = Some v"
proof (cases pf)
  case None
  with assms show ?thesis
    unfolding rx_prefix_def rx_seq.simps
    by (intro run_opt_skip) (simp_all add: run_lit_other render_prefix_def prefix_caps_def)
next
  case (Some nu)
  obtain n uh where nu: "nu = (n, uh)" by force
  have n: "\<forall>x \<in> set n. in_class True [CHR ''@'', CHR ''!'', SP] x" and uh: "user_host_ok uh"
    using assms(1) Some nu by (auto simp: prefix_ok_def)
  have stop: "\<not> in_class True [CHR ''@'', CHR ''!'', SP] (hd (render_user_host uh @ SP # s))"
    by (auto simp: render_user_host_def split: option.splits)
  have "rx_run rx_prefix k (p, CHR '':'' # n @ render_user_host uh @ SP # s, cp) = Some v"
    unfolding rx_prefix_def rx_seq.simps
    by (intro run_opt run_seq run_lit run_group run_greedy n)
      (use stop assms Some nu uh in \<open>auto simp: prefix_caps_def intro!: run_user_host run_lit\<close>)
  with Some nu show ?thesis by (simp add: render_prefix_def)
qed

lemma run_command:
  assumes "c \<noteq> []" and "SP \<notin> set c" and "s = [] \<or> hd s = SP"
    and "\<And>p. k (p, s, cp(6 \<mapsto> c)) = Some v"
  shows "rx_run rx_command k (p, c @ s, cp) = Some v"
proof -
  obtain x w where c: "c = x # w" using assms(1) by (cases c) auto
  have "rx_run rx_command k (p, x # w @ s, cp) = Some v"
    unfolding rx_command_def
    by (intro run_group run_seq run_char run_greedy) (use assms c in auto)
  with c show ?thesis by simp
qed

lemma run_param:
  assumes "middle_ok q" and "r = [] \<or> hd r = SP" and "\<And>p. k (p, r, cp) = Some v"
  shows "rx_run rx_param k (p, SP # q @ r, cp) = Some v"
proof -
  obtain x w where q: "q = x # w" using assms(1) by (cases q) (auto simp: middle_ok_def)
  have "rx_run rx_param k (p, SP # x # w @ r, cp) = Some v"
    unfolding rx_param_def rx_seq.simps
    by (intro run_seq run_lit run_char run_greedy) (use assms q in \<open>auto simp: middle_ok_def\<close>)
  with q show ?thesis by simp
qed

text \<open>What may follow the middle parameters: nothing, or the colon of the trailing one.\<close>

lemma run_middle:
  assumes "\<forall>q \<in> set ps. middle_ok q" and "length ps \<le> n"
    and "s = [] \<or> (\<exists>t. s = '' :'' @ t)" and "\<And>p. k (p, s, cp) = Some v"
  shows "rep n (rx_run rx_param) k (p, render_middle ps @ s, cp) = Some v"
  using assms(1,2)
proof (induction ps arbitrary: n p)
  case Nil
  have "rx_run rx_param k' (p, s, cp) = None" for k' :: "position \<Rightarrow> 'a option"
    using assms(3) by (auto simp: rx_param_def lit_def)
  with assms(4) show ?case by (cases n) (simp_all add: render_middle_def)
next
  case (Cons q ps)
  then obtain m where n: "n = Suc m" by (cases n) auto
  have stop: "render_middle ps @ s = [] \<or> hd (render_middle ps @ s) = SP"
    using assms(3) by (cases ps) (auto simp: render_middle_def)
  have "rx_run rx_param (rep m (rx_run rx_param) k) (p, SP # q @ render_middle ps @ s, cp) = Some v"
    by (rule run_param) (use stop Cons.IH[of m] Cons.prems n in simp_all)
  with n show ?case by (simp add: render_middle_def)
qed

lemma run_trailing:
  assumes "\<And>p. k (p, [], trailing_caps t cp) = Some v"
  shows "rx_run rx_trailing k (p, render_trailing t, cp) = Some v"
proof (cases t)
  case None
  with assms show ?thesis
    unfolding rx_trailing_def rx_seq.simps
    by (intro run_opt_skip) (simp_all add: lit_def render_trailing_def trailing_caps_def)
next
  case (Some u)
  have "rx_run (Star True True []) k' (q, u @ [], cp') = Some v"
    if "k' (last_char q u, [], cp') = Some v" for k' q cp'
    by (rule run_greedy) (use that in simp_all)
  then have "rx_run rx_trailing k (p, SP # CHR '':'' # u, cp) = Some v"
    unfolding rx_trailing_def rx_seq.simps
    by (intro run_opt run_seq run_lit run_group) (use assms Some in \<open>simp_all add: trailing_caps_def\<close>)
  with Some show ?thesis by (simp add: render_trailing_def)
qed

lemma search_render:
  assumes "line_parts_ok lp"
  shows "rx_search message_regex (render_line lp) = Some (line_caps lp)"
proof -
  let ?mid = "render_middle (lp_middle lp)" and ?tr = "render_trailing (lp_trailing lp)"
  note ok = assms[unfolded line_parts_ok_def]
  have tr: "?tr = [] \<or> (\<exists>t. ?tr = '' :'' @ t)"
    by (auto simp: render_trailing_def split: option.splits)
  have mid: "?mid @ ?tr = [] \<or> hd (?mid @ ?tr) = SP"
    using tr by (cases "lp_middle lp") (auto simp: render_middle_def)
  have cmd: "lp_command lp @ ?mid @ ?tr = [] \<or> hd (lp_command lp @ ?mid @ ?tr) \<noteq> CHR '':''"
    using ok by (cases "lp_command lp") auto
  have pre: "render_prefix (lp_prefix lp) @ lp_command lp @ ?mid @ ?tr = []
      \<or> hd (render_prefix (lp_prefix lp) @ lp_command lp @ ?mid @ ?tr) \<noteq> CHR ''@''"
    using ok by (cases "lp_command lp"; cases "lp_prefix lp") (auto simp: render_prefix_def)
  let ?K = "\<lambda>(_, _, cp). Some cp"
  have e5: "rx_run rx_trailing (rx_run Eol ?K) (p, ?tr, cp) = Some (trailing_caps (lp_trailing lp) cp)" for p cp
    by (rule run_trailing) (simp add: at_eol_def)
  have e4: "rx_run rx_params (rx_run (Seq rx_trailing Eol) ?K) (p, ?mid @ ?tr, cp)
      = Some (trailing_caps (lp_trailing lp) (cp(7 \<mapsto> ?mid)))" for p cp
    unfolding rx_params_def
    by (rule run_group, unfold rx_run.simps(8), rule run_middle) (use ok tr e5 in simp_all)
  have e3: "rx_run rx_command (rx_run (Seq rx_params (Seq rx_trailing Eol)) ?K) (p, lp_command lp @ ?mid @ ?tr, cp)
      = Some (trailing_caps (lp_trailing lp) (cp(6 \<mapsto> lp_command lp, 7 \<mapsto> ?mid)))" for p cp
    by (rule run_command) (use ok mid e4 in simp_all)
  have e2: "rx_run rx_prefix (rx_run (Seq rx_command (Seq rx_params (Seq rx_trailing Eol))) ?K)
      (p, render_prefix (lp_prefix lp) @ lp_command lp @ ?mid @ ?tr, cp)
      = Some (trailing_caps (lp_trailing lp)
          ((prefix_caps (lp_prefix lp) cp)(6 \<mapsto> lp_command lp, 7 \<mapsto> ?mid)))" for p cp
    by (rule run_prefix) (use ok cmd e3 in simp_all)
  have e1: "rx_run rx_tags (rx_run (Seq rx_prefix (Seq rx_command (Seq rx_params (Seq rx_trailing Eol)))) ?K)
      (None, render_line lp, Map.empty) = Some (line_caps lp)"
    unfolding render_line_def line_caps_def
    by (rule run_tags) (use ok pre e2 in \<open>auto split: option.splits\<close>)
  have "rx_run message_regex ?K (None, render_line lp, Map.empty) = Some (line_caps lp)"
    unfolding message_regex_def rx_seq.simps using e1 by (simp add: at_bol_def)
  then show ?thesis by (simp add: rx_search_def search_from_here)
qed
section \<open>What every match looks like\<close>

text \<open>
  Whatever line the expression matches, the command is a non-empty word and the text of the
  seventh sub-match is a run of at most fourteen middle parameters.
\<close>

lemma matches_command:
  assumes "rx_matches rx_command (p, s, cp) st"
  obtains c p' r where "s = c @ r" "st = (p', r, cp(6 \<mapsto> c))" "c \<noteq> []" "SP \<notin> set c"
proof -
  from assms obtain p' s' cp' where st: "st = (p', s', cp'(6 \<mapsto> take (length s - length s') s))"
    and m: "rx_matches (Seq (Chars True [SP]) (Star True True [SP])) (p, s, cp) (p', s', cp')"
    unfolding rx_command_def by (auto elim!: rx_groupE)
  from m obtain x w where "s = x # w @ s'" "x \<noteq> SP" "SP \<notin> set w" "cp' = cp"
    by (auto elim!: rx_seqE rx_charsE rx_starE)
  with st show thesis by (intro that[of "x # w" s' p']) auto
qed

lemma matches_param:
  assumes "rx_matches rx_param (p, s, cp) st"
  obtains q p' r where "s = SP # q @ r" "st = (p', r, cp)" "middle_ok q"
proof -
  from assms obtain x w p' r where "s = SP # x # w @ r" "st = (p', r, cp)" "x \<noteq> CHR '':''" "x \<noteq> SP" "SP \<notin> set w"
    unfolding rx_param_def lit_def rx_seq.simps
    by (auto elim!: rx_seqE rx_charsE rx_starE)
  then show thesis by (intro that[of "x # w" r p']) (auto simp: middle_ok_def)
qed

lemma matches_middle:
  "rx_matches (Upto n rx_param) (p, s, cp) st \<Longrightarrow>
   \<exists>ps p' r. s = render_middle ps @ r \<and> st = (p', r, cp) \<and> length ps \<le> n \<and> (\<forall>q \<in> set ps. middle_ok q)"
proof (induction n arbitrary: p s)
  case 0
  then show ?case by (auto elim!: rx_upto0E simp: render_middle_def)
next
  case (Suc n)
  from Suc.prems show ?case
  proof (cases rule: rx_matches.cases)
    case m_upto_done
    then show ?thesis by (auto simp: render_middle_def intro!: exI[of _ "[]"])
  next
    case (m_upto_more st1)
    then obtain q p1 r1 where q: "s = SP # q @ r1" "st1 = (p1, r1, cp)" "middle_ok q"
      by (auto elim: matches_param)
    with m_upto_more Suc.IH obtain ps p' r where
      "r1 = render_middle ps @ r" "st = (p', r, cp)" "length ps \<le> n" "\<forall>q \<in> set ps. middle_ok q"
      by blast
    with q show ?thesis by (intro exI[of _ "q # ps"]) (auto simp: render_middle_def)
  qed
qed

lemma matches_trailing:
  assumes "rx_matches rx_trailing (p, s, cp) st"
  obtains p' r cp' where "st = (p', r, cp')" "cp' 6 = cp 6" "cp' 7 = cp 7"
  using assms unfolding rx_trailing_def lit_def rx_seq.simps
  by (fastforce elim!: rx_optE rx_seqE rx_charsE rx_starE rx_groupE)

lemma search_shape:
  assumes "rx_search message_regex s = Some cp"
  obtains c ps where "cp 6 = Some c" "c \<noteq> []" "SP \<notin> set c"
    and "cp 7 = Some (render_middle ps)" "length ps \<le> 14" "\<forall>q \<in> set ps. middle_ok q"
proof -
  from assms obtain u t p st where m: "rx_matches message_regex (p, t, Map.empty) st" and cp: "snd (snd st) = cp"
    unfolding rx_search_def by (blast dest: search_from_sound)
  from m obtain st2 st3 st4 st5 where
      c: "rx_matches rx_command st2 st3" and ps: "rx_matches rx_params st3 st4"
      and tr: "rx_matches rx_trailing st4 st5" and e: "rx_matches Eol st5 st"
    unfolding message_regex_def rx_seq.simps by (blast elim: rx_seqE)
  obtain p2 s2 cp2 where st2: "st2 = (p2, s2, cp2)" by (cases st2)
  from c[unfolded st2] obtain c p3 r3 where st3: "st3 = (p3, r3, cp2(6 \<mapsto> c))" and c: "c \<noteq> []" "SP \<notin> set c"
    by (rule matches_command)
  from ps[unfolded st3 rx_params_def] obtain p4 r4 cp4 where
      st4: "st4 = (p4, r4, cp4(7 \<mapsto> take (length r3 - length r4) r3))"
      and "rx_matches (Upto 14 rx_param) (p3, r3, cp2(6 \<mapsto> c)) (p4, r4, cp4)"
    by (blast elim: rx_groupE)
  then obtain qs where qs: "r3 = render_middle qs @ r4" "cp4 = cp2(6 \<mapsto> c)" "length qs \<le> 14" "\<forall>q \<in> set qs. middle_ok q"
    by (blast dest: matches_middle)
  from tr[unfolded st4] obtain p5 r5 cp5 where "st5 = (p5, r5, cp5)" "cp5 6 = Some c" "cp5 7 = Some (render_middle qs)"
    using qs by (elim matches_trailing) auto
  with e cp have "cp 6 = Some c" "cp 7 = Some (render_middle qs)" by (auto elim: rx_eolE)
  with c qs show thesis by (intro that)
qed

text \<open>Every line that is not empty and does not begin with a space is matched.\<close>

lemma search_total:
  assumes "s \<noteq> []" and "hd s \<noteq> SP"
  shows "rx_search message_regex s \<noteq> None"
proof -
  let ?c = "takeWhile (\<lambda>x. x \<noteq> SP) s" and ?r = "dropWhile (\<lambda>x. x \<noteq> SP) s"
  obtain x w where c: "?c = x # w" using assms by (cases s) auto
  have xw: "x \<noteq> SP" "\<forall>y \<in> set w. y \<noteq> SP"
    using set_takeWhileD[of _ "\<lambda>x. x \<noteq> SP" s] c by (metis list.set_intros)+
  have s: "s = x # w @ ?r" using c by (metis append_Cons takeWhile_dropWhile_id)
  have "rx_matches (Seq (Chars True [SP]) (Star True True [SP])) (None, x # w @ r, Map.empty)
      (last_char (Some x) w, r, Map.empty)" for r
    by (rule m_seq, rule m_chars, use xw in simp, rule m_star, use xw in auto)
  from m_group[OF this, of 6] have "rx_matches rx_command (None, x # w @ r, Map.empty)
      (last_char (Some x) w, r, [6 \<mapsto> x # w])" for r
    by (simp add: rx_command_def)
  from this[of ?r] have cmd: "rx_matches rx_command (None, s, Map.empty) (last_char (Some x) w, ?r, [6 \<mapsto> x # w])"
    using s by simp
  have mid: "rx_matches rx_params (p, ?r, cp) (p, ?r, cp(7 \<mapsto> []))" for p cp
    unfolding rx_params_def using m_group[OF m_upto_done[of 14 rx_param "(p, ?r, cp)"], of 7] by simp
  have tr: "\<exists>p' cp'. rx_matches rx_trailing (p, ?r, cp) (p', [], cp')" for p cp
  proof (cases ?r)
    case Nil
    then show ?thesis unfolding rx_trailing_def by (metis m_opt_none)
  next
    case (Cons y t)
    then have y: "y = SP" by (rule dropWhile_eq_Cons_notin)
    have "rx_matches (Star True True []) (Some SP, t @ [], cp) (last_char (Some SP) t, [], cp)"
      by (rule m_star) simp
    then obtain p' cp' where g: "rx_matches (Group 8 (Star True True [])) (Some SP, t, cp) (p', [], cp')"
      by (auto intro: m_group)
    have "rx_matches rx_trailing (p, SP # t, cp) (p', [], cp')"
      unfolding rx_trailing_def rx_seq.simps lit_def
      by (rule m_opt_some, rule m_seq, rule m_chars, simp, rule m_seq, rule m_opt_none, rule g)
    with Cons y show ?thesis by auto
  qed
  obtain p' cp' where tr: "rx_matches rx_trailing (last_char (Some x) w, ?r, [6 \<mapsto> x # w, 7 \<mapsto> []]) (p', [], cp')"
    using tr by blast
  have "rx_matches message_regex (None, s, Map.empty) (p', [], cp')"
    unfolding message_regex_def rx_seq.simps rx_tags_def rx_prefix_def
    by (rule m_seq, rule m_bol, simp add: at_bol_def, rule m_seq, rule m_opt_none, rule m_seq,
        rule m_opt_none, rule m_seq, rule cmd, rule m_seq, rule mid, rule m_seq, rule tr,
        rule m_eol, simp add: at_eol_def)
  then show ?thesis by (metis rx_search_matches option.distinct(1))
qed
section \<open>The constructor\<close>

text \<open>
  The abstract reading of a tag string: the entries in order, the ill-formed ones dropped.
  A key that occurs twice keeps its first value, as \<open>map_of\<close> does.
\<close>

definition tag_entry :: "string \<Rightarrow> (string \<times> string) option" where
  "tag_entry t =
     (case split_on CHR ''='' t of
        [k] \<Rightarrow> if k = [] then None else Some (k, [])
      | [k, v] \<Rightarrow> if k = [] then None else Some (k, v)
      | _ \<Rightarrow> None)"

definition tag_entries :: "string \<Rightarrow> (string \<times> string) list" where
  "tag_entries t = List.map_filter tag_entry (split_on CHR '';'' t)"

lemma split_middle: "\<forall>q \<in> set ps. middle_ok q \<Longrightarrow> split_on SP (render_middle ps) = [] # ps"
proof (induction ps)
  case (Cons q ps)
  then have "SP \<notin> set q" by (simp add: middle_ok_def)
  with Cons show ?case
    by (cases ps) (auto simp: render_middle_def split_on_notin split_on_append)
qed (simp add: render_middle_def)

lemma smap_fold_insert:
  "smap_ok m \<Longrightarrow> smap_ok (fold smap_insert es m) \<and> map_of (fold smap_insert es m) = map_of (m @ es)"
proof (induction es arbitrary: m)
  case (Cons e es)
  obtain k v where e: "e = (k, v)" by force
  have "smap_ok (smap_insert e m)" using Cons.prems e by (simp add: smap_ok_insert)
  moreover have "map_of (smap_insert e m @ es) = map_of (m @ e # es)"
    using Cons.prems e by (auto simp: map_of_smap_insert map_add_def fun_eq_iff split: option.splits)
  ultimately show ?case using Cons.IH by simp
qed simp

context boost
begin

lemma insert_tag_eq:
  "\<exists>out'. insert_tag L (m, out) t =
     Inr ((case tag_entry t of None \<Rightarrow> m | Some e \<Rightarrow> smap_insert e m), out')"
proof -
  obtain k vs where s: "split_on CHR ''='' t = k # vs" by (meson neq_Nil_conv split_on_neq_Nil)
  then consider "vs = []" | v where "vs = [v]" | v w ws where "vs = v # w # ws"
    by (metis list.exhaust)
  then show ?thesis
    by cases (use s in \<open>auto simp: insert_tag_def split_eq tag_entry_def\<close>)
qed

lemma insert_tags_eq:
  "\<exists>out'. insert_tags L (m, out) ts = Inr (fold smap_insert (List.map_filter tag_entry ts) m, out')"
proof (induction ts arbitrary: m out)
  case (Cons t ts)
  obtain out' where "insert_tag L (m, out) t =
     Inr ((case tag_entry t of None \<Rightarrow> m | Some e \<Rightarrow> smap_insert e m), out')"
    using insert_tag_eq by blast
  moreover obtain out'' where
    "insert_tags L ((case tag_entry t of None \<Rightarrow> m | Some e \<Rightarrow> smap_insert e m), out') ts
      = Inr (fold smap_insert (List.map_filter tag_entry ts) (case tag_entry t of None \<Rightarrow> m | Some e \<Rightarrow> smap_insert e m), out'')"
    using Cons.IH by blast
  ultimately show ?case by (cases "tag_entry t") (simp_all add: List.map_filter_simps)
qed (simp add: List.map_filter_simps)

lemma ctor_unmatched:
  "rx_search message_regex s = None \<Longrightarrow> message_ctor L s = Inr (empty_message, [])"
  by (simp add: message_ctor_def search_eq)

lemma ctor_matched:
  assumes "rx_search message_regex s = Some cp" and "sub_match cp 7 = render_middle ps"
    and "\<forall>q \<in> set ps. middle_ok q"
  obtains tags out where
    "message_ctor L s = Inr (\<lparr>m_raw = s, m_tags = tags, prefix = sub_match cp 2,
       nickname = sub_match cp 3, user = sub_match cp 4, host = sub_match cp 5,
       command = sub_match cp 6, params = ps @ [sub_match cp 8]\<rparr>, out)"
    and "smap_ok tags" and "map_of tags = map_of (tag_entries (sub_match cp 1))"
proof -
  let ?ts = "split_on CHR '';'' (sub_match cp 1)"
  obtain out where "insert_tags L ([], []) ?ts = Inr (fold smap_insert (List.map_filter tag_entry ?ts) [], out)"
    using insert_tags_eq by blast
  then show thesis
    using assms smap_fold_insert[of "[]" "tag_entries (sub_match cp 1)"]
    by (intro that[of "fold smap_insert (tag_entries (sub_match cp 1)) []" out])
      (simp_all add: message_ctor_def search_eq split_eq split_middle tag_entries_def)
qed

lemma ctor_shape:
  "\<exists>m out. message_ctor L s = Inr (m, out) \<and>
     (if rx_search message_regex s = None then m = empty_message
      else m_raw m = s \<and> smap_ok (m_tags m) \<and> command m \<noteq> [] \<and> SP \<notin> set (command m) \<and>
        (\<exists>mid tr. params m = mid @ [tr] \<and> length mid \<le> 14 \<and> (\<forall>q \<in> set mid. middle_ok q)))"
proof (cases "rx_search message_regex s")
  case None
  then show ?thesis by (simp add: ctor_unmatched)
next
  case (Some cp)
  then obtain c ps where c: "cp 6 = Some c" "c \<noteq> []" "SP \<notin> set c"
    and ps: "cp 7 = Some (render_middle ps)" "length ps \<le> 14" "\<forall>q \<in> set ps. middle_ok q"
    by (rule search_shape)
  have sub: "sub_match cp 7 = render_middle ps" using ps by (simp add: sub_match_def)
  obtain tags out where
    "message_ctor L s = Inr (\<lparr>m_raw = s, m_tags = tags, prefix = sub_match cp 2,
       nickname = sub_match cp 3, user = sub_match cp 4, host = sub_match cp 5,
       command = sub_match cp 6, params = ps @ [sub_match cp 8]\<rparr>, out)" "smap_ok tags"
    by (rule ctor_matched[OF Some sub ps(3)])
  with Some c ps show ?thesis by (auto simp: sub_match_def)
qed

lemma ctor_render:
  assumes "line_parts_ok lp"
  shows "\<exists>m out. message_ctor L (render_line lp) = Inr (m, out)
    \<and> m_raw m = render_line lp
    \<and> map_of (m_tags m) = map_of (tag_entries (case lp_tags lp of None \<Rightarrow> [] | Some t \<Rightarrow> t))
    \<and> nickname m = (case lp_prefix lp of Some (n, _) \<Rightarrow> n | None \<Rightarrow> [])
    \<and> user m = (case lp_prefix lp of Some (_, Some (Some u, _)) \<Rightarrow> u | _ \<Rightarrow> [])
    \<and> host m = (case lp_prefix lp of Some (_, Some (_, h)) \<Rightarrow> h | _ \<Rightarrow> [])
    \<and> command m = lp_command lp
    \<and> params m = lp_middle lp @ [case lp_trailing lp of None \<Rightarrow> [] | Some t \<Rightarrow> t]"
proof -
  have ps: "\<forall>q \<in> set (lp_middle lp). middle_ok q"
    using assms by (simp add: line_parts_ok_def)
  note caps = line_caps_def trailing_caps_def prefix_caps_def user_host_caps_def tags_caps_def sub_match_def
  have "sub_match (line_caps lp) 7 = render_middle (lp_middle lp)"
    by (simp add: caps split: option.splits)
  from ctor_matched[OF search_render[OF assms] this ps] obtain tags out where
    "message_ctor L (render_line lp) = Inr (\<lparr>m_raw = render_line lp, m_tags = tags,
       prefix = sub_match (line_caps lp) 2, nickname = sub_match (line_caps lp) 3,
       user = sub_match (line_caps lp) 4, host = sub_match (line_caps lp) 5,
       command = sub_match (line_caps lp) 6, params = lp_middle lp @ [sub_match (line_caps lp) 8]\<rparr>, out)"
    "map_of tags = map_of (tag_entries (sub_match (line_caps lp) 1))" by blast
  then show ?thesis by (auto simp: caps split: option.splits)
qed

end

section \<open>Properties\<close>

text \<open>C14: A line written from its parts by the IRC grammar is read back into the same parts:
  nickname, user, host, command, the tags (first value of a key wins), and the middle
  parameters followed by the trailing one. A line without a trailing parameter still gets
  an empty last parameter.\<close>

theorem message_ctor_render:
  assumes "boost_contract L" and "line_parts_ok lp"
  shows "\<exists>m out. message_ctor L (render_line lp) = Inr (m, out)
    \<and> m_raw m = render_line lp
    \<and> map_of (m_tags m) = map_of (tag_entries (case lp_tags lp of None \<Rightarrow> [] | Some t \<Rightarrow> t))
    \<and> nickname m = (case lp_prefix lp of Some (n, _) \<Rightarrow> n | None \<Rightarrow> [])
    \<and> user m = (case lp_prefix lp of Some (_, Some (Some u, _)) \<Rightarrow> u | _ \<Rightarrow> [])
    \<and> host m = (case lp_prefix lp of Some (_, Some (_, h)) \<Rightarrow> h | _ \<Rightarrow> [])
    \<and> command m = lp_command lp
    \<and> params m = lp_middle lp @ [case lp_trailing lp of None \<Rightarrow> [] | Some t \<Rightarrow> t]"
  using assms by (intro boost.ctor_render boost.intro)

definition sample_line :: line_parts where
  "sample_line = \<lparr>lp_tags = Some ''a=1;b'', lp_prefix = Some (''ann'', Some (Some ''a'', ''h'')),
     lp_command = ''PRIVMSG'', lp_middle = [''#c''], lp_trailing = Some ''hi there''\<rparr>"

theorem message_ctor_render_witness:
  "\<exists>m out. message_ctor ref_boost ''@a=1;b :ann!a@h PRIVMSG #c :hi there'' = Inr (m, out)
    \<and> nickname m = ''ann'' \<and> command m = ''PRIVMSG'' \<and> params m = [''#c'', ''hi there'']"
proof -
  have ok: "line_parts_ok sample_line"
    by (simp add: line_parts_ok_def sample_line_def prefix_ok_def user_host_ok_def middle_ok_def)
  show ?thesis
    using message_ctor_render[OF ref_boost_contract ok]
    by (auto simp: sample_line_def render_line_def render_tags_def render_prefix_def
        render_user_host_def render_middle_def render_trailing_def)
qed

text \<open>The constructor has defined behaviour on every line. Either no member is assigned, or
  the command is a non-empty word, the tags are in key order without duplicates, and the
  parameters are at most fourteen middle ones and a last one.\<close>

theorem message_ctor_shape:
  assumes "boost_contract L"
  shows "\<exists>m out. message_ctor L s = Inr (m, out) \<and>
     (if rx_search message_regex s = None then m = empty_message
      else m_raw m = s \<and> smap_ok (m_tags m) \<and> command m \<noteq> [] \<and> SP \<notin> set (command m) \<and>
        (\<exists>mid tr. params m = mid @ [tr] \<and> length mid \<le> 14 \<and> (\<forall>q \<in> set mid. middle_ok q)))"
  using assms by (intro boost.ctor_shape boost.intro)

theorem message_ctor_shape_witness:
  "\<exists>m out. message_ctor ref_boost '' '' = Inr (m, out) \<and> m = empty_message"
proof -
  have "rx_search message_regex '' '' = None" by code_simp
  then show ?thesis using message_ctor_shape[OF ref_boost_contract, of "'' ''"] by simp
qed

text \<open>Every line that is not empty and does not start with a space is recognised: the command
  is set and there is at least one parameter.\<close>

theorem message_ctor_recognises:
  assumes "boost_contract L" and "s \<noteq> []" and "hd s \<noteq> SP"
  shows "\<exists>m out. message_ctor L s = Inr (m, out) \<and> m_raw m = s \<and> command m \<noteq> [] \<and> params m \<noteq> []"
  using boost.ctor_shape[OF boost.intro[OF assms(1)], of s] search_total[OF assms(2,3)]
  by auto

theorem message_ctor_recognises_witness:
  "\<exists>m out. message_ctor ref_boost ''PING'' = Inr (m, out) \<and> command m \<noteq> [] \<and> params m \<noteq> []"
  using message_ctor_recognises[OF ref_boost_contract, of "''PING''"] by auto
end
