(* ===== verification/Irc_Client.thy ===== *)
theory Irc_Client
  imports Irc_Message Irc_Reply
begin

text \<open>
  The IRC client of \<^verbatim>\<open>irc/irc_client.cpp\<close>: its state, the commands it sends, the handlers
  of asynchronous completions and the dispatch of a received line. The virtual methods a
  subclass overrides are the fields of a \<open>vtable\<close>; \<open>base_vt\<close> is the base class.
\<close>

section \<open>State\<close>

text \<open>
  \<open>outbox\<close> holds, in order, the strings handed to \<open>async_write\<close>; \<open>in_flight\<close> those whose
  completion handler has not run; \<open>read_armed\<close> says that an \<open>async_read_until\<close> is pending;
  \<open>response\<close> is the stream buffer it reads into; \<open>cout\<close> what was printed.
\<close>

record irc_client =
  m_nick :: string
  m_pass :: string
  socket_open :: bool
  read_armed :: bool
  response :: string
  outbox :: "string list"
  in_flight :: "string list"
  cout :: "string list"

text \<open>The virtual methods that \<open>twitch_client\<close> overrides.\<close>

record 's vtable =
  v_reply :: "message \<Rightarrow> Reply \<Rightarrow> 's \<Rightarrow> bool \<times> 's"
  v_privmsg :: "message \<Rightarrow> string \<Rightarrow> string \<Rightarrow> 's \<Rightarrow> 's"

definition irc_client_ctor :: "string \<Rightarrow> string \<Rightarrow> irc_client" where
  "irc_client_ctor nick pass = \<lparr>m_nick = nick, m_pass = pass, socket_open = True, read_armed = False,
     response = [], outbox = [], in_flight = [], cout = []\<rparr>"

definition print :: "string \<Rightarrow> 'a irc_client_scheme \<Rightarrow> 'a irc_client_scheme" where
  "print s st = st\<lparr>cout := cout st @ [s]\<rparr>"

section \<open>Sending\<close>

text \<open>\<open>send(raw)\<close> starts an asynchronous write at once, whatever writes are under way.\<close>

definition send_raw :: "string \<Rightarrow> 'a irc_client_scheme \<Rightarrow> 'a irc_client_scheme" where
  "send_raw raw st = st\<lparr>outbox := outbox st @ [raw @ CRLF], in_flight := in_flight st @ [raw @ CRLF]\<rparr>"

text \<open>Its completion handler, for the \<open>i\<close>-th write still under way, prints and frees it.\<close>

definition write_done :: "nat \<Rightarrow> 'a irc_client_scheme \<Rightarrow> 'a irc_client_scheme" where
  "write_done i st =
     (if i < length (in_flight st)
      then print (''< '' @ in_flight st ! i) (st\<lparr>in_flight := take i (in_flight st) @ drop (Suc i) (in_flight st)\<rparr>)
      else st)"

definition send :: "boost_lib \<Rightarrow> string \<Rightarrow> string list \<Rightarrow> 'a irc_client_scheme \<Rightarrow> 'a irc_client_scheme" where
  "send L cmd vec st = send_raw (bx_format L ''%1% %2%'' [cmd, bx_join L vec '' '']) st"

definition irc_pass :: "boost_lib \<Rightarrow> string \<Rightarrow> 'a irc_client_scheme \<Rightarrow> 'a irc_client_scheme" where
  "irc_pass L password st = send L ''PASS'' [password] st"

definition irc_nick :: "boost_lib \<Rightarrow> string \<Rightarrow> 'a irc_client_scheme \<Rightarrow> 'a irc_client_scheme" where
  "irc_nick L nick st = send L ''NICK'' [nick] st"

definition irc_quit :: "boost_lib \<Rightarrow> string \<Rightarrow> 'a irc_client_scheme \<Rightarrow> 'a irc_client_scheme" where
  "irc_quit L quit_message st = send L ''QUIT'' [quit_message] st"

definition irc_join :: "boost_lib \<Rightarrow> string \<Rightarrow> string \<Rightarrow> 'a irc_client_scheme \<Rightarrow> 'a irc_client_scheme" where
  "irc_join L channels keys st = send L ''JOIN'' [channels, keys] st"

definition irc_join_list :: "boost_lib \<Rightarrow> string list \<Rightarrow> string list \<Rightarrow> 'a irc_client_scheme \<Rightarrow> 'a irc_client_scheme" where
  "irc_join_list L channels keys st = irc_join L (bx_join L channels '','') (bx_join L keys '','') st"

definition irc_join0 :: "boost_lib \<Rightarrow> 'a irc_client_scheme \<Rightarrow> 'a irc_client_scheme" where
  "irc_join0 L st = send L ''JOIN'' [''0''] st"

definition irc_part :: "boost_lib \<Rightarrow> string \<Rightarrow> string \<Rightarrow> 'a irc_client_scheme \<Rightarrow> 'a irc_client_scheme" where
  "irc_part L channels part_message st = send L ''PART'' [channels, part_message] st"

definition irc_part_list :: "boost_lib \<Rightarrow> string list \<Rightarrow> string \<Rightarrow> 'a irc_client_scheme \<Rightarrow> 'a irc_client_scheme" where
  "irc_part_list L channels part_message st = irc_part L (bx_join L channels '','') part_message st"

definition irc_privmsg :: "boost_lib \<Rightarrow> string \<Rightarrow> string \<Rightarrow> 'a irc_client_scheme \<Rightarrow> 'a irc_client_scheme" where
  "irc_privmsg L msgtarget text_to_be_sent st = send L ''PRIVMSG'' [msgtarget, '':'' @ text_to_be_sent] st"

definition irc_ping :: "boost_lib \<Rightarrow> string \<Rightarrow> string \<Rightarrow> 'a irc_client_scheme \<Rightarrow> 'a irc_client_scheme" where
  "irc_ping L server server2 st = send L ''PING'' [server, server2] st"

definition irc_pong :: "boost_lib \<Rightarrow> string \<Rightarrow> string \<Rightarrow> 'a irc_client_scheme \<Rightarrow> 'a irc_client_scheme" where
  "irc_pong L server server2 st = send L ''PONG'' [server, server2] st"

text \<open>The public commands. Those with an empty body in the source leave the state as it is.\<close>

datatype irc_call =
    Pass string | Nick string | User string nat string string | Oper string string
  | Mode_User string string | Service string string string string string string
  | Quit string | Squit string string
  | Join0 | Join_List "string list" "string list" | Join string string
  | Part_List "string list" string | Part string string
  | Mode_Channel string string string | Topic string string
  | Names_List "string list" string | Names string string
  | List_List "string list" string | List_One string string
  | Invite string string | Kick "string list" "string list" string
  | Privmsg string string | Notice string string
  | Motd string | Lusers string string | Version string | Stats string string
  | Links string string | Time string | Connect string string string | Trace string
  | Admin string | Info string | Servlist string string | Squery string string
  | Who string string | Whois string string | Whowas string nat string
  | Kill string string | Ping string string | Pong string string | Error string

fun irc_perform :: "boost_lib \<Rightarrow> irc_call \<Rightarrow> 'a irc_client_scheme \<Rightarrow> 'a irc_client_scheme" where
  "irc_perform L (Pass password) st = irc_pass L password st"
| "irc_perform L (Nick nick) st = irc_nick L nick st"
| "irc_perform L (Quit quit_message) st = irc_quit L quit_message st"
| "irc_perform L Join0 st = irc_join0 L st"
| "irc_perform L (Join_List channels keys) st = irc_join_list L channels keys st"
| "irc_perform L (Join channels keys) st = irc_join L channels keys st"
| "irc_perform L (Part_List channels part_message) st = irc_part_list L channels part_message st"
| "irc_perform L (Part channels part_message) st = irc_part L channels part_message st"
| "irc_perform L (Privmsg msgtarget text_to_be_sent) st = irc_privmsg L msgtarget text_to_be_sent st"
| "irc_perform L (Ping server server2) st = irc_ping L server server2 st"
| "irc_perform L (Pong server server2) st = irc_pong L server server2 st"
| "irc_perform L _ st = st"

section \<open>Receiving\<close>

text \<open>Element access: \<open>operator[]\<close> of a string has the terminating null at its size.\<close>

definition str_at :: "string \<Rightarrow> nat \<Rightarrow> char result" where
  "str_at s i = (if i < length s then Inr (s ! i) else if i = length s then Inr CHR 0x00
     else Inl Undefined_Behaviour)"

definition vec_at :: "'a list \<Rightarrow> nat \<Rightarrow> 'a result" where
  "vec_at xs i = (if i < length xs then Inr (xs ! i) else Inl Undefined_Behaviour)"

text \<open>The handlers of the base class.\<close>

definition base_reply :: "message \<Rightarrow> Reply \<Rightarrow> 'a irc_client_scheme \<Rightarrow> bool \<times> 'a irc_client_scheme" where
  "base_reply msg code st = (True, st)"

definition base_privmsg :: "message \<Rightarrow> string \<Rightarrow> string \<Rightarrow> 'a irc_client_scheme \<Rightarrow> 'a irc_client_scheme" where
  "base_privmsg msg msgtarget text_to_be_sent st =
     print (msgtarget @ ''> '' @ nickname msg @ '': '' @ text_to_be_sent @ [LF]) st"

definition base_vt :: "'a irc_client_scheme vtable" where
  "base_vt = \<lparr>v_reply = base_reply, v_privmsg = base_privmsg\<rparr>"

definition on_join :: "boost_lib \<Rightarrow> message \<Rightarrow> string list \<Rightarrow> string list \<Rightarrow> 'a irc_client_scheme \<Rightarrow> 'a irc_client_scheme" where
  "on_join L msg channels keys st =
     print (bx_format L ''%1% joined %2%'' [nickname msg, bx_join L channels '',''] @ [LF]) st"

definition on_ping :: "boost_lib \<Rightarrow> message \<Rightarrow> string \<Rightarrow> string \<Rightarrow> 'a irc_client_scheme \<Rightarrow> 'a irc_client_scheme" where
  "on_ping L msg server server2 st = irc_pong L server server2 st"

text \<open>
  \<open>message\<close> dispatches on the first two letters of the command. The result says whether the
  line is still to be printed.
\<close>

definition irc_message ::
  "boost_lib \<Rightarrow> 'a irc_client_scheme vtable \<Rightarrow> message \<Rightarrow> 'a irc_client_scheme \<Rightarrow> (bool \<times> 'a irc_client_scheme) result"
where
  "irc_message L vt msg st =
     bind_result (str_at (command msg) 0) (\<lambda>c0.
       if c0 = CHR ''P'' then
         bind_result (str_at (command msg) 1) (\<lambda>c1.
           if c1 = CHR ''R'' then
             bind_result (vec_at (params msg) 0) (\<lambda>p0.
             bind_result (vec_at (params msg) 1) (\<lambda>p1.
               Inr (False, v_privmsg vt msg p0 p1 st)))
           else if c1 = CHR ''I'' then
             (case params msg of
                [] \<Rightarrow> Inr (False, st)
              | [p0] \<Rightarrow> Inr (False, on_ping L msg p0 [] st)
              | p0 # p1 # _ \<Rightarrow> Inr (False, on_ping L msg p0 p1 st))
           else Inr (True, st))
       else if c0 = CHR ''J'' then
         (let channels = (case params msg of [] \<Rightarrow> [] | p0 # _ \<Rightarrow> bx_split L p0 CHR '','');
              keys = (case params msg of _ # p1 # _ \<Rightarrow> bx_split L p1 CHR '','' | _ \<Rightarrow> [])
          in Inr (False, on_join L msg channels keys st))
       else Inr (True, st))"

text \<open>
  \<open>read(msg)\<close>: a command that \<open>stoi\<close> reads as a number is a reply, one it rejects as no
  number is a message. The handler catches \<open>std::invalid_argument\<close> only. The number is cast to the
  enumeration; for one above all its bits C++11, which the program is built as, leaves the value
  unspecified, and the compilers keep the number, as the model does. No handler has a case for it.
\<close>

definition print_raw :: "message \<Rightarrow> bool \<times> 'a irc_client_scheme \<Rightarrow> 'a irc_client_scheme" where
  "print_raw msg r = (if fst r then print (''> '' @ m_raw msg @ [LF]) (snd r) else snd r)"

definition read_msg ::
  "boost_lib \<Rightarrow> 'a irc_client_scheme vtable \<Rightarrow> message \<Rightarrow> 'a irc_client_scheme \<Rightarrow> 'a irc_client_scheme result"
where
  "read_msg L vt msg st =
     (case stoi (command msg) of
        Inr code \<Rightarrow> Inr (print_raw msg (v_reply vt msg code st))
      | Inl Invalid_Argument \<Rightarrow>
          bind_result (irc_message L vt msg st) (\<lambda>r. Inr (print_raw msg r))
      | Inl f \<Rightarrow> Inl f)"

definition read_line ::
  "boost_lib \<Rightarrow> 'a irc_client_scheme vtable \<Rightarrow> string \<Rightarrow> 'a irc_client_scheme \<Rightarrow> 'a irc_client_scheme result"
where
  "read_line L vt line st =
     bind_result (message_ctor L line) (\<lambda>(msg, out). read_msg L vt msg (st\<lparr>cout := cout st @ out\<rparr>))"

text \<open>
  The loop of the read handler: take a line, handle it, go on while the buffer holds
  anything. It is a loop with no bound of its own, so it may not return; a fault leaves it.
\<close>

partial_function (option) drain ::
  "boost_lib \<Rightarrow> 'a irc_client_scheme vtable \<Rightarrow> string \<Rightarrow> istream \<Rightarrow> 'a irc_client_scheme \<Rightarrow> 'a irc_client_scheme result option"
where
  "drain L vt line stream st =
     (let r = getline stream line
      in case read_line L vt (fst r) st of
           Inl f \<Rightarrow> Some (Inl f)
         | Inr st' \<Rightarrow>
             if pending (snd r) \<noteq> [] then drain L vt (fst r) (snd r) st'
             else Some (Inr st'))"

text \<open>\<open>read()\<close> arms the next read; its handler gets the bytes that arrived.\<close>

definition start_read :: "'a irc_client_scheme \<Rightarrow> 'a irc_client_scheme" where
  "start_read st = st\<lparr>read_armed := True\<rparr>"

definition on_read ::
  "boost_lib \<Rightarrow> 'a irc_client_scheme vtable \<Rightarrow> bool \<Rightarrow> string \<Rightarrow> 'a irc_client_scheme \<Rightarrow> 'a irc_client_scheme result option"
where
  "on_read L vt ec bytes st =
     (let st0 = st\<lparr>read_armed := False, response := response st @ bytes\<rparr>
      in if \<not> ec
         then map_option (map_sum id (\<lambda>st'. start_read (st'\<lparr>response := []\<rparr>)))
                (drain L vt [] (istream_of (response st0)) st0)
         else Some (Inr (st0\<lparr>socket_open := False\<rparr>)))"

definition connected :: "boost_lib \<Rightarrow> 'a irc_client_scheme \<Rightarrow> 'a irc_client_scheme" where
  "connected L st = irc_nick L (m_nick st) (irc_pass L (m_pass st) st)"

definition on_connect :: "boost_lib \<Rightarrow> bool \<Rightarrow> 'a irc_client_scheme \<Rightarrow> 'a irc_client_scheme" where
  "on_connect L ec st = (if \<not> ec then connected L (start_read st) else st)"

definition irc_close :: "'a irc_client_scheme \<Rightarrow> 'a irc_client_scheme" where
  "irc_close st = st\<lparr>socket_open := False\<rparr>"

section \<open>What the commands put on the wire\<close>

text \<open>The protocol line of a command, if it sends one.\<close>

fun wire_line :: "irc_call \<Rightarrow> string option" where
  "wire_line (Pass password) = Some (''PASS '' @ password)"
| "wire_line (Nick nick) = Some (''NICK '' @ nick)"
| "wire_line (Quit quit_message) = Some (''QUIT '' @ quit_message)"
| "wire_line Join0 = Some ''JOIN 0''"
| "wire_line (Join_List channels keys) =
     Some (''JOIN '' @ join_with '','' channels @ '' '' @ join_with '','' keys)"
| "wire_line (Join channels keys) = Some (''JOIN '' @ channels @ '' '' @ keys)"
| "wire_line (Part_List channels part_message) =
     Some (''PART '' @ join_with '','' channels @ '' '' @ part_message)"
| "wire_line (Part channels part_message) = Some (''PART '' @ channels @ '' '' @ part_message)"
| "wire_line (Privmsg msgtarget text_to_be_sent) = Some (''PRIVMSG '' @ msgtarget @ '' :'' @ text_to_be_sent)"
| "wire_line (Ping server server2) = Some (''PING '' @ server @ '' '' @ server2)"
| "wire_line (Pong server server2) = Some (''PONG '' @ server @ '' '' @ server2)"
| "wire_line _ = None"

fun call_args :: "irc_call \<Rightarrow> string list" where
  "call_args (Pass password) = [password]"
| "call_args (Nick nick) = [nick]"
| "call_args (Quit quit_message) = [quit_message]"
| "call_args (Join_List channels keys) = channels @ keys"
| "call_args (Join channels keys) = [channels, keys]"
| "call_args (Part_List channels part_message) = channels @ [part_message]"
| "call_args (Part channels part_message) = [channels, part_message]"
| "call_args (Privmsg msgtarget text_to_be_sent) = [msgtarget, text_to_be_sent]"
| "call_args (Ping server server2) = [server, server2]"
| "call_args (Pong server server2) = [server, server2]"
| "call_args _ = []"

lemma send_raw_wire [wire]:
  "outbox (send_raw l st) = outbox st @ [l @ CRLF]"
  "in_flight (send_raw l st) = in_flight st @ [l @ CRLF]"
  by (simp_all add: send_raw_def)

lemma send_raw_frame [frames]:
  "m_nick (send_raw l st) = m_nick st" "m_pass (send_raw l st) = m_pass st"
  "socket_open (send_raw l st) = socket_open st" "read_armed (send_raw l st) = read_armed st"
  "response (send_raw l st) = response st" "cout (send_raw l st) = cout st"
  by (simp_all add: send_raw_def)

lemma print_frame [frames]:
  "outbox (print l st) = outbox st" "in_flight (print l st) = in_flight st"
  "socket_open (print l st) = socket_open st" "cout (print l st) = cout st @ [l]"
  by (simp_all add: print_def)

lemma join_with_notin: "c \<notin> set sep \<Longrightarrow> \<forall>p \<in> set ps. c \<notin> set p \<Longrightarrow> c \<notin> set (join_with sep ps)"
  by (induction ps rule: induct_list012) auto

lemma wire_line_notin:
  "wire_line c = Some l \<Longrightarrow> x = CR \<or> x = LF \<Longrightarrow> \<forall>a \<in> set (call_args c). x \<notin> set a \<Longrightarrow> x \<notin> set l"
  by (induction c rule: wire_line.induct) (auto simp: join_with_notin)

lemma CR_LF_distinct [simp]: "x = CR \<or> x = LF \<Longrightarrow> x \<noteq> SP \<and> x \<noteq> CHR '':''"
  by auto

context boost
begin

lemma send_eq: "send L cmd vec st = send_raw (cmd @ '' '' @ join_with '' '' vec) st"
  by (simp add: send_def format_two join_eq)

lemmas command_defs =
  irc_pass_def irc_nick_def irc_quit_def irc_join0_def irc_join_def irc_join_list_def
  irc_part_def irc_part_list_def irc_privmsg_def irc_ping_def irc_pong_def

lemma perform_eq: "irc_perform L c st = (case wire_line c of None \<Rightarrow> st | Some l \<Rightarrow> send_raw l st)"
  by (cases c) (simp_all add: command_defs send_eq join_eq)

lemma connected_eq:
  "connected L st = send_raw (''NICK '' @ m_nick st) (send_raw (''PASS '' @ m_pass st) st)"
  by (simp add: connected_def command_defs send_eq)

end

section \<open>When handling a line goes wrong\<close>

lemma stoi_letter: "c = CHR ''P'' \<or> c = CHR ''J'' \<Longrightarrow> stoi (c # cs) = Inl Invalid_Argument"
  by (rule stoi_no_digit) (auto simp: is_space_def is_digit_def)

lemma stoi_faults: "stoi s = Inl f \<Longrightarrow> f = Invalid_Argument \<or> f = Out_Of_Range"
  by (auto simp: stoi_def Let_def split: prod.splits if_splits)

lemma irc_message_fault:
  "irc_message L vt m st = Inl f \<longleftrightarrow>
     f = Undefined_Behaviour \<and> take 2 (command m) = ''PR'' \<and> length (params m) < 2"
proof -
  consider "command m = []" | c where "command m = [c]" | c d r where "command m = c # d # r"
    by (metis list.exhaust)
  then show ?thesis
  proof cases
    case 1
    then show ?thesis by (simp add: irc_message_def str_at_def)
  next
    case (2 c)
    then show ?thesis by (simp add: irc_message_def str_at_def Let_def)
  next
    case (3 c d r)
    then show ?thesis
      by (cases "params m"; cases "tl (params m)")
        (auto simp: irc_message_def str_at_def vec_at_def Let_def numeral_2_eq_2)
  qed
qed

lemma read_msg_fault:
  "read_msg L vt m st = Inl f \<longleftrightarrow>
     f = Out_Of_Range \<and> stoi (command m) = Inl Out_Of_Range
     \<or> f = Undefined_Behaviour \<and> take 2 (command m) = ''PR'' \<and> length (params m) < 2"
proof (cases "stoi (command m)")
  case (Inr code)
  have "take 2 (command m) \<noteq> ''PR''"
  proof
    assume "take 2 (command m) = ''PR''"
    then obtain r where "command m = CHR ''P'' # r" by (cases "command m") auto
    with Inr show False by (simp add: stoi_letter)
  qed
  with Inr show ?thesis by (simp add: read_msg_def)
next
  case (Inl e)
  with stoi_faults have "e = Invalid_Argument \<or> e = Out_Of_Range" by blast
  moreover have "stoi (command m) = Inl Invalid_Argument" if "take 2 (command m) = ''PR''"
    using that by (cases "command m") (auto simp: stoi_letter)
  ultimately show ?thesis
    using Inl irc_message_fault[of L vt m st f]
    by (cases "irc_message L vt m st") (auto simp: read_msg_def)
qed

section \<open>The read loop\<close>

text \<open>
  The lines of a buffer: the pieces between newlines, an empty rest after the last newline
  not counted. Text after the last newline is a piece of its own.
\<close>

definition lines_of :: "string \<Rightarrow> string list" where
  "lines_of b = (let ps = split_on LF b in if 1 < length ps \<and> last ps = [] then butlast ps else ps)"

fun read_lines ::
  "boost_lib \<Rightarrow> 'a irc_client_scheme vtable \<Rightarrow> string list \<Rightarrow> 'a irc_client_scheme \<Rightarrow> 'a irc_client_scheme result"
where
  "read_lines L vt [] st = Inr st"
| "read_lines L vt (l # ls) st = bind_result (read_line L vt l st) (read_lines L vt ls)"

lemma lines_of_last: "LF \<notin> set w \<Longrightarrow> lines_of w = [w]"
  by (simp add: lines_of_def split_on_notin)

lemma lines_of_line: "LF \<notin> set w \<Longrightarrow> lines_of (w @ LF # r) = (if r = [] then [w] else w # lines_of r)"
proof -
  assume w: "LF \<notin> set w"
  show ?thesis
  proof (cases "r = []")
    case False
    have "split_on LF r \<noteq> [[]]" using False join_split_on[of LF r] by (auto simp del: join_split_on)
    with w False show ?thesis
      by (cases "split_on LF r") (auto simp: lines_of_def split_on_append Let_def)
  qed (use w in \<open>simp add: lines_of_def split_on_append\<close>)
qed

lemma drain_lines: "drain L vt line (istream_of b) st = Some (read_lines L vt (lines_of b) st)"
proof (induction "length b" arbitrary: b line st rule: less_induct)
  case less
  show ?case
  proof (cases "LF \<in> set b")
    case False
    then show ?thesis
      by (cases "read_line L vt b st") (simp_all add: drain.simps[of L vt line] getline_last lines_of_last)
  next
    case True
    then obtain w r where b: "b = w @ LF # r" and w: "LF \<notin> set w" by (rule split_at_first)
    have IH: "drain L vt w (istream_of r) st' = Some (read_lines L vt (lines_of r) st')" for st'
      by (rule less) (simp add: b)
    show ?thesis
      using w by (cases "read_line L vt w st") (simp_all add: drain.simps[of L vt line] b lines_of_line IH)
  qed
qed

lemma on_read_ok:
  "on_read L vt False bytes st =
     Some (map_sum id (\<lambda>st'. start_read (st'\<lparr>response := []\<rparr>))
       (read_lines L vt (lines_of (response st @ bytes)) (st\<lparr>read_armed := False, response := response st @ bytes\<rparr>)))"
  by (simp add: on_read_def drain_lines Let_def)

lemma lines_of_partial:
  "LF \<notin> set w \<Longrightarrow> w \<noteq> [] \<Longrightarrow> lines_of (b @ LF # w) = lines_of (b @ [LF]) @ [w]"
proof (induction "length b" arbitrary: b rule: less_induct)
  case less
  show ?case
  proof (cases "LF \<in> set b")
    case False
    with less.prems show ?thesis by (simp add: lines_of_line lines_of_last)
  next
    case True
    then obtain u r where b: "b = u @ LF # r" and u: "LF \<notin> set u" by (rule split_at_first)
    with less show ?thesis by (simp add: lines_of_line)
  qed
qed
section \<open>Properties\<close>

text \<open>C40: A command whose body the source fills in writes exactly the protocol line of its arguments,
  ended by CRLF; those with an empty body write nothing and change nothing. The line holds no CR and no LF if the arguments
  hold none, so one call is one line of the protocol; nothing else of the state changes.\<close>

theorem irc_perform_line:
  assumes "boost_contract L" and "\<forall>a \<in> set (call_args c). CR \<notin> set a \<and> LF \<notin> set a"
  shows "case wire_line c of
      None \<Rightarrow> irc_perform L c st = st
    | Some l \<Rightarrow> CR \<notin> set l \<and> LF \<notin> set l
        \<and> irc_perform L c st = st\<lparr>outbox := outbox st @ [l @ CRLF], in_flight := in_flight st @ [l @ CRLF]\<rparr>"
  using boost.perform_eq[OF boost.intro[OF assms(1)], of c st] assms(2) wire_line_notin[of c]
  by (auto simp: send_raw_def split: option.splits)

theorem irc_perform_line_witness:
  "outbox (irc_perform ref_boost (Privmsg ''#c'' ''hi'') (irc_client_ctor ''n'' ''p''))
     = [''PRIVMSG #c :hi'' @ CRLF]"
  using irc_perform_line[OF ref_boost_contract, of "Privmsg ''#c'' ''hi''" "irc_client_ctor ''n'' ''p''"]
  by (simp add: irc_client_ctor_def)

text \<open>A successful connect arms the reader and sends PASS, then NICK. The second write is
  started while the first is under way: after the handler both are in flight. After a failed
  connect nothing is sent and nothing is read.\<close>

theorem on_connect_sequence:
  assumes "boost_contract L"
  shows "outbox (on_connect L False (irc_client_ctor n p)) = [''PASS '' @ p @ CRLF, ''NICK '' @ n @ CRLF]
    \<and> in_flight (on_connect L False (irc_client_ctor n p)) = [''PASS '' @ p @ CRLF, ''NICK '' @ n @ CRLF]
    \<and> read_armed (on_connect L False (irc_client_ctor n p)) \<and> on_connect L True (irc_client_ctor n p) = irc_client_ctor n p"
  by (simp add: boost.connected_eq[OF boost.intro[OF assms]] on_connect_def irc_client_ctor_def
      start_read_def wire frames)

theorem on_connect_sequence_witness:
  "in_flight (on_connect ref_boost False (irc_client_ctor ''n'' ''p'')) = [''PASS p'' @ CRLF, ''NICK n'' @ CRLF]"
  using on_connect_sequence[OF ref_boost_contract, of "''n''" "''p''"] by simp

text \<open>C15: Handling a line fails in two cases and no others: the command is a number that does not
  fit an \<open>int\<close> (the exception \<open>std::out_of_range\<close> escapes the handler), or the command starts
  with PR and the line has fewer than two parameters (an out-of-bounds element access).\<close>

theorem read_line_faults:
  assumes "boost_contract L"
  shows "read_line L vt s st = Inl f \<longleftrightarrow>
    (\<exists>m out. message_ctor L s = Inr (m, out) \<and>
      (f = Out_Of_Range \<and> stoi (command m) = Inl Out_Of_Range
       \<or> f = Undefined_Behaviour \<and> take 2 (command m) = ''PR'' \<and> length (params m) < 2))"
proof -
  obtain m out where "message_ctor L s = Inr (m, out)"
    using boost.ctor_shape[OF boost.intro[OF assms]] by blast
  then show ?thesis by (simp add: read_line_def read_msg_fault)
qed

theorem read_line_faults_witness:
  "read_line ref_boost base_vt ''PRIVMSG :hi'' (irc_client_ctor ''n'' ''p'') = Inl Undefined_Behaviour
   \<and> read_line ref_boost base_vt ''99999999999'' (irc_client_ctor ''n'' ''p'') = Inl Out_Of_Range"
proof -
  let ?lp = "\<lambda>c t. \<lparr>lp_tags = None, lp_prefix = None, lp_command = c, lp_middle = [], lp_trailing = t\<rparr>"
  have "line_parts_ok (?lp ''PRIVMSG'' (Some ''hi''))" "line_parts_ok (?lp ''99999999999'' None)"
    by (simp_all add: line_parts_ok_def prefix_ok_def)
  note r = this[THEN ref.ctor_render]
  have "\<exists>m out. message_ctor ref_boost ''PRIVMSG :hi'' = Inr (m, out) \<and> command m = ''PRIVMSG'' \<and> params m = [''hi'']"
    using r(1) by (auto simp: render_line_def render_tags_def render_prefix_def render_middle_def render_trailing_def)
  moreover have "\<exists>m out. message_ctor ref_boost ''99999999999'' = Inr (m, out) \<and> command m = ''99999999999''"
    using r(2) by (auto simp: render_line_def render_tags_def render_prefix_def render_middle_def render_trailing_def)
  moreover have "stoi ''99999999999'' = Inl Out_Of_Range"
    by (simp add: stoi_def scan_number_def is_digit_def is_space_def digit_val_def)
  ultimately show ?thesis
    unfolding read_line_faults[OF ref_boost_contract] by fastforce
qed

text \<open>The read loop returns for every buffer, and it handles exactly the buffer's lines, in
  order, stopping at the first fault. The text after the last newline is handled as a line.\<close>

theorem drain_total:
  "drain L vt line (istream_of b) st = Some (read_lines L vt (lines_of b) st)"
  by (rule drain_lines)

text \<open>C27: When a read completes with complete lines and the beginning of a further one, that
  beginning is handled as a line of its own and the buffer is left empty, so the rest of the
  line, when it arrives, is handled as another line.\<close>

theorem on_read_partial_line:
  assumes "LF \<notin> set w" and "w \<noteq> []" and "response st = []"
  shows "on_read L vt False (full @ LF # w) st =
     Some (map_sum id (\<lambda>st'. start_read (st'\<lparr>response := []\<rparr>))
       (read_lines L vt (lines_of (full @ [LF]) @ [w]) (st\<lparr>read_armed := False, response := full @ LF # w\<rparr>)))"
  using assms by (simp add: on_read_ok lines_of_partial)

theorem on_read_partial_line_witness:
  "on_read ref_boost base_vt False ([CHR ''x'', CR, LF] @ ''PIN'') (irc_client_ctor ''n'' ''p'')
     = Some (map_sum id (\<lambda>st'. start_read (st'\<lparr>response := []\<rparr>))
         (read_lines ref_boost base_vt [[CHR ''x'', CR], ''PIN'']
           (irc_client_ctor ''n'' ''p''\<lparr>response := [CHR ''x'', CR, LF] @ ''PIN''\<rparr>)))"
proof -
  have "lines_of ([CHR ''x'', CR] @ [LF]) = [[CHR ''x'', CR]]" by code_simp
  then show ?thesis
    using on_read_partial_line[of "''PIN''" "irc_client_ctor ''n'' ''p''" ref_boost base_vt "[CHR ''x'', CR]"]
    by (simp add: irc_client_ctor_def)
qed

text \<open>C26: A PING that a server sends as \<^verbatim>\<open>PING :text\<close>, ended by CRLF, is answered by one PONG. The
  carriage return is kept in the parameter, so the answer is the text, a CR, a space and CRLF.\<close>

theorem ping_answered:
  assumes "boost_contract L" and "LF \<notin> set t" and "response st = []"
  shows "\<exists>st'. on_read L vt False (''PING :'' @ t @ CRLF) st = Some (Inr st')
    \<and> outbox st' = outbox st @ [''PONG '' @ t @ [CR, SP] @ CRLF] \<and> read_armed st'"
proof -
  note b = boost.intro[OF assms(1)]
  let ?lp = "\<lparr>lp_tags = None, lp_prefix = None, lp_command = ''PING'', lp_middle = [], lp_trailing = Some (t @ [CR])\<rparr>"
  have "line_parts_ok ?lp" by (simp add: line_parts_ok_def prefix_ok_def)
  from boost.ctor_render[OF b this] obtain m out where
    m: "message_ctor L (''PING :'' @ t @ [CR]) = Inr (m, out)" "command m = ''PING''" "params m = [t @ [CR]]"
    by (auto simp: render_line_def render_tags_def render_prefix_def render_middle_def render_trailing_def)
  have lines: "lines_of (''PING :'' @ t @ CRLF) = [''PING :'' @ t @ [CR]]"
    using lines_of_line[of "''PING :'' @ t @ [CR]" "[]"] assms(2) by (simp add: CRLF_def)
  have "read_line L vt (''PING :'' @ t @ [CR]) s0 = Inr (send_raw (''PONG '' @ t @ [CR] @ '' '') (s0\<lparr>cout := cout s0 @ out\<rparr>))" for s0
    using m by (simp add: read_line_def read_msg_def stoi_letter irc_message_def str_at_def print_raw_def
        on_ping_def irc_pong_def boost.send_eq[OF b])
  then show ?thesis
    using assms(3) lines by (simp add: on_read_ok start_read_def wire)
qed

theorem ping_answered_witness:
  "\<exists>st'. on_read ref_boost base_vt False (''PING :tmi'' @ CRLF) (irc_client_ctor ''n'' ''p'') = Some (Inr st')
    \<and> outbox st' = [''PONG tmi'' @ [CR, SP, CR, LF]]"
  using ping_answered[OF ref_boost_contract, of "''tmi''" "irc_client_ctor ''n'' ''p''" base_vt]
  by (auto simp: irc_client_ctor_def CRLF_def)
end
