(* ===== verification/Http_Headers.thy ===== *)
theory Http_Headers
  imports Boost_Api Cpp_String
begin

text \<open>
  The header lines of an HTTP request, which \<^verbatim>\<open>parse_request\<close> of
  \<^verbatim>\<open>web_server/server_http.hpp\<close> and \<^verbatim>\<open>parse_handshake\<close> of
  \<^verbatim>\<open>web_socket_server/server_ws.hpp\<close> read with the same loop, and the two containers they
  keep them in. When the loop ends, and what it has stored then, is proved once here.
\<close>

section \<open>The loop\<close>

definition COLON :: char where "COLON = CHR '':''"

text \<open>The body of the loop: one header line is inserted.\<close>

definition insert_header :: "(string \<times> string \<Rightarrow> 'h \<Rightarrow> 'h) \<Rightarrow> string \<Rightarrow> nat \<Rightarrow> 'h \<Rightarrow> 'h result" where
  "insert_header ins line param_end header =
     (let value_start = param_end + 1 in
      if value_start < length line then
        let value_start = (if line ! value_start = SP then value_start + 1 else value_start) in
        if value_start < length line then
          bind_result (str_substr line 0 param_end) (\<lambda>key.
          bind_result (str_substr line value_start (sz_sub (sz_sub (length line) value_start) 1)) (\<lambda>val.
            Inr (ins (key, val) header)))
        else Inr header
      else Inr header)"

text \<open>
  The loop runs as long as the current line has a colon. \<open>None\<close> is a loop that never ends.
\<close>

partial_function (option) header_loop ::
  "(string \<times> string \<Rightarrow> 'h \<Rightarrow> 'h) \<Rightarrow> string \<Rightarrow> istream \<Rightarrow> 'h \<Rightarrow> ('h \<times> istream) result option" where
  "header_loop ins line stream header =
     (case str_find line COLON 0 of
        None \<Rightarrow> Some (Inr (header, stream))
      | Some param_end \<Rightarrow>
          (case insert_header ins line param_end header of
             Inl f \<Rightarrow> Some (Inl f)
           | Inr header' \<Rightarrow>
               (let (line', stream') = getline stream line in header_loop ins line' stream' header')))"

section \<open>What a line contributes\<close>

text \<open>A key is what stands before the first colon; of the value, one leading blank and the last
  character, the carriage return, are dropped.\<close>

definition header_of :: "string \<Rightarrow> (string \<times> string) option" where
  "header_of line =
     (case dropWhile (\<lambda>c. c \<noteq> COLON) line of
        [] \<Rightarrow> None
      | _ # v \<Rightarrow>
          (let v' = (if v \<noteq> [] \<and> hd v = SP then tl v else v)
           in if v' = [] then None else Some (takeWhile (\<lambda>c. c \<noteq> COLON) line, butlast v')))"

definition add_header :: "(string \<times> string \<Rightarrow> 'h \<Rightarrow> 'h) \<Rightarrow> string \<Rightarrow> 'h \<Rightarrow> 'h" where
  "add_header ins line header = (case header_of line of None \<Rightarrow> header | Some kv \<Rightarrow> ins kv header)"

lemma line_at_colon:
  assumes "str_find line COLON 0 = Some n"
  obtains k v where "line = k @ COLON # v" "COLON \<notin> set k" "length k = n"
proof -
  from assms have "index_of COLON line = Some n" by simp
  from index_of_Some[OF this] have "line = take n line @ COLON # drop (Suc n) line"
      "COLON \<notin> set (take n line)" "length (take n line) = n"
    using id_take_nth_drop[of n line] by auto
  then show ?thesis by (rule that)
qed

lemma insert_header_of:
  assumes "COLON \<notin> set k" and "length v < size_max"
  shows "insert_header ins (k @ COLON # v) (length k) header = Inr (add_header ins (k @ COLON # v) header)"
proof -
  have "\<forall>c \<in> set k. c \<noteq> COLON" using assms(1) by auto
  then have of: "header_of (k @ COLON # v) = (let v' = (if v \<noteq> [] \<and> hd v = SP then tl v else v)
       in if v' = [] then None else Some (k, butlast v'))"
    unfolding header_of_def by (simp only: takeWhile_stop dropWhile_stop list.case not_True_eq_False simp_thms)
  have sub: "str_substr (k @ COLON # v) (length k + 1 + i) (sz_sub (sz_sub (length k + 1 + length v) (length k + 1 + i)) 1)
      = Inr (butlast (drop i v))" if "i < length v" for i
  proof -
    have "sz_sub (length k + 1 + length v) (length k + 1 + i) = length v - i"
    proof (cases "length k + 1 + length v < size_max")
      case True
      with that show ?thesis by simp
    next
      case False
      have "sz_sub (length k + 1 + length v) (length k + 1 + i) = (size_max + (length v - i)) mod size_max"
        using that by (simp add: sz_sub_def)
      with assms(2) show ?thesis by simp
    qed
    then have "sz_sub (sz_sub (length k + 1 + length v) (length k + 1 + i)) 1 = length v - i - 1"
      using that assms(2) by simp
    then show ?thesis using that by (simp add: str_substr_def butlast_conv_take min_def)
  qed
  show ?thesis
  proof (cases v)
    case Nil
    with of show ?thesis by (simp add: insert_header_def add_header_def)
  next
    case (Cons c v')
    show ?thesis
    proof (cases "c = SP")
      case True
      then show ?thesis
        using Cons of sub[of 1] by (cases v') (simp_all add: insert_header_def add_header_def nth_append)
    next
      case False
      then show ?thesis
        using Cons of sub[of 0] by (simp add: insert_header_def add_header_def nth_append)
    qed
  qed
qed

section \<open>When the loop ends\<close>

lemma header_loop_stop: "COLON \<notin> set line \<Longrightarrow> header_loop ins line stream header = Some (Inr (header, stream))"
  by (subst header_loop.simps) (simp add: index_of_None[THEN iffD2])

lemma header_loop_step:
  assumes "COLON \<in> set line" and "length line < size_max"
  shows "header_loop ins line stream header =
    (let (line', stream') = getline stream line in header_loop ins line' stream' (add_header ins line header))"
proof -
  from assms(1) obtain n where n: "str_find line COLON 0 = Some n" by (cases "index_of COLON line") auto
  then obtain k v where line: "line = k @ COLON # v" "COLON \<notin> set k" "length k = n" by (rule line_at_colon)
  with assms(2) have "length v < size_max" by simp
  then have "insert_header ins line n header = Inr (add_header ins line header)"
    using line insert_header_of[of k v] by simp
  with n show ?thesis by (subst header_loop.simps) simp
qed

text \<open>On a stream that is no longer good \<open>getline\<close> leaves the line as it was: a line with a colon
  is then read for ever.\<close>

lemma header_loop_stuck:
  assumes "\<not> stream_good stream" "COLON \<in> set line" "length line < size_max"
  shows "header_loop ins line stream header = None"
proof -
  let ?stuck = "\<lambda>ins line stream header r.
    \<not> (\<not> stream_good stream \<and> COLON \<in> set line \<and> length line < size_max)"
  have "?stuck ins line stream header r" if "header_loop ins line stream header = Some r" for r
  proof (rule header_loop.raw_induct[where P = ?stuck, OF _ that])
    fix loop and ins :: "string \<times> string \<Rightarrow> 'a \<Rightarrow> 'a" and line stream header r
    assume IH: "\<And>ins line stream header r. loop ins line stream header = Some r \<Longrightarrow> ?stuck ins line stream header r"
      and eq: "(case str_find line COLON 0 of None \<Rightarrow> Some (Inr (header, stream))
        | Some param_end \<Rightarrow>
            (case insert_header ins line param_end header of Inl f \<Rightarrow> Some (Inl f)
             | Inr header' \<Rightarrow> let (line', stream') = getline stream line in loop ins line' stream' header')) = Some r"
    show "?stuck ins line stream header r"
    proof
      assume a: "\<not> stream_good stream \<and> COLON \<in> set line \<and> length line < size_max"
      then obtain n where n: "index_of COLON line = Some n" by (cases "index_of COLON line") auto
      then have "str_find line COLON 0 = Some n" by simp
      then obtain k v where line: "line = k @ COLON # v" "COLON \<notin> set k" "length k = n" by (rule line_at_colon)
      with a have "insert_header ins line n header = Inr (add_header ins line header)"
        using insert_header_of[of k v] by simp
      with eq n a have "loop ins line (stream\<lparr>failbit := True\<rparr>) (add_header ins line header) = Some r"
        by simp
      from IH[OF this] a show False by (simp add: stream_good_def)
    qed
  qed
  with assms show ?thesis by (cases "header_loop ins line stream header") auto
qed

lemma header_loop_last:
  "\<not> stream_good stream \<Longrightarrow> length line < size_max \<Longrightarrow>
   header_loop ins line stream header = (if COLON \<in> set line then None else Some (Inr (header, stream)))"
  by (simp add: header_loop_stuck header_loop_stop)

text \<open>The lines of a text, the last one without its line feed.\<close>

definition text_lines :: "string \<Rightarrow> string list" where
  "text_lines s = split_on LF s"

lemma text_lines_Cons [simp]: "LF \<notin> set w \<Longrightarrow> text_lines (w @ LF # r) = w # text_lines r"
  by (simp add: text_lines_def split_on_append)

lemma text_lines_last: "LF \<notin> set w \<Longrightarrow> text_lines w = [w]"
  by (simp add: text_lines_def split_on_notin)

lemma text_lines_append: "text_lines (a @ LF # b) = text_lines a @ text_lines b"
proof (induction a)
  case Nil
  then show ?case using text_lines_Cons[of "[]" b] by (simp add: text_lines_def)
next
  case (Cons x a)
  then show ?case by (auto simp: text_lines_def split: list.splits)
qed

text \<open>The loop ends exactly when some line, the current one included, has no colon.\<close>

lemma header_loop_terminates:
  assumes "length line < size_max" and "length s < size_max"
  shows "(\<exists>r. header_loop ins line (istream_of s) header = Some r)
    \<longleftrightarrow> COLON \<notin> set line \<or> (\<exists>l \<in> set (text_lines s). COLON \<notin> set l)"
  using assms
proof (induction "length s" arbitrary: s line header rule: less_induct)
  case less
  show ?case
  proof (cases "COLON \<in> set line")
    case False
    then show ?thesis by (simp add: header_loop_stop)
  next
    case colon: True
    note step = header_loop_step[OF colon less.prems(1), of ins "istream_of s" header]
    show ?thesis
    proof (cases "LF \<in> set s")
      case True
      then obtain w r where s: "s = w @ LF # r" "LF \<notin> set w" by (rule split_at_first)
      then have "header_loop ins line (istream_of s) header
          = header_loop ins w (istream_of r) (add_header ins line header)"
        using step by simp
      with less.hyps[of r w "add_header ins line header"] less.prems s colon show ?thesis by simp
    next
      case False
      let ?st = "\<lparr>pending = [], eofbit = True, failbit = (s = [])\<rparr>"
      have "header_loop ins line (istream_of s) header = header_loop ins s ?st (add_header ins line header)"
        using step False by (simp add: getline_last)
      moreover have "\<not> stream_good ?st" by (simp add: stream_good_def)
      ultimately show ?thesis
        using less.prems colon False by (simp add: header_loop_last text_lines_last)
    qed
  qed
qed

text \<open>It never throws.\<close>

lemma header_loop_safe:
  assumes "header_loop ins line (istream_of s) header = Some r" "length line < size_max" "length s < size_max"
  shows "returns r"
  using assms
proof (induction "length s" arbitrary: s line header rule: less_induct)
  case less
  show ?case
  proof (cases "COLON \<in> set line")
    case False
    with less.prems show ?thesis by (auto simp: header_loop_stop)
  next
    case colon: True
    note step = header_loop_step[OF colon less.prems(2), of ins "istream_of s" header]
    show ?thesis
    proof (cases "LF \<in> set s")
      case True
      then obtain w r' where s: "s = w @ LF # r'" "LF \<notin> set w" by (rule split_at_first)
      with less.prems step have "header_loop ins w (istream_of r') (add_header ins line header) = Some r"
        by simp
      with less.hyps[of r' w "add_header ins line header"] less.prems s show ?thesis by simp
    next
      case False
      let ?st = "\<lparr>pending = [], eofbit = True, failbit = (s = [])\<rparr>"
      have "header_loop ins s ?st (add_header ins line header) = Some r"
        using step False less.prems(1) by (simp add: getline_last)
      moreover have "\<not> stream_good ?st" by (simp add: stream_good_def)
      ultimately show ?thesis
        using less.prems by (auto simp: header_loop_last split: if_splits)
    qed
  qed
qed


section \<open>Header lines as they are sent\<close>

definition header_line :: "string \<times> string \<Rightarrow> string" where
  "header_line h = fst h @ COLON # SP # snd h @ [CR]"

definition header_lines :: "(string \<times> string) list \<Rightarrow> string" where
  "header_lines hs = concat (map (\<lambda>h. header_line h @ [LF]) hs)"

definition header_valid :: "string \<times> string \<Rightarrow> bool" where
  "header_valid h \<longleftrightarrow> COLON \<notin> set (fst h) \<and> LF \<notin> set (fst h) \<and> LF \<notin> set (snd h)"

lemma header_line_simps [simp]:
  assumes "header_valid h"
  shows "header_of (header_line h) = Some h" "LF \<notin> set (header_line h)" "COLON \<in> set (header_line h)"
proof -
  have "\<forall>c \<in> set (fst h). c \<noteq> COLON" using assms by (auto simp: header_valid_def)
  then show "header_of (header_line h) = Some h" by (simp add: header_of_def header_line_def butlast_append)
  show "LF \<notin> set (header_line h)" "COLON \<in> set (header_line h)"
    using assms by (auto simp: header_valid_def header_line_def COLON_def)
qed

text \<open>The first line of the block is read before the loop starts.\<close>

definition read_headers ::
  "(string \<times> string \<Rightarrow> 'h \<Rightarrow> 'h) \<Rightarrow> istream \<Rightarrow> string \<Rightarrow> 'h \<Rightarrow> ('h \<times> istream) result option" where
  "read_headers ins stream line header =
     (let (line', stream') = getline stream line in header_loop ins line' stream' header)"

lemma read_headers_until:
  "list_all header_valid hs \<Longrightarrow> LF \<notin> set w \<Longrightarrow> COLON \<notin> set w \<Longrightarrow>
   length (header_lines hs) < size_max \<Longrightarrow>
   read_headers ins (istream_of (header_lines hs @ w @ LF # body)) line header
     = Some (Inr (fold ins hs header, istream_of body))"
proof (induction hs arbitrary: line header)
  case Nil
  then show ?case by (simp add: read_headers_def header_lines_def header_loop_stop)
next
  case (Cons h hs)
  have "read_headers ins (istream_of (header_lines (h # hs) @ w @ LF # body)) line header
      = header_loop ins (header_line h) (istream_of (header_lines hs @ w @ LF # body)) header"
    using Cons.prems by (simp add: read_headers_def header_lines_def)
  also have "\<dots> = read_headers ins (istream_of (header_lines hs @ w @ LF # body)) (header_line h)
      (add_header ins (header_line h) header)"
    using Cons.prems
    by (subst header_loop_step) (simp_all add: read_headers_def header_lines_def)
  also have "add_header ins (header_line h) header = ins h header"
    using Cons.prems by (simp add: add_header_def)
  finally show ?case using Cons by (simp add: header_lines_def)
qed

lemma read_headers_terminates:
  assumes "length s < size_max"
  shows "(\<exists>r. read_headers ins (istream_of s) line header = Some r) \<longleftrightarrow> (\<exists>l \<in> set (text_lines s). COLON \<notin> set l)"
proof (cases "LF \<in> set s")
  case True
  then obtain w r where "s = w @ LF # r" "LF \<notin> set w" by (rule split_at_first)
  with assms show ?thesis by (simp add: read_headers_def header_loop_terminates)
next
  case False
  with assms show ?thesis
    by (simp add: read_headers_def getline_last text_lines_last header_loop_last stream_good_def)
qed

lemma read_headers_safe:
  assumes "length s < size_max" "read_headers ins (istream_of s) line header = Some r"
  shows "returns r"
proof (cases "LF \<in> set s")
  case True
  then obtain w t where "s = w @ LF # t" "LF \<notin> set w" by (rule split_at_first)
  with assms header_loop_safe[of ins w t header r] show ?thesis by (simp add: read_headers_def)
next
  case False
  with assms show ?thesis
    by (auto simp: read_headers_def getline_last header_loop_last stream_good_def split: if_splits)
qed

section \<open>The request both servers read\<close>

definition request_line :: "string \<Rightarrow> string \<Rightarrow> string \<Rightarrow> string" where
  "request_line method path version = method @ SP # path @ SP # ''HTTP/'' @ version @ [CR]"

definition word_ok :: "string \<Rightarrow> bool" where
  "word_ok w \<longleftrightarrow> SP \<notin> set w \<and> LF \<notin> set w"

definition request_text :: "string \<Rightarrow> string \<Rightarrow> string \<Rightarrow> (string \<times> string) list \<Rightarrow> string \<Rightarrow> string" where
  "request_text method path version hs body =
     request_line method path version @ LF # header_lines hs @ CR # LF # body"

lemma request_text_size:
  assumes "length (request_text method path version hs body) < size_max"
  shows "length method + length path + length version + 8 < size_max" "length (header_lines hs) < size_max"
  using assms by (simp_all add: request_text_def request_line_def)

text \<open>The positions the two parsers find in the request line, and the words between them.\<close>

lemma request_line_parts:
  assumes "word_ok method" "word_ok path" "length method + length path + length version + 8 < size_max"
  shows "str_find (request_line method path version) SP 0 = Some (length method)"
    "str_find (request_line method path version) SP (length method + 1) = Some (length method + 1 + length path)"
    "str_substr (request_line method path version) 0 (length method) = Inr method"
    "str_substr (request_line method path version) (length method + 1)
      (sz_sub (sz_sub (length method + 1 + length path) (length method)) 1) = Inr path"
proof -
  show "str_find (request_line method path version) SP 0 = Some (length method)"
    using assms by (simp add: request_line_def word_ok_def)
  show "str_find (request_line method path version) SP (length method + 1) = Some (length method + 1 + length path)"
    using str_find_after[of "length method + 1" "method @ [SP]" SP path "''HTTP/'' @ version @ [CR]"] assms
    by (simp add: request_line_def word_ok_def)
  show "str_substr (request_line method path version) 0 (length method) = Inr method"
    by (simp add: request_line_def)
  show "str_substr (request_line method path version) (length method + 1)
      (sz_sub (sz_sub (length method + 1 + length path) (length method)) 1) = Inr path"
    using assms(3) str_substr_mid[of "length method + 1" "method @ [SP]" "length path" path]
    by (simp add: request_line_def)
qed

lemma request_text_getline:
  assumes "word_ok method" "word_ok path" "LF \<notin> set version"
  shows "getline (istream_of (request_text method path version hs body)) line
    = (request_line method path version, istream_of (header_lines hs @ CR # LF # body))"
proof -
  have "LF \<notin> set (request_line method path version)" using assms by (auto simp: request_line_def word_ok_def)
  then show ?thesis by (simp add: request_text_def)
qed

lemma request_text_headers:
  assumes "list_all header_valid hs" "length (request_text method path version hs body) < size_max"
  shows "read_headers ins (istream_of (header_lines hs @ CR # LF # body)) line header
    = Some (Inr (fold ins hs header, istream_of body))"
  using read_headers_until[of hs "[CR]" ins body line header] assms(1) request_text_size(2)[OF assms(2)]
  by (simp add: COLON_def)

section \<open>The blank line\<close>

text \<open>What both servers read until: a blank line. It stops the loop.\<close>

definition has_blank_line :: "string \<Rightarrow> bool" where
  "has_blank_line s \<longleftrightarrow> (\<exists>a b. s = a @ CRLF @ CRLF @ b)"

lemma blank_line_stops:
  assumes "has_blank_line (w @ LF # s)" "LF \<notin> set w"
  shows "\<exists>l \<in> set (text_lines s). COLON \<notin> set l"
proof -
  obtain a b where ab: "w @ LF # s = a @ CRLF @ CRLF @ b" using assms(1) by (auto simp: has_blank_line_def)
  have "w # text_lines s = text_lines (a @ [CR]) @ [CR] # text_lines b"
  proof -
    have "w # text_lines s = text_lines (w @ LF # s)" using assms(2) by simp
    also have "w @ LF # s = (a @ [CR]) @ LF # ([CR] @ LF # b)" using ab by (simp add: CRLF_def)
    also have "text_lines \<dots> = text_lines (a @ [CR]) @ text_lines ([CR] @ LF # b)" by (rule text_lines_append)
    also have "text_lines ([CR] @ LF # b) = [CR] # text_lines b" by (rule text_lines_Cons) simp
    finally show ?thesis .
  qed
  moreover have "text_lines (a @ [CR]) \<noteq> []" by (simp add: text_lines_def)
  ultimately have "[CR] \<in> set (text_lines s)"
    by (cases "text_lines (a @ [CR])") auto
  then show ?thesis by (rule bexI[rotated]) (simp add: COLON_def)
qed

text \<open>After the first line of such a request the header loop returns.\<close>

lemma read_headers_returns:
  assumes "has_blank_line (w @ LF # r)" "length (w @ LF # r) < size_max" "LF \<notin> set w"
  shows "\<exists>h st. read_headers ins (istream_of r) line header = Some (Inr (h, st))"
proof -
  have len: "length r < size_max" using assms(2) by simp
  have "\<exists>l \<in> set (text_lines r). COLON \<notin> set l" using assms(1,3) by (rule blank_line_stops)
  then obtain x where x: "read_headers ins (istream_of r) line header = Some x"
    unfolding read_headers_terminates[OF len, symmetric, of ins line header] ..
  show ?thesis using x read_headers_safe[OF len x] by fastforce
qed

section \<open>The containers\<close>

text \<open>
  The interface of a header container: \<open>same\<close> says which keys the container identifies. Containers
  differ in which of several entries under one key a lookup finds, the first or the last.
\<close>

locale header_store =
  fixes ins :: "string \<times> string \<Rightarrow> 'h \<Rightarrow> 'h"
    and empty :: 'h
    and get :: "string \<Rightarrow> 'h \<Rightarrow> string option"
    and same :: "string \<Rightarrow> string \<Rightarrow> bool"
  assumes get_empty: "get k empty = None"
    and get_other: "\<not> same k k' \<Longrightarrow> get k (ins (k', v) h) = get k h"
begin

lemma get_absent: "\<forall>(k', v) \<in> set hs. \<not> same k k' \<Longrightarrow> get k (fold ins hs h) = get k h"
  by (induction hs arbitrary: h) (auto simp: get_other)

end

locale first_kept = header_store +
  assumes get_first: "same k k' \<Longrightarrow> get k (ins (k', v) h) = (case get k h of None \<Rightarrow> Some v | Some w \<Rightarrow> Some w)"
begin

lemma get_fold:
  "get k (fold ins hs h) =
   (case get k h of Some w \<Rightarrow> Some w | None \<Rightarrow> map_option snd (List.find (\<lambda>(k', v). same k k') hs))"
proof (induction hs arbitrary: h)
  case (Cons x hs)
  obtain k' v where x: "x = (k', v)" by (cases x)
  show ?case
    unfolding x by (cases "same k k'") (simp_all add: Cons.IH get_first get_other split: option.split)
qed (simp split: option.split)

lemma get_headers: "get k (fold ins hs empty) = map_option snd (List.find (\<lambda>(k', v). same k k') hs)"
  by (simp add: get_fold get_empty)

end

locale last_found = header_store +
  assumes get_last: "same k k' \<Longrightarrow> get k (ins (k', v) h) = Some v"
begin

lemma get_behind: "same k k' \<Longrightarrow> \<forall>(k', v) \<in> set hs. \<not> same k k' \<Longrightarrow> get k (fold ins ((k', v) # hs) h) = Some v"
  by (simp add: get_absent get_last)

end

text \<open>
  \<open>std::unordered_multimap\<close> under \<open>iequal_to\<close>: all entries are kept, in the model in the order of
  their insertion. The standard leaves open which of several equal keys \<open>find\<close> returns. libstdc++
  links a new entry in front of those with an equal key, so that iterating over equal keys goes
  from the last inserted to the first and \<open>find\<close> gives the last; the model does the same.
\<close>

definition multimap_insert :: "string \<times> string \<Rightarrow> (string \<times> string) list \<Rightarrow> (string \<times> string) list" where
  "multimap_insert kv h = h @ [kv]"

definition multimap_equal_range :: "boost_lib \<Rightarrow> string \<Rightarrow> (string \<times> string) list \<Rightarrow> string list" where
  "multimap_equal_range L key h = rev (map snd (filter (\<lambda>(k, v). bx_iequals L key k) h))"

definition multimap_find :: "boost_lib \<Rightarrow> string \<Rightarrow> (string \<times> string) list \<Rightarrow> string option" where
  "multimap_find L key h = map_option snd (List.find (\<lambda>(k, v). bx_iequals L key k) (rev h))"

text \<open>\<open>std::unordered_map\<close> under the plain equality of strings: the first entry of a key stays.\<close>

definition map_insert :: "string \<times> string \<Rightarrow> (string \<rightharpoonup> string) \<Rightarrow> (string \<rightharpoonup> string)" where
  "map_insert kv h = (if h (fst kv) = None then h(fst kv \<mapsto> snd kv) else h)"

interpretation request_headers: last_found multimap_insert "[]" "multimap_find L" "bx_iequals L" for L
  by unfold_locales (auto simp: multimap_find_def multimap_insert_def)

interpretation handshake_headers: first_kept map_insert Map.empty "\<lambda>k h. h k" "(=)"
  by unfold_locales (auto simp: map_insert_def split: option.splits)

lemma fold_multimap [simp]: "fold multimap_insert hs h = h @ hs"
  by (induction hs arbitrary: h) (simp_all add: multimap_insert_def)

text \<open>Of several entries under one name the last one received is found.\<close>

lemma multimap_find_last:
  assumes "bx_iequals L k k'" "\<forall>(a, b) \<in> set r. \<not> bx_iequals L k a"
  shows "multimap_find L k (h @ (k', v) # r) = Some v"
  using request_headers.get_behind[of L k k' r v h, OF assms] by (simp add: multimap_insert_def)

text \<open>\<open>find\<close> gives the entry iterating over the equal keys starts with.\<close>

lemma find_equal_range:
  "multimap_find L key h = (case multimap_equal_range L key h of [] \<Rightarrow> None | v # vs \<Rightarrow> Some v)"
proof -
  have "map_option snd (List.find P xs) = (case map snd (filter P xs) of [] \<Rightarrow> None | v # vs \<Rightarrow> Some v)"
    for P :: "string \<times> string \<Rightarrow> bool" and xs by (induction xs) simp_all
  then show ?thesis by (simp add: multimap_find_def multimap_equal_range_def rev_map rev_filter)
qed

section \<open>The hash of the request's headers\<close>

text \<open>
  \<open>std::tolower\<close> of the C locale on a \<open>char\<close>, which is signed: a byte from 128 on is passed as a
  negative number. The standard leaves those other than \<open>EOF\<close> undefined; the model follows the C
  library of the program's systems, whose table covers them and which gives them back.
\<close>

definition tolower :: "char \<Rightarrow> int" where
  "tolower c = (let n = of_char (lower c) :: int in if n < 128 then n else n - 256)"

text \<open>\<open>boost::hash_combine\<close> is a parameter, as a function of the seed and the value.\<close>

definition ihash :: "(nat \<Rightarrow> int \<Rightarrow> nat) \<Rightarrow> string \<Rightarrow> nat" where
  "ihash hash_combine key = foldl (\<lambda>seed c. hash_combine seed (tolower c)) 0 key"

text \<open>What a container of \<open>n\<close> buckets looks at for a key: only the entries of the key's bucket.\<close>

definition bucket :: "(string \<Rightarrow> nat) \<Rightarrow> nat \<Rightarrow> string \<Rightarrow> (string \<times> string) list \<Rightarrow> (string \<times> string) list" where
  "bucket hash_function n key h = filter (\<lambda>(k, v). hash_function k mod n = hash_function key mod n) h"

lemma upper_lower: "upper a = upper b \<Longrightarrow> lower a = lower b"
proof -
  have *: "lower (upper c) = lower c" for c
  proof (cases "97 \<le> (of_char c :: nat) \<and> (of_char c :: nat) \<le> 122")
    case True
    then have u: "upper c = char_of ((of_char c :: nat) - 32)" "lower c = c" by (simp_all add: upper_def lower_def)
    have "(of_char c - 32 :: nat) < 256" using True by linarith
    then have "(of_char c - 32 :: nat) mod 256 = of_char c - 32" by (rule mod_less)
    then have "(of_char (upper c) :: nat) = of_char c - 32" unfolding u by simp
    moreover have "65 \<le> (of_char c - 32 :: nat) \<and> (of_char c - 32 :: nat) \<le> 90" using True by linarith
    ultimately have "lower (upper c) = char_of ((of_char c - 32) + 32 :: nat)" unfolding lower_def by presburger
    with True u(2) show ?thesis by simp
  next
    case False
    then have "upper c = c" unfolding upper_def by (rule if_not_P)
    then show ?thesis by simp
  qed
  assume "upper a = upper b" then show ?thesis using *[of a] *[of b] by simp
qed

lemma map_upper_tolower: "map upper a = map upper b \<Longrightarrow> map tolower a = map tolower b"
proof (induction a arbitrary: b)
  case (Cons c a)
  then obtain d b' where b: "b = d # b'" "upper c = upper d" "map upper a = map upper b'" by (cases b) auto
  have "tolower c = tolower d" unfolding tolower_def upper_lower[OF b(2)] by (rule refl)
  with Cons.IH[OF b(3)] show ?case by (simp add: b(1))
qed simp

lemma ihash_iequals:
  assumes "map upper a = map upper b" shows "ihash hash_combine a = ihash hash_combine b"
proof -
  have "map tolower a = map tolower b"
    by (rule map_upper_tolower[OF assms])
  then have "foldl hash_combine 0 (map tolower a) = foldl hash_combine 0 (map tolower b)" by simp
  then show ?thesis by (simp add: ihash_def foldl_map)
qed

text \<open>C36: The hash of the request's headers fits their equality: names that differ in case only have the
  same hash, so that a lookup confined to the bucket of a name finds what a lookup in all the
  entries finds, all of them in their order, whatever \<open>hash_combine\<close> is and however many buckets there are.\<close>

theorem ihash_buckets:
  assumes "boost_contract L"
  shows "multimap_equal_range L key (bucket (ihash hash_combine) n key h) = multimap_equal_range L key h
    \<and> multimap_find L key (bucket (ihash hash_combine) n key h) = multimap_find L key h"
proof -
  have e: "ihash hash_combine k = ihash hash_combine key" if "bx_iequals L key k" for k
    using that ihash_iequals boost.iequals_eq[OF boost.intro[OF assms]] by metis
  have "filter (\<lambda>(k, v). bx_iequals L key k) (bucket (ihash hash_combine) n key h) = filter (\<lambda>(k, v). bx_iequals L key k) h"
    unfolding bucket_def filter_filter by (rule filter_cong) (auto dest: e)
  then have "multimap_equal_range L key (bucket (ihash hash_combine) n key h) = multimap_equal_range L key h"
    by (simp add: multimap_equal_range_def)
  then show ?thesis by (simp add: find_equal_range)
qed

theorem ihash_buckets_witness:
  "multimap_find ref_boost ''connection'' (bucket (ihash (\<lambda>s v. s * 31 + nat (v + 128))) 7 ''connection''
      [(''Host'', ''x''), (''Connection'', ''close'')]) = Some ''close''"
proof -
  have "multimap_find ref_boost ''connection'' [(''Host'', ''x''), (''Connection'', ''close'')] = Some ''close''"
    by code_simp
  then show ?thesis using ihash_buckets[OF ref_boost_contract] by simp
qed

end
