(* ===== verification/Crypto.thy ===== *)
theory Crypto
  imports Complex_Main Cpp_String "HOL-Library.Log_Nat"
begin

text \<open>
  \<^verbatim>\<open>crypto.hpp\<close>: Base64 and the digests. OpenSSL is a parameter: \<open>bio\<close> is what the Base64
  filter writes for an input, \<open>bio_read\<close> what it reads back, \<open>digest\<close> one of the hash
  functions. The repository's own part is the sizes of the buffers handed to OpenSSL.
\<close>

section \<open>Buffers\<close>

definition NUL :: char where "NUL = CHR 0x00"

text \<open>\<open>std::string::resize\<close>; the argument is an \<open>int\<close> converted to \<open>size_t\<close>.\<close>

definition str_resize :: "string \<Rightarrow> int \<Rightarrow> string result" where
  "str_resize s n =
     (if n < 0 then Inl Length_Error else Inr (take (nat n) s @ replicate (nat n - length s) NUL))"

text \<open>Writing into a buffer of fixed size: more than its capacity is undefined.\<close>

definition write_into :: "string \<Rightarrow> nat \<Rightarrow> string \<Rightarrow> string result" where
  "write_into buffer capacity out =
     (if capacity < length out then Inl Undefined_Behaviour
      else Inr (take (length buffer) out @ drop (length out) buffer))"

section \<open>Base64\<close>

text \<open>
  \<open>double\<close>: a number that is not negative is rounded to 53 binary digits, to the nearest and to the
  even one of two. \<open>ulp\<close> is the weight of the last digit.
\<close>

definition half_even :: "rat \<Rightarrow> int" where
  "half_even x = (let f = \<lfloor>x\<rfloor>; d = x - of_int f in if d < 1 / 2 \<or> d = 1 / 2 \<and> even f then f else f + 1)"

definition ulp :: "rat \<Rightarrow> rat" where
  "ulp x = (if 1 \<le> x then 2 ^ floorlog 2 (nat \<lfloor>x\<rfloor>) / 2 ^ 53 else 1 / 2 ^ (floorlog 2 (nat \<lfloor>1 / x\<rfloor>) + 52))"

definition to_double :: "rat \<Rightarrow> rat" where
  "to_double x = (if x = 0 then 0 else of_int (half_even (x / ulp x)) * ulp x)"

text \<open>
  The size, computed in \<open>double\<close> and cast to \<open>int\<close>: the cast of a value an \<open>int\<close> does not hold is
  undefined.
\<close>

definition base64_length :: "nat \<Rightarrow> int result" where
  "base64_length n =
     (let third = to_double (to_double (of_nat n) / 3);
          base64_length = round (to_double (4 * of_int \<lceil>third\<rceil>))
      in if base64_length < 2 ^ 31 then Inr base64_length else Inl Undefined_Behaviour)"

text \<open>
  The memory of the filter is the result string itself with room for one more character. The string
  is resized, so what the caller had in it is at first still there. The filter gets the size of the
  input as an \<open>int\<close>; it takes nothing when that is negative.
\<close>

definition base64_encode_into :: "(string \<Rightarrow> string) \<Rightarrow> string \<Rightarrow> string \<Rightarrow> string result" where
  "base64_encode_into bio ascii base64 =
     bind_result (base64_length (length ascii)) (\<lambda>base64_length.
     bind_result (str_resize base64 base64_length) (\<lambda>base64.
       write_into base64 (length base64 + 1) (bio (take (nat (signed_take_bit 31 (int (length ascii)))) ascii))))"

definition base64_encode :: "(string \<Rightarrow> string) \<Rightarrow> string \<Rightarrow> string result" where
  "base64_encode bio ascii = base64_encode_into bio ascii []"

text \<open>
  \<open>bio_read\<close> gets the text and the size of the buffer; it returns a count and what it wrote. This is
  for texts whose size an \<open>int\<close> holds; the program never decodes.
\<close>

definition base64_decode_into :: "(string \<Rightarrow> nat \<Rightarrow> int \<times> string) \<Rightarrow> string \<Rightarrow> string \<Rightarrow> string result" where
  "base64_decode_into bio_read base64 ascii =
     bind_result (str_resize ascii (6 * int (length base64) div 8)) (\<lambda>ascii.
       let (decoded_length, out) = bio_read base64 (length ascii)
       in bind_result (write_into ascii (length ascii) out) (\<lambda>ascii. str_resize ascii decoded_length))"

definition base64_decode :: "(string \<Rightarrow> nat \<Rightarrow> int \<times> string) \<Rightarrow> string \<Rightarrow> string result" where
  "base64_decode bio_read base64 = base64_decode_into bio_read base64 []"

section \<open>Digests\<close>

text \<open>Each has a form that fills a string given by the caller, and one that returns a new one.\<close>

definition digest_into :: "int \<Rightarrow> (string \<Rightarrow> string) \<Rightarrow> string \<Rightarrow> string \<Rightarrow> string result" where
  "digest_into bits digest input hash =
     bind_result (str_resize hash (bits div 8)) (\<lambda>hash. write_into hash (length hash) (digest input))"

definition MD5_into :: "(string \<Rightarrow> string) \<Rightarrow> string \<Rightarrow> string \<Rightarrow> string result" where
  "MD5_into digest input hash = digest_into 128 digest input hash"

definition crypto_MD5 :: "(string \<Rightarrow> string) \<Rightarrow> string \<Rightarrow> string result" where
  "crypto_MD5 digest input = MD5_into digest input []"

definition SHA1_into :: "(string \<Rightarrow> string) \<Rightarrow> string \<Rightarrow> string \<Rightarrow> string result" where
  "SHA1_into digest input hash = digest_into 160 digest input hash"

definition crypto_SHA1 :: "(string \<Rightarrow> string) \<Rightarrow> string \<Rightarrow> string result" where
  "crypto_SHA1 digest input = SHA1_into digest input []"

definition SHA256_into :: "(string \<Rightarrow> string) \<Rightarrow> string \<Rightarrow> string \<Rightarrow> string result" where
  "SHA256_into digest input hash = digest_into 256 digest input hash"

definition crypto_SHA256 :: "(string \<Rightarrow> string) \<Rightarrow> string \<Rightarrow> string result" where
  "crypto_SHA256 digest input = SHA256_into digest input []"

definition SHA512_into :: "(string \<Rightarrow> string) \<Rightarrow> string \<Rightarrow> string \<Rightarrow> string result" where
  "SHA512_into digest input hash = digest_into 512 digest input hash"

definition crypto_SHA512 :: "(string \<Rightarrow> string) \<Rightarrow> string \<Rightarrow> string result" where
  "crypto_SHA512 digest input = SHA512_into digest input []"

lemmas into_defs = MD5_into_def SHA1_into_def SHA256_into_def SHA512_into_def digest_into_def

section \<open>A Base64 filter\<close>

text \<open>
  What the sources rely on of the filter: four characters per group of three bytes begun, and
  different inputs give different outputs. \<open>b64\<close> is the encoding of RFC 4648, which satisfies it.
\<close>

definition bio_contract :: "(string \<Rightarrow> string) \<Rightarrow> bool" where
  "bio_contract bio \<longleftrightarrow> (\<forall>s. length (bio s) = 4 * ((length s + 2) div 3)) \<and> inj bio"

definition b64_char :: "nat \<Rightarrow> char" where
  "b64_char n = (if n < 26 then char_of (65 + n) else if n < 52 then char_of (71 + n)
     else if n < 62 then char_of (n - 4) else if n = 62 then CHR ''+'' else CHR ''/'')"

definition code_of :: "char \<Rightarrow> nat" where "code_of c = of_char c"

fun b64 :: "string \<Rightarrow> string" where
  "b64 (a # b # c # r) =
     b64_char (code_of a div 4) # b64_char (code_of a mod 4 * 16 + code_of b div 16)
     # b64_char (code_of b mod 16 * 4 + code_of c div 64) # b64_char (code_of c mod 64) # b64 r"
| "b64 [a, b] =
     [b64_char (code_of a div 4), b64_char (code_of a mod 4 * 16 + code_of b div 16),
      b64_char (code_of b mod 16 * 4), CHR ''='']"
| "b64 [a] = [b64_char (code_of a div 4), b64_char (code_of a mod 4 * 16), CHR ''='', CHR ''='']"
| "b64 [] = []"

lemma code_of_less: "code_of c < 256"
  by (simp add: code_of_def)

lemma code_of_inj: "code_of a = code_of b \<longleftrightarrow> a = b"
  by (simp add: code_of_def)

lemma b64_char_code: "n < 64 \<Longrightarrow> code_of (b64_char n) =
  (if n < 26 then 65 + n else if n < 52 then 71 + n else if n < 62 then n - 4 else if n = 62 then 43 else 47)"
  by (simp add: b64_char_def code_of_def)

lemma b64_char_inj: "m < 64 \<Longrightarrow> n < 64 \<Longrightarrow> b64_char m = b64_char n \<longleftrightarrow> m = n"
proof -
  assume "m < 64" "n < 64"
  moreover have "b64_char m = b64_char n \<longleftrightarrow> code_of (b64_char m) = code_of (b64_char n)"
    by (simp add: code_of_inj)
  ultimately show ?thesis by (auto simp: b64_char_code split: if_splits)
qed

lemma b64_char_pad: "n < 64 \<Longrightarrow> b64_char n \<noteq> CHR ''=''"
proof -
  assume "n < 64"
  then have "code_of (b64_char n) \<noteq> 61" by (auto simp: b64_char_code)
  moreover have "code_of (CHR ''='') = 61" by (simp add: code_of_def)
  ultimately show ?thesis by metis
qed

lemma radix_unique:
  assumes "x < k" "y < k" "p * k + x = q * k + (y::nat)"
  shows "p = q \<and> x = y"
proof
  have "k \<noteq> 0" using assms(1) by simp
  then have "(x + p * k) div k = p" "(y + q * k) div k = q" using assms by simp_all
  with assms(3) show "p = q" by (simp add: add.commute)
  with assms(3) show "x = y" by simp
qed

lemma sextet_bounds [simp]:
  "code_of a div 4 < 64" "code_of a mod 4 * 16 + code_of b div 16 < 64"
  "code_of b mod 16 * 4 + code_of c div 64 < 64" "code_of c mod 64 < 64"
  "code_of a mod 4 * 16 < 64" "code_of b mod 16 * 4 < 64"
proof -
  have b: "code_of c div 64 < 4" "code_of b div 16 < 16" "code_of a div 4 < 64"
    using code_of_less[of a] code_of_less[of b] code_of_less[of c] by auto
  have m: "code_of a mod 4 < 4" "code_of b mod 16 < 16" by simp_all
  show "code_of a div 4 < 64" "code_of a mod 4 * 16 + code_of b div 16 < 64"
    "code_of b mod 16 * 4 + code_of c div 64 < 64" "code_of c mod 64 < 64"
    "code_of a mod 4 * 16 < 64" "code_of b mod 16 * 4 < 64"
    using b m by linarith+
qed

lemma same_code: "code_of a div k = code_of a' div k \<Longrightarrow> code_of a mod k = code_of a' mod k \<Longrightarrow> a = a'"
  by (metis code_of_inj div_mult_mod_eq)

lemma same_second:
  assumes "code_of a mod 4 * 16 + code_of b div 16 = code_of a' mod 4 * 16 + code_of b' div 16"
  shows "code_of a mod 4 = code_of a' mod 4 \<and> code_of b div 16 = code_of b' div 16"
  by (rule radix_unique[OF _ _ assms]) (use code_of_less[of b] code_of_less[of b'] in auto)

lemma same_third:
  assumes "code_of a mod 16 * 4 + code_of b div 64 = code_of a' mod 16 * 4 + code_of b' div 64"
  shows "code_of a mod 16 = code_of a' mod 16 \<and> code_of b div 64 = code_of b' div 64"
  by (rule radix_unique[OF _ _ assms]) (use code_of_less[of b] code_of_less[of b'] in auto)

lemma b64_inj: "b64 s = b64 t \<Longrightarrow> s = t"
proof (induction s arbitrary: t rule: b64.induct)
  case (1 a b c r)
  then show ?case
    by (cases t rule: b64.cases)
      (auto simp: b64_char_inj b64_char_pad b64_char_pad[THEN not_sym] dest!: same_second same_third intro: same_code)
next
  case (2 a b)
  then show ?case
    by (cases t rule: b64.cases)
      (auto simp: b64_char_inj b64_char_pad b64_char_pad[THEN not_sym] dest!: same_second intro: same_code)
next
  case (3 a)
  then show ?case
    by (cases t rule: b64.cases)
      (auto simp: b64_char_inj b64_char_pad b64_char_pad[THEN not_sym] intro: same_code)
next
  case 4
  then show ?case by (cases t rule: b64.cases) auto
qed

lemma length_b64: "length (b64 s) = 4 * ((length s + 2) div 3)"
proof (induction s rule: b64.induct)
  case (1 a b c r)
  have "(length (a # b # c # r) + 2) div 3 = Suc ((length r + 2) div 3)" by simp
  with 1 show ?case by simp
qed simp_all

lemma b64_contract: "bio_contract b64"
  using b64_inj by (auto simp: bio_contract_def length_b64 inj_def)

section \<open>Sizes\<close>

lemma half_even_error: "\<bar>of_int (half_even x) - x\<bar> \<le> 1 / 2"
proof -
  have "0 \<le> x - of_int \<lfloor>x\<rfloor>" "x - of_int \<lfloor>x\<rfloor> < 1" by linarith+
  then show ?thesis unfolding half_even_def Let_def by (auto simp: abs_le_iff not_less)
qed

lemma half_even_int: "half_even (of_int k) = k"
  by (simp add: half_even_def)

lemma ulp_pos: "0 < ulp x"
  by (simp add: ulp_def)

lemma ulp_le: "0 < x \<Longrightarrow> ulp x \<le> 2 * (x + 1) / 2 ^ 53"
proof (cases "1 \<le> x")
  case True
  define m where "m = nat \<lfloor>x\<rfloor>"
  have m: "0 < m" "(of_nat m :: rat) \<le> x" using True by (simp_all add: m_def)
  define b where "b = floorlog 2 m"
  have "b \<noteq> 0" "2 ^ (b - 1) \<le> m" using m(1) floorlog_bounds[of m 2] by (simp_all add: b_def floorlog_eq_zero_iff)
  then have "(2 :: nat) ^ b \<le> 2 * m" by (cases b) simp_all
  then have "(of_nat (2 ^ b) :: rat) \<le> of_nat (2 * m)" by (simp only: of_nat_le_iff)
  with m(2) have "(2 :: rat) ^ b \<le> 2 * (x + 1)" by simp
  then show ?thesis using True by (simp add: ulp_def m_def b_def divide_right_mono)
next
  case False
  assume "0 < x"
  have "(1 :: rat) / 2 ^ (k + 52) \<le> 1 / 2 ^ 52" for k by (simp add: power_add field_simps)
  then have "ulp x \<le> 1 / 2 ^ 52" using False by (simp add: ulp_def)
  also have "\<dots> \<le> 2 * (x + 1) / 2 ^ 53" using \<open>0 < x\<close> by simp
  finally show ?thesis .
qed

text \<open>Rounding is off by little, and not at all on integers of up to 53 digits.\<close>

lemma double_error: "0 \<le> x \<Longrightarrow> \<bar>to_double x - x\<bar> \<le> (x + 1) / 2 ^ 53"
proof (cases "x = 0")
  case False
  assume "0 \<le> x"
  let ?k = "of_int (half_even (x / ulp x)) :: rat"
  have "to_double x - x = (?k - x / ulp x) * ulp x" using False ulp_pos[of x] by (simp add: to_double_def field_simps)
  then have "\<bar>to_double x - x\<bar> = \<bar>?k - x / ulp x\<bar> * ulp x" using ulp_pos[of x] by (simp add: abs_mult)
  also have "\<dots> \<le> 1 / 2 * ulp x" using half_even_error ulp_pos[of x] by (intro mult_right_mono) simp_all
  also have "\<dots> \<le> (x + 1) / 2 ^ 53" using ulp_le[of x] False \<open>0 \<le> x\<close> by simp
  finally show ?thesis .
qed (simp add: to_double_def)

lemma double_nat: "k < 2 ^ 53 \<Longrightarrow> to_double (of_nat k) = of_nat k"
proof (cases "k = 0")
  case False
  assume "k < 2 ^ 53"
  then have b: "floorlog 2 k \<le> 53" by (intro floorlog_leI) simp_all
  have u: "ulp (of_nat k) = 2 ^ floorlog 2 k / 2 ^ 53" using False by (simp add: ulp_def)
  have p: "(2 :: rat) ^ 53 = 2 ^ floorlog 2 k * 2 ^ (53 - floorlog 2 k)" using b by (simp only: power_add[symmetric]) simp
  have "of_nat k / ulp (of_nat k) = (of_nat k * 2 ^ (53 - floorlog 2 k) :: rat)" unfolding u p by simp
  then have "(of_nat k / ulp (of_nat k) :: rat) = of_int (int k * 2 ^ (53 - floorlog 2 k))" by simp
  then have "half_even (of_nat k / ulp (of_nat k)) = int k * 2 ^ (53 - floorlog 2 k)" by (simp only: half_even_int)
  moreover have "(2 :: rat) ^ (53 - floorlog 2 k) * ulp (of_nat k) = 1"
    unfolding u p by simp
  ultimately show ?thesis using False by (simp add: to_double_def mult.assoc)
qed (simp add: to_double_def)

lemma ceiling_third:
  assumes "n < 2 ^ 40"
  shows "\<lceil>to_double (of_nat n / 3)\<rceil> = int ((n + 2) div 3)"
proof -
  define q r where "q = n div 3" and "r = n mod 3"
  have n: "n = 3 * q + r" "r = 0 \<or> r = 1 \<or> r = 2" by (auto simp: q_def r_def)
  show ?thesis
  proof (cases "r = 0")
    case True
    have "to_double (of_nat n / 3) = of_nat q" using double_nat[of q] assms n(1) True by simp
    then show ?thesis using n(1) True by simp
  next
    case False
    let ?x = "of_nat n / 3 :: rat"
    have "(of_nat n :: rat) < 2 ^ 40" using assms by (metis of_nat_less_iff of_nat_numeral of_nat_power)
    then have "(?x + 1) / 2 ^ 53 < 1 / 3" by simp
    moreover have "0 \<le> ?x" by simp
    ultimately have "\<bar>to_double ?x - ?x\<bar> < 1 / 3" using double_error[of ?x] by linarith
    moreover have "of_nat q + 1 / 3 \<le> ?x" "?x \<le> of_nat q + 2 / 3" using n False by auto
    ultimately have "of_nat q < to_double ?x" "to_double ?x \<le> of_nat q + 1" by linarith+
    then have "\<lceil>to_double ?x\<rceil> = int q + 1" by (intro ceiling_unique) simp_all
    moreover have "(n + 2) div 3 = q + 1" using n False by auto
    ultimately show ?thesis by simp
  qed
qed

text \<open>The size is four characters for each group of three bytes begun, as far as an \<open>int\<close> goes.\<close>

lemma base64_length_eq:
  "base64_length n = (if 4 * ((n + 2) div 3) < 2 ^ 31 then Inr (int (4 * ((n + 2) div 3))) else Inl Undefined_Behaviour)"
proof (cases "n < 2 ^ 40")
  case True
  define k where "k = 4 * ((n + 2) div 3)"
  have k: "k < 2 ^ 53" using True by (simp add: k_def)
  have "to_double (of_nat n) = of_nat n" using True by (intro double_nat) simp
  then have "round (to_double (4 * of_int \<lceil>to_double (to_double (of_nat n) / 3)\<rceil>)) = round (to_double (of_nat k))"
    by (simp add: ceiling_third[OF True] k_def)
  also have "\<dots> = int k" by (simp add: double_nat[OF k])
  finally show ?thesis unfolding base64_length_def Let_def k_def by (simp del: of_nat_mult)
next
  case False
  have low: "x / 2 \<le> to_double x" if "1 \<le> x" for x
  proof -
    have "(x + 1) / 2 ^ 53 \<le> x / 2" using that by simp
    with double_error[of x] that show ?thesis by linarith
  qed
  have "2 ^ 40 \<le> n" using False by simp
  then have "(2 :: rat) ^ 40 \<le> of_nat n" by (metis of_nat_le_iff of_nat_numeral of_nat_power)
  with low[of "of_nat n"] have "2 ^ 39 \<le> to_double (of_nat n)" by simp
  with low[of "to_double (of_nat n) / 3"] have "2 ^ 36 \<le> to_double (to_double (of_nat n) / 3)" by simp
  then have "2 ^ 36 \<le> (of_int \<lceil>to_double (to_double (of_nat n) / 3)\<rceil> :: rat)" by linarith
  moreover have "2 ^ 37 \<le> to_double (4 * z)" if "2 ^ 36 \<le> z" for z
    using that low[of "4 * z"] by simp
  ultimately have "2 ^ 37 \<le> to_double (4 * of_int \<lceil>to_double (to_double (of_nat n) / 3)\<rceil>)" by blast
  then have "round (2 ^ 37 :: rat) \<le> round (to_double (4 * of_int \<lceil>to_double (to_double (of_nat n) / 3)\<rceil>))"
    by (rule round_mono)
  moreover have "\<not> 4 * ((n + 2) div 3) < 2 ^ 31" using False by simp
  ultimately show ?thesis by (simp add: base64_length_def Let_def)
qed

lemma str_resize_Nil: "str_resize [] (int n) = Inr (replicate n NUL)"
  by (simp add: str_resize_def)

lemma str_resize_int: "str_resize x (int n) = Inr (take n x @ replicate (n - length x) NUL)"
  by (simp add: str_resize_def)

lemma write_into_exact: "length out = length buffer \<Longrightarrow> length buffer \<le> k \<Longrightarrow> write_into buffer k out = Inr out"
  by (simp add: write_into_def)

text \<open>The largest input: what is encoded stays below \<open>2\<^sup>3\<^sup>1\<close> characters.\<close>

definition encodable :: "string \<Rightarrow> bool" where
  "encodable s \<longleftrightarrow> 4 * ((length s + 2) div 3) < 2 ^ 31"

lemma base64_encode_eq:
  assumes "bio_contract bio"
  shows "base64_encode_into bio s old = (if encodable s then Inr (bio s) else Inl Undefined_Behaviour)"
proof (cases "encodable s")
  case True
  then have "int (length s) < 2 ^ 31" by (simp add: encodable_def)
  then have "signed_take_bit 31 (int (length s)) = int (length s)" by (intro signed_take_bit_int_eq_self) simp_all
  moreover have "length (bio s) = 4 * ((length s + 2) div 3)" using assms by (simp add: bio_contract_def)
  moreover have "base64_length (length s) = Inr (int (4 * ((length s + 2) div 3)))"
    using True by (simp add: base64_length_eq encodable_def del: of_nat_mult)
  ultimately show ?thesis
    using True str_resize_int[of old "4 * ((length s + 2) div 3)"]
    by (simp add: base64_encode_into_def write_into_exact del: of_nat_mult)
qed (simp add: base64_encode_into_def base64_length_eq encodable_def)

lemma base64_encode_ok: "bio_contract bio \<Longrightarrow> encodable s \<Longrightarrow> base64_encode bio s = Inr (bio s)"
  by (simp add: base64_encode_def base64_encode_eq)

lemma b64_demo: "b64 ''Man!'' = ''TWFuIQ==''"
  by code_simp

section \<open>Properties\<close>

text \<open>C39: The buffer \<open>encode\<close> computes in floating point is exactly what the filter writes, for every
  input whose encoding an \<open>int\<close> can count: nothing is written beyond it, nothing of the text is lost
  and no filler remains. For a longer input the cast of the size is undefined.\<close>

theorem base64_encode_exact:
  assumes "bio_contract bio"
  shows "if length (bio s) < 2 ^ 31
    then base64_encode bio s = Inr (bio s) \<and> base64_length (length s) = Inr (int (length (bio s)))
    else base64_encode bio s = Inl Undefined_Behaviour"
proof -
  have "length (bio s) = 4 * ((length s + 2) div 3)" using assms by (simp add: bio_contract_def)
  then show ?thesis
    by (simp add: base64_encode_def base64_encode_eq[OF assms] base64_length_eq encodable_def del: of_nat_mult)
qed

theorem base64_encode_exact_witness:
  "base64_encode b64 ''Man!'' = Inr ''TWFuIQ==''"
  using base64_encode_exact[OF b64_contract, of "''Man!''"] b64_demo by simp

text \<open>\<open>decode\<close> sizes its buffer by three bytes for four characters and then cuts it to the count
  the filter reports: a round trip gives the input back, a failing filter, which reports a
  negative count, makes the second resize throw.\<close>

theorem base64_decode_result:
  assumes "bio_contract bio" and "bio_read (bio s) (3 * ((length s + 2) div 3)) = (int (length s), s)"
    and "bio_read bad (6 * length bad div 8) = (-1, [])"
  shows "base64_decode bio_read (bio s) = Inr s \<and> base64_decode bio_read bad = Inl Length_Error"
proof
  define k where "k = (length s + 2) div 3"
  have len: "length s \<le> 3 * k" "length (bio s) = 4 * k"
    using assms(1) by (simp_all add: k_def bio_contract_def)
  have "str_resize [] (6 * int (length (bio s)) div 8) = Inr (replicate (3 * k) NUL)"
    by (simp add: str_resize_def len nat_mult_distrib)
  moreover have "bio_read (bio s) (3 * k) = (int (length s), s)" using assms(2) unfolding k_def .
  ultimately show "base64_decode bio_read (bio s) = Inr s"
    using len by (simp add: base64_decode_def base64_decode_into_def write_into_def) (simp add: str_resize_def)
  have "str_resize [] (6 * int (length bad) div 8) = Inr (replicate (6 * length bad div 8) NUL)"
    using str_resize_Nil[of "6 * length bad div 8"] by (simp add: zdiv_int)
  with assms(3) show "base64_decode bio_read bad = Inl Length_Error"
    by (simp add: base64_decode_def base64_decode_into_def write_into_def str_resize_def)
qed

definition one_text_reader :: "string \<Rightarrow> nat \<Rightarrow> int \<times> string" where
  "one_text_reader t cap = (if t = ''TWFuIQ=='' then (4, ''Man!'') else (-1, []))"

theorem base64_decode_result_witness:
  "base64_decode one_text_reader ''TWFuIQ=='' = Inr ''Man!''
   \<and> base64_decode one_text_reader ''?'' = Inl Length_Error"
  using base64_decode_result[OF b64_contract, of one_text_reader "''Man!''" "''?''"]
  unfolding b64_demo by (simp add: one_text_reader_def)

text \<open>Each digest function gives the digest OpenSSL computes, unpadded and uncut, in a string of the
  size of its algorithm; an OpenSSL digest of any other size would be written out of bounds or
  leave filler behind.\<close>

theorem digests_exact:
  "(length (md5 s) = 16 \<longrightarrow> crypto_MD5 md5 s = Inr (md5 s))
   \<and> (length (sha1 s) = 20 \<longrightarrow> crypto_SHA1 sha1 s = Inr (sha1 s))
   \<and> (length (sha256 s) = 32 \<longrightarrow> crypto_SHA256 sha256 s = Inr (sha256 s))
   \<and> (length (sha512 s) = 64 \<longrightarrow> crypto_SHA512 sha512 s = Inr (sha512 s))
   \<and> (length (h s) > 16 \<longrightarrow> crypto_MD5 h s = Inl Undefined_Behaviour)"
  by (simp add: crypto_MD5_def crypto_SHA1_def crypto_SHA256_def crypto_SHA512_def into_defs
      str_resize_def write_into_def)

theorem digests_exact_witness:
  "crypto_MD5 (\<lambda>s. replicate 16 CR) [] = Inr (replicate 16 CR)
   \<and> crypto_SHA1 (\<lambda>s. replicate 20 CR) [] = Inr (replicate 20 CR)
   \<and> crypto_SHA256 (\<lambda>s. replicate 32 CR) [] = Inr (replicate 32 CR)
   \<and> crypto_SHA512 (\<lambda>s. replicate 64 CR) [] = Inr (replicate 64 CR)
   \<and> crypto_MD5 (\<lambda>s. replicate 17 CR) [] = Inl Undefined_Behaviour"
  using digests_exact[of "\<lambda>s. replicate 16 CR" "[]" "\<lambda>s. replicate 20 CR" "\<lambda>s. replicate 32 CR"
    "\<lambda>s. replicate 64 CR" "\<lambda>s. replicate 17 CR"]
  unfolding length_replicate by simp

text \<open>A digest of the size of its buffer fills it, whatever the buffer was.\<close>

lemma digest_into_exact: "length (h s) = k \<Longrightarrow> bits = 8 * int k \<Longrightarrow> digest_into bits h s hash = Inr (h s)"
proof -
  assume k: "length (h s) = k" "bits = 8 * int k"
  have l: "length (take k hash @ replicate (k - length hash) NUL) = k" by simp
  show ?thesis using k(1) l unfolding digest_into_def k(2) by (simp add: str_resize_int write_into_exact del: length_append)
qed

text \<open>What the result string held before is gone: each function that fills a string given by the caller
  leaves in it exactly what the one that returns a new string gives, whatever it held and however
  long it was, as long as OpenSSL writes what it reports.\<close>

theorem crypto_overwrites:
  assumes "bio_contract bio" "bio_read t (6 * length t div 8) = (n, out)" "n < 0 \<or> n = int (length out)"
    and "length (md s) = 16" "length (sha s) = 20" "length (sha_m s) = 32" "length (sha_l s) = 64"
  shows "base64_encode_into bio s old = base64_encode bio s
    \<and> base64_decode_into bio_read t old = base64_decode bio_read t
    \<and> MD5_into md s old = Inr (md s) \<and> SHA1_into sha s old = Inr (sha s)
    \<and> SHA256_into sha_m s old = Inr (sha_m s) \<and> SHA512_into sha_l s old = Inr (sha_l s)"
proof -
  define m where "m = 6 * length t div 8"
  have "base64_encode_into bio s old = base64_encode bio s"
    using base64_encode_eq[OF assms(1)] by (simp add: base64_encode_def)
  moreover have "base64_decode_into bio_read t x = (if m < length out then Inl Undefined_Behaviour else str_resize out n)" for x
  proof -
    define buf where "buf = take m x @ replicate (m - length x) NUL"
    have len: "length buf = m" by (simp add: buf_def)
    have z: "6 * int (length t) div 8 = int m" by (simp add: m_def zdiv_int)
    have "base64_decode_into bio_read t x = bind_result (write_into buf m out) (\<lambda>a. str_resize a n)"
      unfolding base64_decode_into_def z str_resize_int buf_def[symmetric]
      by (simp add: len assms(2)[folded m_def])
    then show ?thesis using assms(3) len by (auto simp: write_into_def str_resize_def)
  qed
  ultimately show ?thesis
    using assms(4-7)
    by (simp add: base64_decode_def MD5_into_def SHA1_into_def SHA256_into_def SHA512_into_def digest_into_exact)
qed

theorem crypto_overwrites_witness:
  "base64_encode_into b64 ''Man!'' ''old'' = Inr ''TWFuIQ=='' \<and> base64_decode_into one_text_reader ''TWFuIQ=='' ''something long'' = Inr ''Man!''
   \<and> SHA1_into (\<lambda>s. replicate 20 CR) ''Man!'' ''x'' = Inr (replicate 20 CR)"
proof -
  have d: "one_text_reader ''TWFuIQ=='' (6 * length ''TWFuIQ=='' div 8) = (4, ''Man!'')" "(4 :: int) < 0 \<or> (4 :: int) = int (length ''Man!'')"
    by (simp_all add: one_text_reader_def)
  have r: "base64_encode_into b64 ''Man!'' old = base64_encode b64 ''Man!''
    \<and> base64_decode_into one_text_reader ''TWFuIQ=='' old = base64_decode one_text_reader ''TWFuIQ==''
    \<and> SHA1_into (\<lambda>s. replicate 20 CR) ''Man!'' old = Inr (replicate 20 CR)" for old
    using crypto_overwrites[where bio = b64 and bio_read = one_text_reader and t = "''TWFuIQ==''" and s = "''Man!''" and old = old
        and md = "\<lambda>s. replicate 16 CR" and sha = "\<lambda>s. replicate 20 CR" and sha_m = "\<lambda>s. replicate 32 CR"
        and sha_l = "\<lambda>s. replicate 64 CR", OF b64_contract d] unfolding length_replicate by blast
  have "base64_encode b64 ''Man!'' = Inr ''TWFuIQ==''" using base64_encode_ok[OF b64_contract] b64_demo by (simp add: encodable_def)
  moreover have "base64_decode one_text_reader ''TWFuIQ=='' = Inr ''Man!''"
    by (simp add: base64_decode_def base64_decode_into_def one_text_reader_def str_resize_def write_into_def)
  ultimately show ?thesis using r[of "''old''"] r[of "''something long''"] r[of "''x''"] by simp
qed

end
