(* ===== verification/Ws_Frame.thy ===== *)
theory Ws_Frame
  imports Prelude
begin

text \<open>
  The bytes of a WebSocket frame in \<^verbatim>\<open>web_socket_server/server_ws.hpp\<close>: the header \<open>send\<close>
  writes, the two header bytes and the extended length \<open>read_message\<close> reads, and the
  unmasking of \<open>read_message_content\<close>. The lemmas compare both directions with the frame
  layout of RFC 6455.
\<close>

unbundle bit_operations_syntax

type_synonym byte = "8 word"

definition bytes_of :: "string \<Rightarrow> byte list" where
  "bytes_of s = map of_char s"

section \<open>The header of a frame the server sends\<close>

text \<open>The loop \<^verbatim>\<open>for(int c=num_bytes-1;c>=0;c--) put((length>>(8*c))%256)\<close>.\<close>

fun put_length :: "nat \<Rightarrow> nat \<Rightarrow> byte list" where
  "put_length 0 len = []"
| "put_length (Suc c) len = of_nat (len div 2 ^ (8 * c) mod 256) # put_length c len"

definition frame_header :: "byte \<Rightarrow> nat \<Rightarrow> byte list" where
  "frame_header fin_rsv_opcode len =
     fin_rsv_opcode #
     (if 126 \<le> len then
        (if 0xffff < len then 127 # put_length 8 len else 126 # put_length 2 len)
      else [of_nat len])"

section \<open>The length of a frame the client sends\<close>

text \<open>
  The second byte: below 128 the frame is unmasked; otherwise its low seven bits are the
  length or announce two or eight bytes of length.
\<close>

datatype head = Unmasked | Short nat | Extended nat

definition classify_head :: "byte \<Rightarrow> head" where
  "classify_head b =
     (if unat b < 128 then Unmasked
      else let len = unat (b AND 127) in
        if len = 126 then Extended 2 else if len = 127 then Extended 8 else Short len)"

text \<open>
  \<open>length_bytes[c]<<n\<close>: the byte is promoted to a 32-bit \<open>int\<close>, so a shift by 32 or more is
  undefined; a result that sets the sign bit is negative.
\<close>

definition shl_int :: "nat \<Rightarrow> nat \<Rightarrow> int result" where
  "shl_int b n =
     (if 32 \<le> n \<or> 2 ^ 32 \<le> b * 2 ^ n then Inl Undefined_Behaviour
      else Inr (sint (of_nat (b * 2 ^ n) :: 32 word)))"

text \<open>The loop \<^verbatim>\<open>length+=length_bytes[c]<<(8*(num_bytes-1-c))\<close> in a \<open>size_t\<close>.\<close>

fun length_loop :: "nat \<Rightarrow> nat \<Rightarrow> byte list \<Rightarrow> nat \<Rightarrow> nat result" where
  "length_loop num c [] acc = Inr acc"
| "length_loop num c (b # bs) acc =
     bind_result (shl_int (unat b) (8 * (num - 1 - c)))
       (\<lambda>v. length_loop num (Suc c) bs (nat ((int acc + v) mod 2 ^ 64)))"

definition read_length :: "byte list \<Rightarrow> nat result" where
  "read_length bs = length_loop (length bs) 0 bs 0"

section \<open>Unmasking\<close>

definition unmask :: "byte list \<Rightarrow> byte list \<Rightarrow> byte list" where
  "unmask key data = map (\<lambda>c. (data ! c) XOR (key ! (c mod 4))) [0..<length data]"

lemma length_unmask [simp]: "length (unmask key data) = length data"
  by (simp add: unmask_def)

lemma unmask_unmask: "unmask key (unmask key data) = data"
proof (rule nth_equalityI)
  fix i assume "i < length (unmask key (unmask key data))"
  then show "unmask key (unmask key data) ! i = data ! i"
    by (simp add: unmask_def xor.assoc)
qed simp

section \<open>RFC 6455\<close>

text \<open>
  The layout the standard prescribes, as a reference: opcode byte, mask bit with length
  code, extended length in network byte order. \<open>rfc_header\<close> reads it back, giving opcode,
  mask bit, length and the rest; \<open>client_frame\<close> is the frame a client sends.
\<close>

fun be_val :: "nat \<Rightarrow> byte list \<Rightarrow> nat" where
  "be_val acc [] = acc"
| "be_val acc (b # bs) = be_val (256 * acc + unat b) bs"

definition rfc_header :: "byte list \<Rightarrow> (byte \<times> bool \<times> nat \<times> byte list) option" where
  "rfc_header bs =
     (case bs of
        op # l # r \<Rightarrow>
          (let n = unat l mod 128; m = (128 \<le> unat l); k = (if n = 126 then 2 else if n = 127 then 8 else 0) in
           if length r < k then None
           else Some (op, m, if k = 0 then n else be_val 0 (take k r), drop k r))
      | _ \<Rightarrow> None)"

text \<open>Octet \<open>i\<close> of the payload is combined with octet \<open>i mod 4\<close> of the key, which is used in turn.\<close>

fun rfc_mask :: "byte list \<Rightarrow> byte list \<Rightarrow> byte list" where
  "rfc_mask key [] = []"
| "rfc_mask key (b # bs) = (b XOR hd key) # rfc_mask (rotate1 key) bs"

lemma rfc_mask_nth: "key \<noteq> [] \<Longrightarrow> i < length bs \<Longrightarrow> rfc_mask key bs ! i = bs ! i XOR key ! (i mod length key)"
proof (induction bs arbitrary: key i)
  case (Cons b bs)
  show ?case
  proof (cases i)
    case 0
    with Cons.prems show ?thesis by (simp add: hd_conv_nth)
  next
    case (Suc j)
    have "rotate1 key ! (j mod length key) = key ! (Suc j mod length key)"
      using Cons.prems(1) by (simp add: nth_rotate1 mod_Suc_eq)
    with Cons Suc show ?thesis by simp
  qed
qed simp

lemma length_rfc_mask [simp]: "length (rfc_mask key bs) = length bs"
  by (induction key bs rule: rfc_mask.induct) auto

lemma rfc_mask_unmask: "length key = 4 \<Longrightarrow> rfc_mask key bs = unmask key bs"
proof (rule nth_equalityI)
  fix i assume k: "length key = 4" and i: "i < length (rfc_mask key bs)"
  from k have "key \<noteq> []" by auto
  from rfc_mask_nth[OF this, of i bs] k i show "rfc_mask key bs ! i = unmask key bs ! i" by (simp add: unmask_def)
qed simp

definition client_frame :: "byte \<Rightarrow> byte list \<Rightarrow> byte list \<Rightarrow> byte list" where
  "client_frame op key payload =
     (let n = length payload in
      op # (if n < 126 then [of_nat (128 + n)]
            else if n \<le> 0xffff then 254 # put_length 2 n else 255 # put_length 8 n)
      @ key @ rfc_mask key payload)"

lemma length_put_length [simp]: "length (put_length c n) = c"
  by (induction c) auto

lemma be_val_put_length: "be_val acc (put_length c n) = acc * 256 ^ c + n mod 256 ^ c"
proof (induction c arbitrary: acc)
  case (Suc c)
  have "(256::nat) ^ c = 2 ^ (8 * c)" by (simp add: power_mult)
  moreover have "n mod (256 ^ c * 256) = 256 ^ c * (n div 256 ^ c mod 256) + n mod 256 ^ c"
    by (rule mod_mult2_eq)
  ultimately show ?case
    using Suc by (simp add: unat_of_nat algebra_simps)
qed simp

lemma unat_byte: "unat (b :: byte) < 256"
  using unsigned_less[of b] by simp

lemma unat_and_127: "unat ((b :: byte) AND 127) = unat b mod 128"
proof -
  have "unat (b AND 127) = unat b AND 127" by (simp only: unsigned_and_eq unsigned_numeral) simp
  also have "unat b AND 127 = take_bit 7 (unat b)" by (simp add: take_bit_eq_mask mask_eq_exp_minus_1)
  finally show ?thesis by (simp add: take_bit_eq_mod)
qed

lemma shl_int_small:
  assumes "n < 32" and "b * 2 ^ n < 2 ^ 31"
  shows "shl_int b n = Inr (int (b * 2 ^ n))"
proof -
  have "sint (of_nat (b * 2 ^ n) :: 32 word) = int (b * 2 ^ n)"
  proof -
    have "signed_take_bit 31 (int (b * 2 ^ n)) = int (b * 2 ^ n)"
    proof (rule signed_take_bit_int_eq_self)
      show "- (2 ^ 31) \<le> int (b * 2 ^ n)" by (rule order_trans[of _ 0]) simp_all
      show "int (b * 2 ^ n) < 2 ^ 31" using assms(2) by (metis of_nat_less_iff of_nat_numeral of_nat_power)
    qed
    then show ?thesis by (simp only: signed_of_nat) simp
  qed
  then show ?thesis using assms by (simp only: shl_int_def) simp
qed

lemma classify_head_short:
  assumes "n < 126"
  shows "classify_head (of_nat (128 + n)) = Short n"
proof -
  have "unat (of_nat (128 + n) :: byte) = 128 + n"
    using assms by (simp add: unat_of_nat del: of_nat_add of_nat_numeral)
  moreover from this have "unat ((of_nat (128 + n) :: byte) AND 127) = n"
    using assms by (simp add: unat_and_127 del: of_nat_add of_nat_numeral)
  ultimately show ?thesis
    using assms by (simp add: classify_head_def del: of_nat_add of_nat_numeral)
qed

lemma classify_head_extended [simp]:
  "classify_head 254 = Extended 2" "classify_head 255 = Extended 8"
  by (simp_all add: classify_head_def)

lemma classify_unmasked: "unat b < 128 \<Longrightarrow> classify_head b = Unmasked"
  by (simp add: classify_head_def)

lemma read_length_two: "read_length [a, b] = Inr (256 * unat a + unat b)"
proof -
  have a: "unat a < 256" and b: "unat b < 256" by (rule unat_byte)+
  define x where "x = unat a"
  define y where "y = unat b"
  have "shl_int x 8 = Inr (int (256 * x))"
    using a shl_int_small[of 8 x] by (simp add: x_def mult.commute)
  moreover have "shl_int y 0 = Inr (int y)"
    using b shl_int_small[of 0 y] by (simp add: y_def)
  moreover have "x < 256" "y < 256" using a b by (simp_all add: x_def y_def)
  ultimately show ?thesis
    by (simp add: read_length_def nat_add_distrib nat_mult_distrib flip: x_def y_def)
qed

lemma read_length_eight:
  assumes "length bs = 8"
  shows "read_length bs = Inl Undefined_Behaviour"
  using assms by (cases bs) (simp_all add: read_length_def shl_int_def)

section \<open>Properties\<close>

lemma rfc_short: "n < 126 \<Longrightarrow> rfc_header (op # of_nat n # r) = Some (op, False, n, r)"
  by (simp add: rfc_header_def unat_of_nat)

lemma rfc_two: "length bs = 2 \<Longrightarrow> rfc_header (op # 126 # bs @ r) = Some (op, False, be_val 0 bs, r)"
  by (simp add: rfc_header_def)

lemma rfc_eight: "length bs = 8 \<Longrightarrow> rfc_header (op # 127 # bs @ r) = Some (op, False, be_val 0 bs, r)"
  by (simp add: rfc_header_def)

text \<open>C37: The header the server writes for a payload of any length a 64-bit size can hold is read
  back, by the layout of RFC 6455, as an unmasked frame of that opcode and length, with
  nothing of what follows consumed; it takes 2, 4 or 10 bytes, the shortest form that fits.\<close>

theorem frame_header_rfc:
  assumes "len < 2 ^ 64"
  shows "rfc_header (frame_header op len @ r) = Some (op, False, len, r)
    \<and> length (frame_header op len) = (if len < 126 then 2 else if len < 2 ^ 16 then 4 else 10)"
proof -
  have "be_val 0 (put_length 8 len) = len" using assms by (simp add: be_val_put_length)
  moreover have "be_val 0 (put_length 2 len) = len" if "len \<le> 0xffff"
    using that by (simp add: be_val_put_length)
  ultimately show ?thesis
    by (auto simp: frame_header_def rfc_short rfc_two rfc_eight simp del: put_length.simps)
qed

theorem frame_header_rfc_witness:
  "rfc_header (frame_header 129 70000 @ [1, 2]) = Some (129, False, 70000, [1, 2])"
  using frame_header_rfc[of 70000 129 "[1, 2]"] by simp

text \<open>The two-byte extended length of a received frame is read as the big-endian number. The
  eight-byte one is never read: for every content of the eight bytes the first shift, by 56
  bits of an \<open>int\<close>, is undefined behaviour.\<close>

theorem read_length_result:
  "read_length [a, b] = Inr (be_val 0 [a, b])
   \<and> read_length [a, b, c, d, e, f, g, h] = Inl Undefined_Behaviour"
  by (simp add: read_length_two read_length_eight)
end
