(* ===== verification/Ws_Send_Queue.thy ===== *)
theory Ws_Send_Queue
  imports Ws_Frame "HOL-Library.Sublist"
begin

text \<open>
  The sending side of a \<open>Connection\<close> in \<^verbatim>\<open>web_socket_server/server_ws.hpp\<close>: the list
  \<open>send_queue\<close>, the strand its handlers are posted to, and the two asynchronous writes of
  each frame. Handlers are functions that may end in undefined behaviour (\<open>begin()\<close> of an
  empty list); \<open>send_step\<close> is one handler running, in any order the strand allows. The
  interface \<open>ordered_sender\<close> states what a client of a sending component relies on: what is
  posted reaches the wire whole and in order.
\<close>

section \<open>State\<close>

record send_data =
  header_stream :: "byte list"
  message_stream :: "byte list"
  callback :: "nat option"

text \<open>A handler posted to the strand, and an \<open>async_write\<close> under way with its bytes.\<close>

datatype task = Post_Send send_data | Post_Write

datatype write_op = Write_Header "byte list" | Write_Message "byte list"

record sender =
  strand :: "task list"
  send_queue :: "send_data list"
  writes :: "write_op list"
  wire :: "byte list"
  called :: "(nat \<times> bool) list"

definition init_sender :: sender where
  "init_sender = \<lparr>strand = [], send_queue = [], writes = [], wire = [], called = []\<rparr>"

section \<open>Handlers\<close>

text \<open>The last statement of \<open>SocketServerBase::send\<close>: post the enqueueing to the strand.\<close>

definition post_send :: "send_data \<Rightarrow> 'a sender_scheme \<Rightarrow> 'a sender_scheme" where
  "post_send d s = s\<lparr>strand := strand s @ [Post_Send d]\<rparr>"

definition send_from_queue :: "'a sender_scheme \<Rightarrow> 'a sender_scheme" where
  "send_from_queue s = s\<lparr>strand := strand s @ [Post_Write]\<rparr>"

text \<open>The posted handler: append, and start sending if the frame is the only one.\<close>

definition run_post_send :: "send_data \<Rightarrow> 'a sender_scheme \<Rightarrow> 'a sender_scheme" where
  "run_post_send d s =
     (let s' = s\<lparr>send_queue := send_queue s @ [d]\<rparr>
      in if length (send_queue s') = 1 then send_from_queue s' else s')"

text \<open>The handler \<open>send_from_queue\<close> posts: write the header of the first frame.\<close>

definition run_post_write :: "'a sender_scheme \<Rightarrow> 'a sender_scheme result" where
  "run_post_write s =
     (case send_queue s of
        [] \<Rightarrow> Inl Undefined_Behaviour
      | d # _ \<Rightarrow> Inr (s\<lparr>writes := writes s @ [Write_Header (header_stream d)]\<rparr>))"

definition call_back :: "send_data \<Rightarrow> bool \<Rightarrow> 'a sender_scheme \<Rightarrow> 'a sender_scheme" where
  "call_back d ec s =
     (case callback d of None \<Rightarrow> s | Some i \<Rightarrow> s\<lparr>called := called s @ [(i, ec)]\<rparr>)"

text \<open>The completion handler of the header write.\<close>

definition header_written :: "bool \<Rightarrow> 'a sender_scheme \<Rightarrow> 'a sender_scheme result" where
  "header_written ec s =
     (case send_queue s of
        [] \<Rightarrow> Inl Undefined_Behaviour
      | d # _ \<Rightarrow>
          if \<not> ec then Inr (s\<lparr>writes := writes s @ [Write_Message (message_stream d)]\<rparr>)
          else Inr ((call_back d ec s)\<lparr>send_queue := []\<rparr>))"

text \<open>The completion handler of the message write.\<close>

definition message_written :: "bool \<Rightarrow> 'a sender_scheme \<Rightarrow> 'a sender_scheme result" where
  "message_written ec s =
     (case send_queue s of
        [] \<Rightarrow> Inl Undefined_Behaviour
      | d # q \<Rightarrow>
          let s' = call_back d ec s in
          if \<not> ec then
            (let s'' = s'\<lparr>send_queue := q\<rparr>
             in Inr (if 0 < length (send_queue s'') then send_from_queue s'' else s''))
          else Inr (s'\<lparr>send_queue := []\<rparr>))"

section \<open>Steps\<close>

text \<open>
  The strand runs its handlers one at a time: the oldest posted one, or the completion of a
  write. A write that completes without error has put all its bytes on the wire, one that
  fails some prefix of them.
\<close>

definition run_task :: "'a sender_scheme \<Rightarrow> 'a sender_scheme result option" where
  "run_task s =
     (case strand s of
        [] \<Rightarrow> None
      | Post_Send d # ts \<Rightarrow> Some (Inr (run_post_send d (s\<lparr>strand := ts\<rparr>)))
      | Post_Write # ts \<Rightarrow> Some (run_post_write (s\<lparr>strand := ts\<rparr>)))"

definition op_bytes :: "write_op \<Rightarrow> byte list" where
  "op_bytes w = (case w of Write_Header b \<Rightarrow> b | Write_Message b \<Rightarrow> b)"

definition complete :: "nat \<Rightarrow> bool \<Rightarrow> byte list \<Rightarrow> 'a sender_scheme \<Rightarrow> 'a sender_scheme result option" where
  "complete i ec bs s =
     (if i < length (writes s) \<and> (if ec then prefix bs (op_bytes (writes s ! i)) else bs = op_bytes (writes s ! i))
      then (let s' = s\<lparr>writes := take i (writes s) @ drop (Suc i) (writes s), wire := wire s @ bs\<rparr>
        in Some (case writes s ! i of
             Write_Header _ \<Rightarrow> header_written ec s'
           | Write_Message _ \<Rightarrow> message_written ec s'))
      else None)"

inductive send_step :: "bool \<Rightarrow> sender \<Rightarrow> sender result \<Rightarrow> bool" where
  step_task: "run_task s = Some r \<Longrightarrow> send_step False s r"
| step_complete: "complete i ec bs s = Some r \<Longrightarrow> send_step ec s r"

text \<open>Runs: calls of \<open>send\<close> interleaved with steps; the list holds what was posted.\<close>

inductive runs :: "bool \<Rightarrow> sender \<Rightarrow> send_data list \<Rightarrow> sender \<Rightarrow> bool" for errors where
  runs_start: "runs errors s [] s"
| runs_post: "runs errors s ds t \<Longrightarrow> runs errors s (ds @ [d]) (post_send d t)"
| runs_step: "runs errors s ds t \<Longrightarrow> send_step ec t (Inr u) \<Longrightarrow> ec \<longrightarrow> errors \<Longrightarrow> runs errors s ds u"

section \<open>The invariant\<close>

text \<open>
  A non-empty queue has exactly one agent working for its first frame: a posted
  \<open>send_from_queue\<close> handler, a header write or a message write, with that frame's bytes.
  An empty queue has none.
\<close>

definition agents :: "'a sender_scheme \<Rightarrow> nat" where
  "agents s = length (filter (\<lambda>t. t = Post_Write) (strand s)) + length (writes s)"

definition send_inv :: "'a sender_scheme \<Rightarrow> bool" where
  "send_inv s \<longleftrightarrow> agents s = (if send_queue s = [] then 0 else 1)
     \<and> (\<forall>w \<in> set (writes s). w = Write_Header (header_stream (hd (send_queue s)))
          \<or> w = Write_Message (message_stream (hd (send_queue s))))"

lemma post_send_simps [simp]:
  "strand (post_send d s) = strand s @ [Post_Send d]" "send_queue (post_send d s) = send_queue s"
  "writes (post_send d s) = writes s" "wire (post_send d s) = wire s" "called (post_send d s) = called s"
  by (simp_all add: post_send_def)

lemma send_from_queue_simps [simp]:
  "strand (send_from_queue s) = strand s @ [Post_Write]" "send_queue (send_from_queue s) = send_queue s"
  "writes (send_from_queue s) = writes s" "wire (send_from_queue s) = wire s" "called (send_from_queue s) = called s"
  by (simp_all add: send_from_queue_def)

lemma call_back_simps [simp]:
  "strand (call_back d ec s) = strand s" "send_queue (call_back d ec s) = send_queue s"
  "writes (call_back d ec s) = writes s" "wire (call_back d ec s) = wire s"
  by (simp_all add: call_back_def split: option.splits)

lemma send_inv_init: "send_inv init_sender"
  by (simp add: send_inv_def init_sender_def agents_def)

lemma send_inv_post: "send_inv s \<Longrightarrow> send_inv (post_send d s)"
  by (simp add: send_inv_def agents_def)

lemma run_task_inv:
  assumes "send_inv s" and "run_task s = Some r"
  shows "\<exists>t. r = Inr t \<and> send_inv t"
proof (cases "strand s")
  case Nil
  with assms show ?thesis by (simp add: run_task_def)
next
  case (Cons t ts)
  show ?thesis
  proof (cases t)
    case (Post_Send d)
    with assms Cons have "r = Inr (run_post_send d (s\<lparr>strand := ts\<rparr>))" by (simp add: run_task_def)
    moreover have "send_inv (run_post_send d (s\<lparr>strand := ts\<rparr>))"
      using assms Cons Post_Send
      by (cases "send_queue s") (auto simp: run_post_send_def send_inv_def agents_def)
    ultimately show ?thesis by blast
  next
    case Post_Write
    with assms Cons obtain d q where q: "send_queue s = d # q"
      by (cases "send_queue s") (auto simp: send_inv_def agents_def)
    with assms Cons Post_Write have "r = Inr (s\<lparr>strand := ts, writes := writes s @ [Write_Header (header_stream d)]\<rparr>)"
      by (simp add: run_task_def run_post_write_def)
    moreover have "send_inv (s\<lparr>strand := ts, writes := writes s @ [Write_Header (header_stream d)]\<rparr>)"
      using assms Cons Post_Write q by (auto simp: send_inv_def agents_def)
    ultimately show ?thesis by blast
  qed
qed

lemma inv_single_write:
  assumes "send_inv s" and "i < length (writes s)"
  obtains d q where "i = 0" "send_queue s = d # q" "filter (\<lambda>t. t = Post_Write) (strand s) = []"
    "writes s = [Write_Header (header_stream d)] \<or> writes s = [Write_Message (message_stream d)]"
proof -
  from assms obtain w where w: "writes s = [w]" "send_queue s \<noteq> []"
      "filter (\<lambda>t. t = Post_Write) (strand s) = []"
    by (cases "writes s") (auto simp: send_inv_def agents_def split: if_splits)
  with assms show thesis
    by (cases "send_queue s") (auto simp: send_inv_def intro!: that)
qed

lemma complete_inv:
  assumes "send_inv s" and "complete i ec bs s = Some r"
  shows "\<exists>t. r = Inr t \<and> send_inv t"
proof -
  from assms(2) have "i < length (writes s)" by (simp add: complete_def split: if_splits)
  with assms(1) obtain d q where "i = 0" "send_queue s = d # q" "filter (\<lambda>t. t = Post_Write) (strand s) = []"
    "writes s = [Write_Header (header_stream d)] \<or> writes s = [Write_Message (message_stream d)]"
    by (rule inv_single_write)
  with assms(2) show ?thesis
    by (cases ec; cases q)
      (auto simp: complete_def header_written_def message_written_def send_inv_def agents_def Let_def
        split: if_splits)
qed

lemma send_step_inv: "send_step ec s r \<Longrightarrow> send_inv s \<Longrightarrow> \<exists>t. r = Inr t \<and> send_inv t"
  by (induction rule: send_step.induct) (auto dest: run_task_inv complete_inv)

lemma runs_inv: "runs errors s ds t \<Longrightarrow> send_inv s \<Longrightarrow> send_inv t"
  by (induction rule: runs.induct) (auto dest: send_step_inv intro: send_inv_post)

section \<open>The stream\<close>

text \<open>
  The abstraction: the bytes on the wire followed by all that is still to be written, in
  order. Posting a frame appends its bytes; a step that does not fail changes nothing.
\<close>

definition frame_bytes :: "send_data \<Rightarrow> byte list" where
  "frame_bytes d = header_stream d @ message_stream d"

fun task_bytes :: "task \<Rightarrow> byte list" where
  "task_bytes (Post_Send d) = frame_bytes d"
| "task_bytes Post_Write = []"

definition queue_bytes :: "'a sender_scheme \<Rightarrow> byte list" where
  "queue_bytes s =
     (case writes s of
        Write_Message m # _ \<Rightarrow> m @ concat (map frame_bytes (tl (send_queue s)))
      | _ \<Rightarrow> concat (map frame_bytes (send_queue s)))"

definition stream :: "'a sender_scheme \<Rightarrow> byte list" where
  "stream s = wire s @ queue_bytes s @ concat (map task_bytes (strand s))"

lemma stream_post: "stream (post_send d s) = stream s @ frame_bytes d"
  by (simp add: stream_def queue_bytes_def split: list.splits write_op.splits)

lemma run_task_stream:
  assumes "send_inv s" and "run_task s = Some (Inr t)"
  shows "stream t = stream s"
proof -
  from assms(2) obtain a ts where st: "strand s = a # ts"
    by (cases "strand s") (auto simp: run_task_def)
  show ?thesis
  proof (cases a)
    case (Post_Send d)
    with assms st show ?thesis
      by (cases "send_queue s"; cases "writes s")
        (auto simp: run_task_def run_post_send_def stream_def queue_bytes_def send_inv_def agents_def
          split: write_op.splits)
  next
    case Post_Write
    with assms st show ?thesis
      by (cases "send_queue s"; cases "writes s")
        (auto simp: run_task_def run_post_write_def stream_def queue_bytes_def send_inv_def agents_def)
  qed
qed

lemma complete_stream:
  assumes "send_inv s" and "complete i False bs s = Some (Inr t)"
  shows "stream t = stream s"
proof -
  from assms(2) have "i < length (writes s)" by (simp add: complete_def split: if_splits)
  with assms(1) obtain d q where "i = 0" "send_queue s = d # q" "filter (\<lambda>t. t = Post_Write) (strand s) = []"
    "writes s = [Write_Header (header_stream d)] \<or> writes s = [Write_Message (message_stream d)]"
    by (rule inv_single_write)
  with assms(2) show ?thesis
    by (cases q)
      (auto simp: complete_def header_written_def message_written_def stream_def queue_bytes_def
        frame_bytes_def op_bytes_def Let_def split: if_splits)
qed

lemma send_step_stream: "send_step False s (Inr t) \<Longrightarrow> send_inv s \<Longrightarrow> stream t = stream s"
  by (erule send_step.cases) (auto dest: run_task_stream complete_stream)

section \<open>The interface of an ordered sender\<close>

text \<open>
  What a client relies on: the stream grows by the encoding of what is posted, steps leave
  it alone, and the wire is always its beginning. From that the order of frames follows for
  every run, whatever the interleaving.
\<close>

inductive session :: "('d \<Rightarrow> 's \<Rightarrow> 's) \<Rightarrow> ('s \<Rightarrow> 's \<Rightarrow> bool) \<Rightarrow> 's \<Rightarrow> 'd list \<Rightarrow> 's \<Rightarrow> bool"
  for post step where
  session_start: "session post step s [] s"
| session_post: "session post step s ds t \<Longrightarrow> session post step s (ds @ [d]) (post d t)"
| session_step: "session post step s ds t \<Longrightarrow> step t u \<Longrightarrow> session post step s ds u"

locale ordered_sender =
  fixes post :: "'d \<Rightarrow> 's \<Rightarrow> 's"
    and step :: "'s \<Rightarrow> 's \<Rightarrow> bool"
    and enc :: "'d \<Rightarrow> byte list"
    and out :: "'s \<Rightarrow> byte list"
    and total :: "'s \<Rightarrow> byte list"
    and inv :: "'s \<Rightarrow> bool"
  assumes post_inv: "inv s \<Longrightarrow> inv (post d s)"
    and post_total: "inv s \<Longrightarrow> total (post d s) = total s @ enc d"
    and step_inv: "inv s \<Longrightarrow> step s t \<Longrightarrow> inv t"
    and step_total: "inv s \<Longrightarrow> step s t \<Longrightarrow> total t = total s"
    and out_total: "inv s \<Longrightarrow> prefix (out s) (total s)"
begin

lemma session_total:
  "session post step s ds t \<Longrightarrow> inv s \<Longrightarrow> inv t \<and> total t = total s @ concat (map enc ds)"
  by (induction rule: session.induct) (auto simp: post_inv post_total step_total intro: step_inv)

lemma session_prefix:
  "session post step s ds t \<Longrightarrow> inv s \<Longrightarrow> prefix (out t) (total s @ concat (map enc ds))"
  using session_total out_total by metis

end

definition ok_step :: "sender \<Rightarrow> sender \<Rightarrow> bool" where
  "ok_step s t \<longleftrightarrow> send_step False s (Inr t)"

interpretation ws: ordered_sender post_send ok_step frame_bytes wire stream send_inv
proof unfold_locales
  fix s t :: sender and d
  show "send_inv s \<Longrightarrow> send_inv (post_send d s)" by (rule send_inv_post)
  show "stream (post_send d s) = stream s @ frame_bytes d" by (rule stream_post)
  show "send_inv s \<Longrightarrow> ok_step s t \<Longrightarrow> send_inv t" by (auto simp: ok_step_def dest: send_step_inv)
  show "send_inv s \<Longrightarrow> ok_step s t \<Longrightarrow> stream t = stream s" by (auto simp: ok_step_def send_step_stream)
  show "prefix (wire s) (stream s)" by (simp add: stream_def)
qed

lemma runs_session: "runs False s ds t \<Longrightarrow> session post_send ok_step s ds t"
proof (induction rule: runs.induct)
  case (runs_start s)
  show ?case by (rule session_start)
next
  case (runs_post s ds t d)
  then show ?case by (intro session_post)
next
  case (runs_step s ds t ec u)
  then have "ok_step t u" by (simp add: ok_step_def)
  with runs_step.IH show ?case by (rule session_step)
qed

section \<open>Progress\<close>

text \<open>A sender with anything left to do can take a step that does not fail.\<close>

definition quiet :: "'a sender_scheme \<Rightarrow> bool" where
  "quiet s \<longleftrightarrow> strand s = [] \<and> writes s = []"

lemma send_progress:
  assumes "\<not> quiet s" and "send_inv s"
  shows "\<exists>t. send_step False s (Inr t)"
proof (cases "strand s = []")
  case True
  with assms obtain w ws where "writes s = w # ws" by (cases "writes s") (auto simp: quiet_def)
  then obtain r where r: "complete 0 False (op_bytes w) s = Some r" by (simp add: complete_def Let_def)
  with complete_inv[OF assms(2) r] show ?thesis by (auto intro: step_complete)
next
  case False
  then have "run_task s \<noteq> None"
    by (cases "strand s") (auto simp: run_task_def split: task.splits)
  then obtain r where r: "run_task s = Some r" by blast
  with run_task_inv[OF assms(2) r] show ?thesis by (auto intro: step_task)
qed

lemma quiet_stream: "quiet s \<Longrightarrow> send_inv s \<Longrightarrow> wire s = stream s \<and> send_queue s = []"
  by (auto simp: quiet_def send_inv_def agents_def stream_def queue_bytes_def split: if_splits)

text \<open>What is left to do, as a number that every step without error lowers.\<close>

fun task_work :: "task \<Rightarrow> nat" where
  "task_work (Post_Send d) = 4"
| "task_work Post_Write = 0"

definition todo :: "'a sender_scheme \<Rightarrow> nat" where
  "todo s = sum_list (map task_work (strand s)) + 3 * length (send_queue s)
     - (case writes s of [] \<Rightarrow> 0 | Write_Header _ # _ \<Rightarrow> 1 | Write_Message _ # _ \<Rightarrow> 2)"

lemma run_task_todo:
  assumes "send_inv s" and "run_task s = Some (Inr t)"
  shows "todo t < todo s"
proof -
  from assms(2) obtain a ts where st: "strand s = a # ts"
    by (cases "strand s") (auto simp: run_task_def)
  show ?thesis
    using assms st
    by (cases a; cases "send_queue s"; cases "writes s")
      (auto simp: run_task_def run_post_send_def run_post_write_def todo_def send_inv_def agents_def
        split: write_op.splits)
qed

lemma complete_todo:
  assumes "send_inv s" and "complete i False bs s = Some (Inr t)"
  shows "todo t < todo s"
proof -
  from assms(2) have "i < length (writes s)" by (simp add: complete_def split: if_splits)
  with assms(1) obtain d q where "i = 0" "send_queue s = d # q" "filter (\<lambda>t. t = Post_Write) (strand s) = []"
    "writes s = [Write_Header (header_stream d)] \<or> writes s = [Write_Message (message_stream d)]"
    by (rule inv_single_write)
  with assms(2) show ?thesis
    by (cases q)
      (auto simp: complete_def header_written_def message_written_def todo_def Let_def split: if_splits)
qed

lemma ok_step_todo: "ok_step s t \<Longrightarrow> send_inv s \<Longrightarrow> todo t < todo s"
  unfolding ok_step_def by (erule send_step.cases) (auto dest: run_task_todo complete_todo)

lemma reaches_quiet: "send_inv s \<Longrightarrow> \<exists>t. ok_step\<^sup>*\<^sup>* s t \<and> quiet t \<and> send_inv t \<and> stream t = stream s"
proof (induction "todo s" arbitrary: s rule: less_induct)
  case less
  show ?case
  proof (cases "quiet s")
    case True
    with less.prems show ?thesis by blast
  next
    case False
    with less.prems obtain t where t: "ok_step s t" using send_progress by (auto simp: ok_step_def)
    with less.prems have "send_inv t" "stream t = stream s" "todo t < todo s"
      using ws.step_inv ws.step_total ok_step_todo by blast+
    with less.hyps[of t] t show ?thesis by (metis converse_rtranclp_into_rtranclp)
  qed
qed
section \<open>Properties\<close>

lemma runs_init_inv: "runs errors init_sender ds t \<Longrightarrow> send_inv t"
  using runs_inv send_inv_init by blast

lemma stream_init [simp]: "stream init_sender = []"
  by (simp add: stream_def queue_bytes_def init_sender_def)

definition demo_frame :: send_data where
  "demo_frame = \<lparr>header_stream = [129, 1], message_stream = [7], callback = Some 0\<rparr>"

lemma demo_run: "runs errors init_sender [demo_frame] (post_send demo_frame init_sender)"
  using runs_post[OF runs_start, of errors init_sender demo_frame] by simp

text \<open>C11: Whatever is posted and in whatever order the strand's handlers and the completions run,
  failed writes included, no handler takes the first element of an empty queue, and there is
  never more than one write under way on the socket.\<close>

theorem send_queue_safe:
  assumes "runs errors init_sender ds t"
  shows "length (writes t) \<le> 1 \<and> (\<forall>ec r. send_step ec t r \<longrightarrow> (\<exists>u. r = Inr u))"
proof
  have inv: "send_inv t" by (rule runs_init_inv[OF assms])
  then show "length (writes t) \<le> 1" by (auto simp: send_inv_def agents_def split: if_splits)
  show "\<forall>ec r. send_step ec t r \<longrightarrow> (\<exists>u. r = Inr u)"
    using send_step_inv[OF _ inv] by blast
qed

theorem send_queue_safe_witness:
  "length (writes (post_send demo_frame init_sender)) \<le> 1
   \<and> \<not> (\<exists>ec f. send_step ec (post_send demo_frame init_sender) (Inl f))"
  using send_queue_safe[OF demo_run[of True]] by blast

text \<open>C12: While no write fails, the bytes on the wire are a beginning of the posted frames, each
  header followed by its own message, in the order \<open>send\<close> was called: frames are never
  interleaved, reordered, duplicated or dropped.\<close>

theorem send_order:
  assumes "runs False init_sender ds t"
  shows "prefix (wire t) (concat (map frame_bytes ds))"
  using ws.session_prefix[OF runs_session[OF assms] send_inv_init] by simp

theorem send_order_witness:
  "prefix (wire (post_send demo_frame init_sender)) [129, 1, 7]"
  using send_order[OF demo_run] by (simp add: frame_bytes_def demo_frame_def)

text \<open>C13: From every reachable state without a failed write, every step without error brings the
  work left down, and some such steps lead to a quiet state where everything posted is on the
  wire: sending cannot get stuck and cannot go on for ever.\<close>

theorem send_completes:
  assumes "runs False init_sender ds t"
  shows "(\<forall>u. ok_step t u \<longrightarrow> todo u < todo t)
    \<and> (\<exists>u. ok_step\<^sup>*\<^sup>* t u \<and> quiet u \<and> wire u = concat (map frame_bytes ds))"
proof -
  have inv: "send_inv t" and str: "stream t = concat (map frame_bytes ds)"
    using ws.session_total[OF runs_session[OF assms] send_inv_init] by simp_all
  obtain u where "ok_step\<^sup>*\<^sup>* t u" "quiet u" "send_inv u" "stream u = stream t"
    using reaches_quiet[OF inv] by blast
  with inv str quiet_stream[of u] ok_step_todo[of t] show ?thesis by auto
qed

theorem send_completes_witness:
  "\<exists>u. ok_step\<^sup>*\<^sup>* (post_send demo_frame init_sender) u \<and> quiet u \<and> wire u = [129, 1, 7]"
  using send_completes[OF demo_run] by (simp add: frame_bytes_def demo_frame_def)

text \<open>C38: A failed write empties the queue at once. Only the callback of the first frame runs;
  the frames behind it are dropped and their callbacks are never called by this step.\<close>

theorem send_error_drops:
  assumes "runs errors init_sender ds s" and "send_queue s = d # q"
    and "complete i True bs s = Some (Inr t)"
  shows "send_queue t = []
    \<and> called t = called s @ (case callback d of None \<Rightarrow> [] | Some k \<Rightarrow> [(k, True)])
    \<and> wire t = wire s @ bs \<and> strand t = strand s"
proof -
  have "i < length (writes s)" using assms(3) by (simp add: complete_def split: if_splits)
  with runs_init_inv[OF assms(1)] obtain d' q' where "i = 0" "send_queue s = d' # q'"
    "writes s = [Write_Header (header_stream d')] \<or> writes s = [Write_Message (message_stream d')]"
    by (rule inv_single_write)
  with assms(2,3) show ?thesis
    by (auto simp: complete_def header_written_def message_written_def call_back_def Let_def
        split: if_splits option.splits)
qed

definition busy_sender :: sender where
  "busy_sender = init_sender\<lparr>send_queue := [demo_frame, demo_frame], writes := [Write_Header [129, 1]]\<rparr>"

lemma busy_run: "runs True init_sender [demo_frame, demo_frame] busy_sender"
proof -
  let ?a = "post_send demo_frame (post_send demo_frame init_sender)"
  let ?s = "\<lambda>ts q ws. init_sender\<lparr>strand := ts, send_queue := q, writes := ws\<rparr>"
  have 0: "runs True init_sender [demo_frame, demo_frame] ?a"
    using runs_post[OF demo_run, of True demo_frame] by simp
  have 1: "runs True init_sender [demo_frame, demo_frame] (?s [Post_Send demo_frame, Post_Write] [demo_frame] [])"
    by (rule runs_step[OF 0 step_task])
      (simp_all add: run_task_def run_post_send_def init_sender_def post_send_def send_from_queue_def Let_def)
  have 2: "runs True init_sender [demo_frame, demo_frame] (?s [Post_Write] [demo_frame, demo_frame] [])"
    by (rule runs_step[OF 1 step_task])
      (simp_all add: run_task_def run_post_send_def init_sender_def send_from_queue_def Let_def)
  have 3: "runs True init_sender [demo_frame, demo_frame] (?s [] [demo_frame, demo_frame] [Write_Header [129, 1]])"
    by (rule runs_step[OF 2 step_task])
      (simp_all add: run_task_def run_post_write_def init_sender_def demo_frame_def)
  then show ?thesis by (simp add: busy_sender_def init_sender_def)
qed

theorem send_error_drops_witness:
  "\<exists>t. complete 0 True [] busy_sender = Some (Inr t) \<and> send_queue t = [] \<and> called t = [(0, True)]"
proof -
  have "\<exists>t. complete 0 True [] busy_sender = Some (Inr t)"
    by (simp add: complete_def busy_sender_def init_sender_def header_written_def)
  then obtain t where t: "complete 0 True [] busy_sender = Some (Inr t)" by blast
  have q: "send_queue busy_sender = demo_frame # [demo_frame]" by (simp add: busy_sender_def)
  show ?thesis
    using send_error_drops[OF busy_run q t] t by (simp add: busy_sender_def init_sender_def demo_frame_def)
qed
end
