(* ===== verification/Ws_Connection.thy ===== *)
theory Ws_Connection
  imports Ws_Send_Queue
begin

text \<open>
  A server-side WebSocket connection of \<^verbatim>\<open>web_socket_server/server_ws.hpp\<close> after its
  handshake: sending, the closing handshake, the idle timer, the chain of reads that takes
  in a frame, and the callbacks of its endpoint. The sending fields are those of
  \<open>Ws_Send_Queue\<close>.
\<close>

section \<open>State\<close>

text \<open>
  \<open>timer_idle\<close> is null until \<open>timer_idle_init\<close>; a timer either has a pending wait or not.
  The phase says which read is under way; \<open>registered\<close> is membership in the endpoint's set
  of connections; \<open>events\<close> records the endpoint callbacks that were called.
\<close>

datatype timer = Null_Timer | Waiting | Not_Waiting

datatype read_phase = Not_Reading | Read_Head | Read_Length nat byte | Read_Content nat byte

datatype ws_event = Opened | Received byte "byte list" | Closed_With int "byte list" | Failed

record connection = sender +
  closed :: bool
  timer_idle :: timer
  read_buffer :: "byte list"
  phase :: read_phase
  registered :: bool
  events :: "ws_event list"

text \<open>The optional callbacks of an endpoint; a callback may itself fault.\<close>

record endpoint =
  onopen :: "(connection \<Rightarrow> connection result) option"
  onmessage :: "(byte \<Rightarrow> byte list \<Rightarrow> connection \<Rightarrow> connection result) option"
  onerror :: "(connection \<Rightarrow> connection result) option"
  onclose :: "(int \<Rightarrow> byte list \<Rightarrow> connection \<Rightarrow> connection result) option"

definition connection_ctor :: connection where
  "connection_ctor = \<lparr>strand = [], send_queue = [], writes = [], wire = [], called = [],
     closed = False, timer_idle = Null_Timer, read_buffer = [], phase = Not_Reading,
     registered = False, events = []\<rparr>"

definition note_event :: "ws_event \<Rightarrow> connection \<Rightarrow> connection" where
  "note_event e c = c\<lparr>events := events c @ [e]\<rparr>"

section \<open>The idle timer\<close>

text \<open>\<open>T\<close> is \<open>timeout_idle\<close>; zero turns the timer off. A null timer must not be used.\<close>

definition timer_idle_init :: "nat \<Rightarrow> connection \<Rightarrow> connection" where
  "timer_idle_init T c = (if 0 < T then c\<lparr>timer_idle := Waiting\<rparr> else c)"

text \<open>
  Setting a new expiry time cancels a pending wait; only if there was one is it started again.
\<close>

definition timer_idle_reset :: "nat \<Rightarrow> connection \<Rightarrow> connection result" where
  "timer_idle_reset T c =
     (if 0 < T then
        (case timer_idle c of
           Null_Timer \<Rightarrow> Inl Undefined_Behaviour
         | Waiting \<Rightarrow> Inr (c\<lparr>timer_idle := Waiting\<rparr>)
         | Not_Waiting \<Rightarrow> Inr c)
      else Inr c)"

definition timer_idle_cancel :: "nat \<Rightarrow> connection \<Rightarrow> connection result" where
  "timer_idle_cancel T c =
     (if 0 < T then
        (if timer_idle c = Null_Timer then Inl Undefined_Behaviour
         else Inr (c\<lparr>timer_idle := Not_Waiting\<rparr>))
      else Inr c)"

section \<open>Sending\<close>

definition ws_send :: "nat \<Rightarrow> byte \<Rightarrow> byte list \<Rightarrow> nat option \<Rightarrow> connection \<Rightarrow> connection result" where
  "ws_send T fin_rsv_opcode message cb c =
     bind_result (if fin_rsv_opcode \<noteq> 136 then timer_idle_reset T c else Inr c) (\<lambda>c'.
       Inr (post_send \<lparr>header_stream = frame_header fin_rsv_opcode (length message),
         message_stream = message, callback = cb\<rparr> c'))"

definition close_payload :: "int \<Rightarrow> byte list \<Rightarrow> byte list" where
  "close_payload status reason = word_of_int (status div 256) # word_of_int (status mod 256) # reason"

text \<open>The callbacks the callers in the source give to \<open>send_close\<close> are null or do nothing: none here.\<close>

definition send_close :: "nat \<Rightarrow> int \<Rightarrow> byte list \<Rightarrow> connection \<Rightarrow> connection result" where
  "send_close T status reason c =
     (if closed c then Inr c
      else ws_send T 136 (close_payload status reason) None (c\<lparr>closed := True\<rparr>))"

text \<open>The handler of an expired wait.\<close>

definition timer_idle_expired :: "nat \<Rightarrow> connection \<Rightarrow> connection result" where
  "timer_idle_expired T c = send_close T 1000 (bytes_of ''idle timeout'') (c\<lparr>timer_idle := Not_Waiting\<rparr>)"

section \<open>The life of a connection\<close>

definition connection_open :: "nat \<Rightarrow> endpoint \<Rightarrow> connection \<Rightarrow> connection result" where
  "connection_open T ep c =
     (let c' = (timer_idle_init T c)\<lparr>registered := True\<rparr>
      in case onopen ep of None \<Rightarrow> Inr c' | Some h \<Rightarrow> h (note_event Opened c'))"

definition connection_close :: "nat \<Rightarrow> endpoint \<Rightarrow> int \<Rightarrow> byte list \<Rightarrow> connection \<Rightarrow> connection result" where
  "connection_close T ep status reason c =
     bind_result (timer_idle_cancel T c) (\<lambda>c.
       let c' = c\<lparr>registered := False\<rparr>
       in case onclose ep of None \<Rightarrow> Inr c'
          | Some h \<Rightarrow> h status reason (note_event (Closed_With status reason) c'))"

definition connection_error :: "nat \<Rightarrow> endpoint \<Rightarrow> connection \<Rightarrow> connection result" where
  "connection_error T ep c =
     bind_result (timer_idle_cancel T c) (\<lambda>c.
       let c' = c\<lparr>registered := False\<rparr>
       in case onerror ep of None \<Rightarrow> Inr c' | Some h \<Rightarrow> h (note_event Failed c'))"

section \<open>Reading a frame\<close>

text \<open>The bytes each read asks for.\<close>

fun wanted :: "read_phase \<Rightarrow> nat" where
  "wanted Not_Reading = 0"
| "wanted Read_Head = 2"
| "wanted (Read_Length n op) = n"
| "wanted (Read_Content len op) = 4 + len"

text \<open>A handler that starts no further read.\<close>

definition stop_reading :: "connection result \<Rightarrow> connection result" where
  "stop_reading r = bind_result r (\<lambda>c. Inr (c\<lparr>phase := Not_Reading\<rparr>))"

text \<open>
  The handlers get the error flag and the bytes the read appended to the buffer; what they
  extract comes from the front of the buffer.
\<close>

definition on_head :: "nat \<Rightarrow> endpoint \<Rightarrow> bool \<Rightarrow> byte list \<Rightarrow> connection \<Rightarrow> connection result" where
  "on_head T ep ec bytes c =
     (if ec then stop_reading (connection_error T ep c)
      else if bytes = [] then Inr (c\<lparr>phase := Read_Head\<rparr>)
      else
        let buf = read_buffer c @ bytes;
            first_bytes = take 2 (buf @ [0, 0]);
            fin_rsv_opcode = first_bytes ! 0;
            c' = c\<lparr>read_buffer := drop 2 buf\<rparr>
        in case classify_head (first_bytes ! 1) of
             Unmasked \<Rightarrow>
               (let reason = bytes_of ''message from client not masked''
                in stop_reading (bind_result (send_close T 1002 reason c') (connection_close T ep 1002 reason)))
           | Extended n \<Rightarrow> Inr (c'\<lparr>phase := Read_Length n fin_rsv_opcode\<rparr>)
           | Short len \<Rightarrow> Inr (c'\<lparr>phase := Read_Content len fin_rsv_opcode\<rparr>))"

definition on_length :: "nat \<Rightarrow> endpoint \<Rightarrow> nat \<Rightarrow> byte \<Rightarrow> bool \<Rightarrow> byte list \<Rightarrow> connection \<Rightarrow> connection result" where
  "on_length T ep n fin_rsv_opcode ec bytes c =
     (if ec then stop_reading (connection_error T ep c)
      else
        let buf = read_buffer c @ bytes;
            length_bytes = take n (buf @ replicate n 0);
            c' = c\<lparr>read_buffer := drop n buf\<rparr>
        in bind_result (read_length length_bytes) (\<lambda>len.
             Inr (c'\<lparr>phase := Read_Content len fin_rsv_opcode\<rparr>)))"

definition close_status :: "byte list \<Rightarrow> int \<times> byte list" where
  "close_status message =
     (case message of
        byte1 # byte2 # reason \<Rightarrow> (int (unat byte1) * 256 + int (unat byte2), reason)
      | _ \<Rightarrow> (0, message))"

definition on_content :: "nat \<Rightarrow> endpoint \<Rightarrow> nat \<Rightarrow> byte \<Rightarrow> bool \<Rightarrow> byte list \<Rightarrow> connection \<Rightarrow> connection result" where
  "on_content T ep len fin_rsv_opcode ec bytes c =
     (if ec then stop_reading (connection_error T ep c)
      else
        let buf = read_buffer c @ bytes;
            message = unmask (take 4 buf) (take len (drop 4 buf));
            c' = c\<lparr>read_buffer := drop (4 + len) buf\<rparr>
        in if fin_rsv_opcode AND 0x0f = 8 then
             (let (status, reason) = close_status message
              in stop_reading (bind_result (send_close T status reason c') (connection_close T ep status reason)))
           else
             bind_result
               (if fin_rsv_opcode AND 0x0f = 9 then ws_send T (fin_rsv_opcode + 1) [] None c'
                else case onmessage ep of
                    None \<Rightarrow> Inr c'
                  | Some h \<Rightarrow> bind_result (timer_idle_reset T c')
                      (\<lambda>c. h fin_rsv_opcode message (note_event (Received fin_rsv_opcode message) c)))
               (\<lambda>c. Inr (c\<lparr>phase := Read_Head\<rparr>)))"

definition read_message :: "connection \<Rightarrow> connection" where
  "read_message c = c\<lparr>phase := Read_Head\<rparr>"

definition read_done :: "nat \<Rightarrow> endpoint \<Rightarrow> bool \<Rightarrow> byte list \<Rightarrow> connection \<Rightarrow> connection result" where
  "read_done T ep ec bytes c =
     (case phase c of
        Not_Reading \<Rightarrow> Inr c
      | Read_Head \<Rightarrow> on_head T ep ec bytes c
      | Read_Length n op \<Rightarrow> on_length T ep n op ec bytes c
      | Read_Content len op \<Rightarrow> on_content T ep len op ec bytes c)"

text \<open>The end of the handshake: the callback of its write.\<close>

definition handshake_written :: "nat \<Rightarrow> endpoint \<Rightarrow> bool \<Rightarrow> connection \<Rightarrow> connection result" where
  "handshake_written T ep ec c =
     (if \<not> ec then bind_result (connection_open T ep c) (\<lambda>c. Inr (read_message c))
      else connection_error T ep c)"

text \<open>
  Bytes arriving on the socket: each read is completed as soon as the bytes it asks for are
  there; the bytes of an incomplete read stay on the socket.
\<close>

function feed :: "nat \<Rightarrow> endpoint \<Rightarrow> byte list \<Rightarrow> connection \<Rightarrow> (connection \<times> byte list) result" where
  "feed T ep bs c =
     (if wanted (phase c) = 0 \<or> length bs < wanted (phase c) then Inr (c, bs)
      else (case read_done T ep False (take (wanted (phase c)) bs) c of
              Inl f \<Rightarrow> Inl f
            | Inr c' \<Rightarrow> feed T ep (drop (wanted (phase c)) bs) c'))"
  by pat_completeness auto
termination
  by (relation "measure (\<lambda>(T, ep, bs, c). length bs)") auto

declare feed.simps [simp del]

section \<open>What a handler does to the sending side\<close>

definition is_close :: "send_data \<Rightarrow> bool" where
  "is_close d \<longleftrightarrow> header_stream d \<noteq> [] \<and> hd (header_stream d) = 136"

definition posts :: "connection \<Rightarrow> send_data list \<Rightarrow> connection \<Rightarrow> bool" where
  "posts c ds c' \<longleftrightarrow> strand c' = strand c @ map Post_Send ds \<and> send_queue c' = send_queue c
     \<and> writes c' = writes c \<and> wire c' = wire c \<and> called c' = called c"

text \<open>
  Frames are posted, a close frame exactly when \<open>closed\<close> goes from false to true, and a
  timer does not become null.
\<close>

definition effect :: "connection \<Rightarrow> send_data list \<Rightarrow> connection \<Rightarrow> bool" where
  "effect c ds c' \<longleftrightarrow> posts c ds c'
     \<and> length (filter is_close ds) + (if closed c then 1 else 0) = (if closed c' then 1 else 0)
     \<and> (timer_idle c \<noteq> Null_Timer \<longrightarrow> timer_idle c' \<noteq> Null_Timer)"

definition acts :: "connection result \<Rightarrow> connection \<Rightarrow> bool" where
  "acts r c \<longleftrightarrow> (\<forall>c'. r = Inr c' \<longrightarrow> (\<exists>ds. effect c ds c'))"

lemma posts_unique: "posts c ds c' \<Longrightarrow> posts c es c' \<Longrightarrow> ds = es"
  by (auto simp: posts_def intro: inj_map_eq_map[THEN iffD1, rotated] injI)

lemma effect_trans: "effect c ds d \<Longrightarrow> effect d es e \<Longrightarrow> effect c (ds @ es) e"
  by (auto simp: effect_def posts_def split: if_splits)

lemma effect_same:
  "sender.truncate c' = sender.truncate c \<Longrightarrow> closed c' = closed c \<Longrightarrow>
   timer_idle c \<noteq> Null_Timer \<longrightarrow> timer_idle c' \<noteq> Null_Timer \<Longrightarrow> effect c [] c'"
  by (auto simp: effect_def posts_def sender.truncate_def)

lemma acts_Inl [simp]: "acts (Inl f) c"
  by (simp add: acts_def)

lemma acts_same:
  "sender.truncate c' = sender.truncate c \<Longrightarrow> closed c' = closed c \<Longrightarrow>
   timer_idle c \<noteq> Null_Timer \<longrightarrow> timer_idle c' \<noteq> Null_Timer \<Longrightarrow> acts (Inr c') c"
  unfolding acts_def using effect_same by blast

lemma acts_bind:
  "acts r c \<Longrightarrow> (\<And>d. r = Inr d \<Longrightarrow> acts (f d) d) \<Longrightarrow> acts (bind_result r f) c"
  unfolding acts_def by (cases r) (auto intro: effect_trans)

lemma acts_from:
  "acts r d \<Longrightarrow> sender.truncate d = sender.truncate c \<Longrightarrow> closed d = closed c \<Longrightarrow>
   timer_idle c \<noteq> Null_Timer \<longrightarrow> timer_idle d \<noteq> Null_Timer \<Longrightarrow> acts r c"
  unfolding acts_def using effect_same effect_trans by blast

lemma acts_app:
  "(\<And>e. acts (h e) e) \<Longrightarrow> sender.truncate d = sender.truncate c \<Longrightarrow> closed d = closed c \<Longrightarrow>
   timer_idle c \<noteq> Null_Timer \<longrightarrow> timer_idle d \<noteq> Null_Timer \<Longrightarrow> acts (h d) c"
  using acts_from by blast

lemma truncate_simps [simp]:
  "sender.truncate (c\<lparr>closed := x1\<rparr>) = sender.truncate c"
  "sender.truncate (c\<lparr>timer_idle := x2\<rparr>) = sender.truncate c"
  "sender.truncate (c\<lparr>read_buffer := x3\<rparr>) = sender.truncate c"
  "sender.truncate (c\<lparr>phase := x4\<rparr>) = sender.truncate c"
  "sender.truncate (c\<lparr>registered := x5\<rparr>) = sender.truncate c"
  "sender.truncate (c\<lparr>events := x6\<rparr>) = sender.truncate c"
  by (simp_all add: sender.truncate_def)

lemma note_event_simps [simp]:
  "sender.truncate (note_event e c) = sender.truncate c" "closed (note_event e c) = closed c"
  "timer_idle (note_event e c) = timer_idle c" "phase (note_event e c) = phase c"
  "registered (note_event e c) = registered c" "read_buffer (note_event e c) = read_buffer c"
  by (simp_all add: note_event_def)

lemma acts_timer_reset: "acts (timer_idle_reset T c) c"
  by (auto simp: timer_idle_reset_def intro!: acts_same split: timer.splits)

lemma acts_timer_cancel: "acts (timer_idle_cancel T c) c"
  by (auto simp: timer_idle_cancel_def intro!: acts_same)

lemma is_close_header [simp]:
  "is_close \<lparr>header_stream = frame_header op n, message_stream = m, callback = cb\<rparr> \<longleftrightarrow> op = 136"
  by (simp add: is_close_def frame_header_def)

lemma post_effect: "\<not> is_close d \<Longrightarrow> effect c [d] (post_send d c)"
  by (simp add: effect_def posts_def post_send_def)

lemma acts_ws_send: "op \<noteq> 136 \<Longrightarrow> acts (ws_send T op m cb c) c"
  unfolding ws_send_def
proof (rule acts_bind)
  fix d assume "op \<noteq> 136"
  then have "effect d [\<lparr>header_stream = frame_header op (length m), message_stream = m, callback = cb\<rparr>]
    (post_send \<lparr>header_stream = frame_header op (length m), message_stream = m, callback = cb\<rparr> d)"
    by (intro post_effect) simp
  then show "acts (Inr (post_send \<lparr>header_stream = frame_header op (length m), message_stream = m, callback = cb\<rparr> d)) d"
    by (auto simp: acts_def)
qed (simp add: acts_timer_reset)

lemma acts_send_close: "acts (send_close T st reason c) c"
proof (cases "closed c")
  case True
  then show ?thesis by (simp add: send_close_def acts_same)
next
  case False
  let ?d = "\<lparr>header_stream = frame_header 136 (length (close_payload st reason)),
     message_stream = close_payload st reason, callback = None\<rparr>"
  have "effect c [?d] (post_send ?d (c\<lparr>closed := True\<rparr>))"
    using False by (simp add: effect_def posts_def post_send_def)
  with False show ?thesis by (auto simp: send_close_def ws_send_def acts_def)
qed

section \<open>The interface of an endpoint\<close>

text \<open>
  What the server relies on of the callbacks: they send data frames only, through the
  connection's own operations, and leave the server's bookkeeping alone.
\<close>

definition benign :: "(connection \<Rightarrow> connection result) \<Rightarrow> bool" where
  "benign h \<longleftrightarrow> (\<forall>c. acts (h c) c \<and> (\<forall>c'. h c = Inr c' \<longrightarrow>
     closed c' = closed c \<and> registered c' = registered c \<and> phase c' = phase c
     \<and> read_buffer c' = read_buffer c))"

locale ws_endpoint =
  fixes T :: nat and ep :: endpoint
  assumes benign_open: "onopen ep = Some h \<Longrightarrow> benign h"
    and benign_message: "onmessage ep = Some h' \<Longrightarrow> benign (h' op m)"
    and benign_error: "onerror ep = Some h \<Longrightarrow> benign h"
    and benign_close: "onclose ep = Some h'' \<Longrightarrow> benign (h'' status reason)"
begin

lemma acts_open: "acts (connection_open T ep c) c"
proof (cases "onopen ep")
  case None
  then show ?thesis by (auto simp: connection_open_def timer_idle_init_def intro!: acts_same)
next
  case (Some h)
  then have "acts (h d) d" for d using benign_open by (simp add: benign_def)
  then have "acts (h d) c" if "sender.truncate d = sender.truncate c" "closed d = closed c"
      "timer_idle c \<noteq> Null_Timer \<longrightarrow> timer_idle d \<noteq> Null_Timer" for d
    using that by (rule acts_app)
  then show ?thesis
    using Some by (simp add: connection_open_def timer_idle_init_def Let_def)
qed

lemma acts_close: "acts (connection_close T ep status reason c) c"
  unfolding connection_close_def
proof (rule acts_bind[OF acts_timer_cancel])
  fix d
  show "acts (let c' = d\<lparr>registered := False\<rparr> in case onclose ep of None \<Rightarrow> Inr c'
     | Some h \<Rightarrow> h status reason (note_event (Closed_With status reason) c')) d"
  proof (cases "onclose ep")
    case (Some h)
    then have "acts (h status reason e) e" for e using benign_close by (simp add: benign_def)
    from acts_app[of "h status reason", OF this] Some show ?thesis by (simp add: Let_def)
  qed (simp add: acts_same)
qed

lemma acts_error: "acts (connection_error T ep c) c"
  unfolding connection_error_def
proof (rule acts_bind[OF acts_timer_cancel])
  fix d
  show "acts (let c' = d\<lparr>registered := False\<rparr> in case onerror ep of None \<Rightarrow> Inr c'
     | Some h \<Rightarrow> h (note_event Failed c')) d"
  proof (cases "onerror ep")
    case (Some h)
    then have "acts (h e) e" for e using benign_error by (simp add: benign_def)
    from acts_app[of h, OF this] Some show ?thesis by (simp add: Let_def)
  qed (simp add: acts_same)
qed

lemma acts_stop: "acts r c \<Longrightarrow> acts (stop_reading r) c"
  unfolding stop_reading_def by (erule acts_bind) (simp add: acts_same)

lemma acts_closing:
  "acts (stop_reading (bind_result (send_close T status reason (c\<lparr>read_buffer := b\<rparr>))
     (connection_close T ep status reason))) c"
  by (rule acts_from[where d = "c\<lparr>read_buffer := b\<rparr>"])
    (simp_all add: acts_stop acts_bind acts_send_close acts_close)

lemma acts_head: "acts (on_head T ep ec bytes c) c"
  unfolding on_head_def Let_def
  by (simp add: acts_stop[OF acts_error] acts_same acts_closing split: head.splits)

lemma acts_length: "acts (on_length T ep n op ec bytes c) c"
proof -
  have "acts (bind_result r (\<lambda>len. Inr (c\<lparr>read_buffer := b, phase := Read_Content len op\<rparr>))) c" for r b
    by (cases r) (simp_all add: acts_same)
  then show ?thesis by (simp add: on_length_def Let_def acts_stop[OF acts_error])
qed

lemma acts_message:
  "acts (case onmessage ep of None \<Rightarrow> Inr c
     | Some h \<Rightarrow> bind_result (timer_idle_reset T c) (\<lambda>c. h op m (note_event (Received op m) c))) c"
proof (cases "onmessage ep")
  case (Some h)
  then have "acts (h op m (note_event (Received op m) e)) e" for e
    using benign_message acts_from[of "h op m (note_event (Received op m) e)" "note_event (Received op m) e" e]
    by (simp add: benign_def)
  with Some show ?thesis by (simp add: acts_bind[OF acts_timer_reset])
qed (simp add: acts_same)

lemma nibble_9: "op AND 0x0f = 9 \<Longrightarrow> (op :: byte) + 1 \<noteq> 136"
proof
  assume "op AND 0x0f = 9" and "op + 1 = 136"
  from this(2) have "op = 136 - 1" by (simp only: eq_diff_eq)
  with \<open>op AND 0x0f = 9\<close> show False by simp
qed

lemma acts_content: "acts (on_content T ep len op ec bytes c) c"
proof -
  have nxt: "acts (bind_result r (\<lambda>c. Inr (c\<lparr>phase := Read_Head\<rparr>))) c" if "acts r c" for r
    by (rule acts_bind[OF that]) (simp add: acts_same)
  have pong: "op AND 0x0f = 9 \<Longrightarrow> acts (ws_send T (op + 1) [] None (c\<lparr>read_buffer := b\<rparr>)) c" for b
    by (rule acts_from[OF acts_ws_send[OF nibble_9]]) simp_all
  have msg: "acts (case onmessage ep of None \<Rightarrow> Inr (c\<lparr>read_buffer := b\<rparr>)
     | Some h \<Rightarrow> bind_result (timer_idle_reset T (c\<lparr>read_buffer := b\<rparr>))
         (\<lambda>c. h op m (note_event (Received op m) c))) c" for b m
    by (rule acts_from[OF acts_message]) simp_all
  show ?thesis
    unfolding on_content_def Let_def
    using nxt pong msg
    by (auto split: prod.splits intro!: acts_stop[OF acts_error] acts_closing)
qed

lemma acts_read_done: "acts (read_done T ep ec bytes c) c"
  by (simp add: read_done_def acts_head acts_length acts_content acts_same split: read_phase.splits)

lemma acts_handshake: "acts (handshake_written T ep ec c) c"
  unfolding handshake_written_def read_message_def
  by (simp add: acts_error acts_bind[OF acts_open] acts_same)

end
section \<open>Registration follows reading\<close>

definition keeps :: "connection result \<Rightarrow> connection \<Rightarrow> bool" where
  "keeps r c \<longleftrightarrow> (\<forall>c'. r = Inr c' \<longrightarrow> registered c' = registered c \<and> phase c' = phase c)"

definition leaves :: "connection result \<Rightarrow> bool" where
  "leaves r \<longleftrightarrow> (\<forall>c'. r = Inr c' \<longrightarrow> \<not> registered c')"

text \<open>A connection is registered while it is being read, and then it has its timer.\<close>

definition reading_inv :: "nat \<Rightarrow> connection \<Rightarrow> bool" where
  "reading_inv T c \<longleftrightarrow> (registered c \<longleftrightarrow> phase c \<noteq> Not_Reading)
     \<and> (registered c \<and> 0 < T \<longrightarrow> timer_idle c \<noteq> Null_Timer)
     \<and> (\<forall>n op. phase c = Read_Length n op \<longrightarrow> n = 2 \<or> n = 8)"

lemma keeps_simps [simp]: "keeps (Inl f) c" "keeps (Inr c) c"
  by (simp_all add: keeps_def)

lemma keeps_bind: "keeps r c \<Longrightarrow> (\<And>d. keeps (f d) d) \<Longrightarrow> keeps (bind_result r f) c"
  unfolding keeps_def by (cases r) auto

lemma keeps_timer: "keeps (timer_idle_reset T c) c" "keeps (timer_idle_cancel T c) c"
  by (auto simp: timer_idle_reset_def timer_idle_cancel_def keeps_def split: timer.splits)

lemma keeps_post: "keeps (Inr (post_send d c)) c"
  by (simp add: keeps_def post_send_def)

lemma keeps_ws_send: "keeps (ws_send T op m cb c) c"
  unfolding ws_send_def by (rule keeps_bind) (simp_all add: keeps_timer keeps_post)

lemma keeps_send_close: "keeps (send_close T st reason c) c"
  using keeps_ws_send[of T 136 "close_payload st reason" None "c\<lparr>closed := True\<rparr>"]
  by (simp add: send_close_def keeps_def)

lemma phase_head [simp]: "classify_head b = Extended n \<Longrightarrow> n = 2 \<or> n = 8"
  by (auto simp: classify_head_def Let_def split: if_splits)

lemma leaves_stop: "leaves r \<Longrightarrow> stop_reading r = Inr c' \<Longrightarrow> reading_inv T c'"
  by (cases r) (auto simp: stop_reading_def leaves_def reading_inv_def)

lemma leaves_bind: "(\<And>d. leaves (f d)) \<Longrightarrow> leaves (bind_result r f)"
  by (cases r) (simp_all add: leaves_def)

context ws_endpoint
begin

lemma benign_leaves: "benign h \<Longrightarrow> h c = Inr c' \<Longrightarrow> registered c' = registered c"
  by (auto simp: benign_def)

lemma leaves_close: "leaves (connection_close T ep status reason c)"
  unfolding connection_close_def
proof (rule leaves_bind)
  fix d show "leaves (let c' = d\<lparr>registered := False\<rparr> in case onclose ep of None \<Rightarrow> Inr c'
     | Some h \<Rightarrow> h status reason (note_event (Closed_With status reason) c'))"
    by (auto simp: Let_def leaves_def dest: benign_leaves[OF benign_close] split: option.splits)
qed

lemma leaves_error: "leaves (connection_error T ep c)"
  unfolding connection_error_def
proof (rule leaves_bind)
  fix d show "leaves (let c' = d\<lparr>registered := False\<rparr> in case onerror ep of None \<Rightarrow> Inr c'
     | Some h \<Rightarrow> h (note_event Failed c'))"
    by (auto simp: Let_def leaves_def dest: benign_leaves[OF benign_error] split: option.splits)
qed

lemma leaves_closing: "leaves (bind_result r (connection_close T ep status reason))"
  by (rule leaves_bind) (rule leaves_close)

lemma keeps_message:
  "keeps (case onmessage ep of None \<Rightarrow> Inr c
     | Some h \<Rightarrow> bind_result (timer_idle_reset T c) (\<lambda>c. h op m (note_event (Received op m) c))) c"
proof (cases "onmessage ep")
  case (Some h)
  have "keeps (h op m (note_event (Received op m) d)) d" for d
    using benign_message[OF Some] by (simp add: benign_def keeps_def)
  with Some show ?thesis by (simp add: keeps_bind keeps_timer)
qed simp

lemma timer_kept: "read_done T ep ec bytes c = Inr c' \<Longrightarrow> timer_idle c \<noteq> Null_Timer \<Longrightarrow> timer_idle c' \<noteq> Null_Timer"
  using acts_read_done[of ec bytes c] by (auto simp: acts_def effect_def)

text \<open>After a read, either reading has stopped and the connection has left the endpoint, or
  the next read is under way and it has not.\<close>

lemma stopped: "leaves r \<Longrightarrow> stop_reading r = Inr c' \<Longrightarrow> phase c' = Not_Reading \<and> \<not> registered c'"
  by (cases r) (auto simp: stop_reading_def leaves_def)

lemma read_done_phase:
  assumes "read_done T ep ec bytes c = Inr c'" and "phase c \<noteq> Not_Reading"
  shows "phase c' = Not_Reading \<and> \<not> registered c'
    \<or> registered c' = registered c \<and> phase c' \<noteq> Not_Reading
      \<and> (\<forall>n op. phase c' = Read_Length n op \<longrightarrow> n = 2 \<or> n = 8)"
proof (cases "phase c")
  case Read_Head
  with assms show ?thesis
    by (auto simp: read_done_def on_head_def Let_def
        dest: stopped[OF leaves_error] stopped[OF leaves_closing] phase_head split: if_splits head.splits)
next
  case (Read_Length n op)
  with assms show ?thesis
    by (auto simp: read_done_def on_length_def Let_def bind_result_eq_Inr
        dest: stopped[OF leaves_error] split: if_splits)
next
  case (Read_Content len op)
  have pong: "keeps (ws_send T (op + 1) [] None (c\<lparr>read_buffer := b\<rparr>)) (c\<lparr>read_buffer := b\<rparr>)" for b
    by (rule keeps_ws_send)
  have msg: "keeps (case onmessage ep of None \<Rightarrow> Inr (c\<lparr>read_buffer := b\<rparr>)
     | Some h \<Rightarrow> bind_result (timer_idle_reset T (c\<lparr>read_buffer := b\<rparr>))
        (\<lambda>c. h op m (note_event (Received op m) c))) (c\<lparr>read_buffer := b\<rparr>)" for b m
    by (rule keeps_message)
  have nxt: "registered c' = registered c \<and> phase c' = Read_Head"
    if "keeps r (c\<lparr>read_buffer := b\<rparr>)" "bind_result r (\<lambda>c. Inr (c\<lparr>phase := Read_Head\<rparr>)) = Inr c'" for r b
    using that by (auto simp: keeps_def bind_result_eq_Inr)
  from assms(1) Read_Content have oc: "on_content T ep len op ec bytes c = Inr c'" by (simp add: read_done_def)
  show ?thesis
  proof (cases "ec \<or> op AND 0x0f = 8")
    case True
    with oc have "phase c' = Not_Reading \<and> \<not> registered c'"
      by (auto simp: on_content_def Let_def dest: stopped[OF leaves_error] stopped[OF leaves_closing]
          split: if_splits prod.splits)
    then show ?thesis ..
  next
    case False
    with oc have "registered c' = registered c \<and> phase c' = Read_Head"
      unfolding on_content_def Let_def
      by (cases "op AND 0x0f = 9") (auto dest!: nxt[OF pong] nxt[OF msg])
    then show ?thesis by simp
  qed
qed (use assms(2) in simp)

lemma read_done_inv:
  assumes "reading_inv T c" and "read_done T ep ec bytes c = Inr c'"
  shows "reading_inv T c'"
proof (cases "phase c = Not_Reading")
  case True
  with assms show ?thesis by (simp add: read_done_def)
next
  case False
  from read_done_phase[OF assms(2) this] show ?thesis
    using assms timer_kept[OF assms(2)] False by (auto simp: reading_inv_def)
qed

lemma handshake_inv:
  assumes "handshake_written T ep False c = Inr c'"
  shows "reading_inv T c'"
proof -
  from assms obtain d where d: "connection_open T ep c = Inr d" and c': "c' = d\<lparr>phase := Read_Head\<rparr>"
    by (auto simp: handshake_written_def read_message_def bind_result_eq_Inr)
  let ?c = "(timer_idle_init T c)\<lparr>registered := True\<rparr>"
  have t: "0 < T \<longrightarrow> timer_idle ?c \<noteq> Null_Timer" by (simp add: timer_idle_init_def)
  have "registered d \<and> (0 < T \<longrightarrow> timer_idle d \<noteq> Null_Timer)"
  proof (cases "onopen ep")
    case None
    with d t show ?thesis by (auto simp: connection_open_def Let_def)
  next
    case (Some h)
    with d have "h (note_event Opened ?c) = Inr d" by (simp add: connection_open_def Let_def)
    moreover have "benign h" using Some by (rule benign_open)
    ultimately show ?thesis using t by (fastforce simp: benign_def acts_def effect_def)
  qed
  with c' show ?thesis by (simp add: reading_inv_def)
qed

end
section \<open>Runs of a connection\<close>

text \<open>
  A run starts when the handshake has been written, with whatever the handshake's read left
  in the buffer. Then reads complete (with the bytes asked for, with none for the frame
  head, or with an error), the timer expires, the application sends or closes, and the
  sending side moves on in any way. The list holds the frames posted so far.
\<close>

definition read_result :: "read_phase \<Rightarrow> bool \<Rightarrow> byte list \<Rightarrow> bool" where
  "read_result p ec bytes \<longleftrightarrow> p \<noteq> Not_Reading
     \<and> (\<not> ec \<longrightarrow> length bytes = wanted p \<or> p = Read_Head \<and> bytes = [])"

inductive conn_runs :: "nat \<Rightarrow> endpoint \<Rightarrow> send_data list \<Rightarrow> connection \<Rightarrow> bool" for T ep where
  cr_open: "handshake_written T ep False (connection_ctor\<lparr>read_buffer := lo\<rparr>) = Inr c \<Longrightarrow>
     posts (connection_ctor\<lparr>read_buffer := lo\<rparr>) ds c \<Longrightarrow> conn_runs T ep ds c"
| cr_read: "conn_runs T ep ds c \<Longrightarrow> read_result (phase c) ec bytes \<Longrightarrow>
     read_done T ep ec bytes c = Inr d \<Longrightarrow> posts c es d \<Longrightarrow> conn_runs T ep (ds @ es) d"
| cr_timer: "conn_runs T ep ds c \<Longrightarrow> timer_idle c = Waiting \<Longrightarrow>
     timer_idle_expired T c = Inr d \<Longrightarrow> posts c es d \<Longrightarrow> conn_runs T ep (ds @ es) d"
| cr_send: "conn_runs T ep ds c \<Longrightarrow> op \<noteq> 136 \<Longrightarrow> ws_send T op m cb c = Inr d \<Longrightarrow>
     posts c es d \<Longrightarrow> conn_runs T ep (ds @ es) d"
| cr_close: "conn_runs T ep ds c \<Longrightarrow> send_close T st reason c = Inr d \<Longrightarrow>
     posts c es d \<Longrightarrow> conn_runs T ep (ds @ es) d"
| cr_strand: "conn_runs T ep ds c \<Longrightarrow>
     conn_runs T ep ds (c\<lparr>strand := a, send_queue := q, writes := w, wire := out, called := k\<rparr>)"

definition closes_ok :: "send_data list \<Rightarrow> connection \<Rightarrow> bool" where
  "closes_ok ds c \<longleftrightarrow> length (filter is_close ds) = (if closed c then 1 else 0)"

lemma closes_ok_acts:
  "closes_ok ds c \<Longrightarrow> acts r c \<Longrightarrow> r = Inr d \<Longrightarrow> posts c es d \<Longrightarrow> closes_ok (ds @ es) d"
proof -
  assume c: "closes_ok ds c" and a: "acts r c" "r = Inr d" and p: "posts c es d"
  from a obtain fs where f: "effect c fs d" by (auto simp: acts_def)
  then have "posts c fs d" by (simp add: effect_def)
  with p have "fs = es" by (rule posts_unique[rotated])
  with f c show ?thesis by (auto simp: closes_ok_def effect_def split: if_splits)
qed

lemma inv_keeps:
  "reading_inv T c \<Longrightarrow> acts r c \<Longrightarrow> keeps r c \<Longrightarrow> r = Inr d \<Longrightarrow> reading_inv T d"
proof -
  assume i: "reading_inv T c" and a: "acts r c" and k: "keeps r c" and r: "r = Inr d"
  from a r have "timer_idle c \<noteq> Null_Timer \<longrightarrow> timer_idle d \<noteq> Null_Timer" by (auto simp: acts_def effect_def)
  moreover from k r have "registered d = registered c" "phase d = phase c" by (auto simp: keeps_def)
  ultimately show ?thesis using i by (simp add: reading_inv_def)
qed

lemma acts_expired: "acts (timer_idle_expired T c) c"
  unfolding timer_idle_expired_def by (rule acts_from[OF acts_send_close]) simp_all

lemma keeps_expired: "keeps (timer_idle_expired T c) c"
  using keeps_send_close[of T 1000 "bytes_of ''idle timeout''" "c\<lparr>timer_idle := Not_Waiting\<rparr>"]
  by (simp add: timer_idle_expired_def keeps_def)

context ws_endpoint
begin

lemma conn_runs_inv: "conn_runs T ep ds c \<Longrightarrow> closes_ok ds c \<and> reading_inv T c"
proof (induction rule: conn_runs.induct)
  case (cr_open lo c ds)
  have "closes_ok [] (connection_ctor\<lparr>read_buffer := lo\<rparr>)" by (simp add: closes_ok_def connection_ctor_def)
  from closes_ok_acts[OF this acts_handshake cr_open] show ?case
    using handshake_inv[OF cr_open(1)] by simp
next
  case (cr_read ds c ec bytes d es)
  then show ?case using closes_ok_acts[OF _ acts_read_done] read_done_inv by blast
next
  case (cr_timer ds c d es)
  then show ?case using closes_ok_acts[OF _ acts_expired] inv_keeps[OF _ acts_expired keeps_expired] by blast
next
  case (cr_send ds c op m cb d es)
  then show ?case using closes_ok_acts[OF _ acts_ws_send] inv_keeps[OF _ acts_ws_send keeps_ws_send] by blast
next
  case (cr_close ds c st reason d es)
  then show ?case
    using closes_ok_acts[OF _ acts_send_close] inv_keeps[OF _ acts_send_close keeps_send_close] by blast
next
  case (cr_strand ds c a q w out k)
  then show ?case by (simp add: closes_ok_def reading_inv_def)
qed

end

section \<open>Endpoints whose callbacks return\<close>

definition has_timer :: "nat \<Rightarrow> connection \<Rightarrow> bool" where
  "has_timer T c \<longleftrightarrow> (0 < T \<longrightarrow> timer_idle c \<noteq> Null_Timer)"

definition returning :: "nat \<Rightarrow> connection result \<Rightarrow> bool" where
  "returning T r \<longleftrightarrow> (\<exists>c. r = Inr c \<and> has_timer T c)"

lemma returning_Inr [simp]: "returning T (Inr c) \<longleftrightarrow> has_timer T c" "\<not> returning T (Inl f)"
  by (simp_all add: returning_def)

lemma returning_bind: "returning T r \<Longrightarrow> (\<And>d. has_timer T d \<Longrightarrow> returning T (f d)) \<Longrightarrow> returning T (bind_result r f)"
  by (auto simp: returning_def)

lemma has_timer_update [simp]:
  "has_timer T (c\<lparr>closed := x1\<rparr>) = has_timer T c" "has_timer T (c\<lparr>read_buffer := x3\<rparr>) = has_timer T c"
  "has_timer T (c\<lparr>phase := x4\<rparr>) = has_timer T c" "has_timer T (c\<lparr>registered := x5\<rparr>) = has_timer T c"
  "has_timer T (note_event e c) = has_timer T c" "has_timer T (post_send d c) = has_timer T c"
  by (simp_all add: has_timer_def note_event_def post_send_def)

lemma returning_timer:
  "has_timer T c \<Longrightarrow> returning T (timer_idle_reset T c)"
  "has_timer T c \<Longrightarrow> returning T (timer_idle_cancel T c)"
  by (auto simp: timer_idle_reset_def timer_idle_cancel_def has_timer_def split: timer.splits)

lemma returning_ws_send: "has_timer T c \<Longrightarrow> returning T (ws_send T op m cb c)"
  unfolding ws_send_def by (rule returning_bind) (simp_all add: returning_timer)

lemma returning_send_close: "has_timer T c \<Longrightarrow> returning T (send_close T st reason c)"
  by (simp add: send_close_def returning_ws_send)

locale safe_ws_endpoint = ws_endpoint +
  assumes open_returns: "onopen ep = Some h \<Longrightarrow> has_timer T c \<Longrightarrow> returning T (h c)"
    and message_returns: "onmessage ep = Some h' \<Longrightarrow> has_timer T c \<Longrightarrow> returning T (h' op m c)"
    and error_returns: "onerror ep = Some h \<Longrightarrow> has_timer T c \<Longrightarrow> returning T (h c)"
    and close_returns: "onclose ep = Some h'' \<Longrightarrow> has_timer T c \<Longrightarrow> returning T (h'' status reason c)"
begin

lemma returning_close: "has_timer T c \<Longrightarrow> returning T (connection_close T ep status reason c)"
  unfolding connection_close_def
  by (rule returning_bind) (auto simp: returning_timer Let_def close_returns split: option.splits)

lemma returning_error: "has_timer T c \<Longrightarrow> returning T (connection_error T ep c)"
  unfolding connection_error_def
  by (rule returning_bind) (auto simp: returning_timer Let_def error_returns split: option.splits)

lemma returning_stop: "returning T r \<Longrightarrow> returning T (stop_reading r)"
  unfolding stop_reading_def by (erule returning_bind) simp

lemma returning_closing:
  "has_timer T c \<Longrightarrow> returning T (stop_reading (bind_result (send_close T status reason c)
     (connection_close T ep status reason)))"
  by (intro returning_stop returning_bind returning_send_close returning_close)

lemma returning_message:
  assumes "has_timer T c"
  shows "returning T (case onmessage ep of None \<Rightarrow> Inr c
     | Some h \<Rightarrow> bind_result (timer_idle_reset T c) (\<lambda>c. h op m (note_event (Received op m) c)))"
proof (cases "onmessage ep")
  case (Some h)
  have "returning T (bind_result (timer_idle_reset T c) (\<lambda>c. h op m (note_event (Received op m) c)))"
    by (rule returning_bind[OF returning_timer(1)[OF assms]]) (rule message_returns[OF Some], simp)
  with Some show ?thesis by simp
qed (use assms in simp)

lemma returning_head:
  assumes "has_timer T c"
  shows "returning T (on_head T ep ec bytes c)"
  unfolding on_head_def Let_def
  by (auto simp: assms returning_closing returning_stop returning_error split: head.splits)

lemma returning_content:
  assumes t: "has_timer T c"
  shows "returning T (on_content T ep len op ec bytes c)"
proof -
  define d where "d = c\<lparr>read_buffer := drop (4 + len) (read_buffer c @ bytes)\<rparr>"
  define m where "m = unmask (take 4 (read_buffer c @ bytes)) (take len (drop 4 (read_buffer c @ bytes)))"
  have d: "has_timer T d" using t by (simp add: d_def)
  have "returning T (bind_result
      (if op AND 0x0f = 9 then ws_send T (op + 1) [] None d
       else case onmessage ep of None \<Rightarrow> Inr d
         | Some h \<Rightarrow> bind_result (timer_idle_reset T d) (\<lambda>c. h op m (note_event (Received op m) c)))
      (\<lambda>c. Inr (c\<lparr>phase := Read_Head\<rparr>)))"
    by (rule returning_bind) (simp_all add: returning_ws_send[OF d] returning_message[OF d])
  moreover have "returning T (stop_reading (bind_result (send_close T status reason d)
     (connection_close T ep status reason)))" for status reason
    by (rule returning_closing[OF d])
  moreover have "returning T (stop_reading (connection_error T ep c))"
    by (rule returning_stop[OF returning_error[OF t]])
  ultimately show ?thesis
    unfolding on_content_def Let_def d_def[symmetric] m_def[symmetric]
    by (simp split del: option.split split: prod.splits)
qed

lemma read_done_fault:
  assumes "reading_inv T c" and "read_result (phase c) ec bytes"
  shows "read_done T ep ec bytes c = Inl f \<longleftrightarrow>
    f = Undefined_Behaviour \<and> \<not> ec \<and> (\<exists>op. phase c = Read_Length 8 op)"
proof -
  have t: "has_timer T c" and p: "phase c \<noteq> Not_Reading"
    using assms by (auto simp: reading_inv_def read_result_def has_timer_def)
  have ok: "r \<noteq> Inl f" if "returning T r" for r
    using that by auto
  show ?thesis
  proof (cases "phase c")
    case Read_Head
    with ok[OF returning_head[OF t]] show ?thesis by (simp add: read_done_def)
  next
    case (Read_Length n op)
    then have n: "n = 2 \<or> n = 8" using assms(1) by (auto simp: reading_inv_def)
    define lb where "lb = take n ((read_buffer c @ bytes) @ replicate n 0)"
    have "length lb = n" by (simp add: lb_def)
    with n have "read_length lb = (if n = 8 then Inl Undefined_Behaviour else Inr (256 * unat (lb ! 0) + unat (lb ! 1)))"
      using read_length_eight[of lb] read_length_two[of "lb ! 0" "lb ! 1"]
      by (auto simp: length_Suc_conv numeral_2_eq_2)
    moreover have "stop_reading (connection_error T ep c) \<noteq> Inl f"
      by (rule ok[OF returning_stop[OF returning_error[OF t]]])
    moreover have "on_length T ep n op ec bytes c = (if ec then stop_reading (connection_error T ep c)
       else bind_result (read_length lb) (\<lambda>len. Inr (c\<lparr>read_buffer := drop n (read_buffer c @ bytes),
         phase := Read_Content len op\<rparr>)))"
      unfolding on_length_def Let_def lb_def by (rule refl)
    ultimately show ?thesis using Read_Length n by (auto simp: read_done_def)
  next
    case (Read_Content len op)
    with ok[OF returning_content[OF t]] show ?thesis by (simp add: read_done_def)
  qed (use p in simp)
qed

end
end
