(* ===== verification/Ws_Endpoints.thy ===== *)
theory Ws_Endpoints
  imports Ws_Connection
begin

text \<open>
  The two endpoints \<^verbatim>\<open>src/bot.cpp\<close> registers, as interpretations of the interface of
  \<open>Ws_Connection\<close>, and what a client sees of a connection: the frames it sends are delivered
  unmasked and in order, pings and close frames are answered, and which frames the reader
  cannot handle.
\<close>

section \<open>The endpoints of the bot\<close>

text \<open>Output to the console does not change the connection. The callback of the echo is number 0.\<close>

definition echo_onmessage :: "nat \<Rightarrow> byte \<Rightarrow> byte list \<Rightarrow> connection \<Rightarrow> connection result" where
  "echo_onmessage T fin_rsv_opcode message_str c = ws_send T 129 message_str (Some 0) c"

definition echo_endpoint :: "nat \<Rightarrow> endpoint" where
  "echo_endpoint T = \<lparr>onopen = Some Inr, onmessage = Some (echo_onmessage T), onerror = Some Inr,
     onclose = Some (\<lambda>status reason. Inr)\<rparr>"

text \<open>
  The channel endpoint, as far as its callbacks change the connection: messages are dropped, and
  closing and errors do nothing. What its \<open>onopen\<close> does besides, creating an object of
  \<open>Twitch_Client\<close> that keeps a pointer to the connection and sends on it later, changes the state
  of the program: \<open>new_twitch_client\<close> of \<open>Bot_Loop\<close>, which runs when the handshake has been written.
\<close>

definition channel_endpoint :: endpoint where
  "channel_endpoint = \<lparr>onopen = Some Inr, onmessage = Some (\<lambda>fin_rsv_opcode message_str. Inr),
     onerror = Some Inr, onclose = Some (\<lambda>status reason. Inr)\<rparr>"

lemma benign_Inr [simp]: "benign Inr"
  by (simp add: benign_def acts_same)

lemma benign_ws_send: "op \<noteq> 136 \<Longrightarrow> benign (ws_send T op m cb)"
  unfolding benign_def
  by (simp add: acts_ws_send)
    (auto simp: ws_send_def bind_result_eq_Inr timer_idle_reset_def post_send_def split: if_splits timer.splits)

lemma benign_echo: "benign (echo_onmessage T op m)"
proof -
  have "echo_onmessage T op m = ws_send T 129 m (Some 0)" by (rule ext) (simp add: echo_onmessage_def)
  then show ?thesis by (simp add: benign_ws_send)
qed

interpretation echo: safe_ws_endpoint T "echo_endpoint T" for T
proof unfold_locales
  show "onmessage (echo_endpoint T) = Some h' \<Longrightarrow> benign (h' op m)" for h' op m
    by (auto simp: echo_endpoint_def benign_echo)
  show "onmessage (echo_endpoint T) = Some h' \<Longrightarrow> has_timer T c \<Longrightarrow> returning T (h' op m c)" for h' op m c
    by (auto simp: echo_endpoint_def echo_onmessage_def returning_ws_send)
qed (auto simp: echo_endpoint_def)

interpretation channel: safe_ws_endpoint T channel_endpoint for T
  by unfold_locales (auto simp: channel_endpoint_def)

section \<open>Reading a whole frame\<close>

lemma read_length_put: "n \<le> 0xffff \<Longrightarrow> read_length (put_length 2 n) = Inr n"
proof -
  assume "n \<le> 0xffff"
  have "put_length 2 n = put_length (Suc (Suc 0)) n" by (simp only: numeral_2_eq_2)
  also have "\<dots> = [of_nat (n div 256 mod 256), of_nat (n mod 256)]" by simp
  finally show ?thesis using \<open>n \<le> 0xffff\<close> by (simp add: read_length_two unat_of_nat)
qed

text \<open>What the server does with a frame, once its content is there: the frame rule of \<open>feed\<close>.\<close>

definition handle_frame :: "nat \<Rightarrow> endpoint \<Rightarrow> byte \<Rightarrow> byte list \<Rightarrow> connection \<Rightarrow> connection result" where
  "handle_frame T ep op payload c =
     (if op AND 0x0f = 8 then
        (let (status, reason) = close_status payload
         in stop_reading (bind_result (send_close T status reason c) (connection_close T ep status reason)))
      else
        bind_result
          (if op AND 0x0f = 9 then ws_send T (op + 1) [] None c
           else case onmessage ep of None \<Rightarrow> Inr c
             | Some h \<Rightarrow> bind_result (timer_idle_reset T c)
                 (\<lambda>c. h op payload (note_event (Received op payload) c)))
          (\<lambda>c. Inr (c\<lparr>phase := Read_Head\<rparr>)))"

lemma feed_step:
  "wanted (phase c) = k \<Longrightarrow> 0 < k \<Longrightarrow> length bs = k \<Longrightarrow>
   feed T ep (bs @ r) c = bind_result (read_done T ep False bs c) (feed T ep r)"
  by (subst feed.simps) (cases "read_done T ep False bs c"; simp)

lemma feed_content:
  assumes "phase c = Read_Content (length payload) op" "read_buffer c = []" "length key = 4"
  shows "feed T ep (key @ unmask key payload @ r) c = bind_result (handle_frame T ep op payload c) (feed T ep r)"
proof -
  have c: "c\<lparr>read_buffer := []\<rparr> = c" using assms(2) by simp
  have "feed T ep ((key @ unmask key payload) @ r) c
    = bind_result (read_done T ep False (key @ unmask key payload) c) (feed T ep r)"
    by (rule feed_step) (use assms in simp_all)
  moreover have "read_done T ep False (key @ unmask key payload) c = handle_frame T ep op payload c"
  proof -
    have "take 4 (key @ unmask key payload) = key"
      "take (length payload) (drop 4 (key @ unmask key payload)) = unmask key payload"
      "drop (4 + length payload) (key @ unmask key payload) = []"
      using assms(3) by simp_all
    then show ?thesis
      unfolding read_done_def assms(1) read_phase.case on_content_def Let_def handle_frame_def assms(2) append_Nil
      by (simp only: c unmask_unmask if_False)
  qed
  ultimately show ?thesis by simp
qed

lemma feed_frame:
  assumes "phase c = Read_Head" "read_buffer c = []" "length key = 4" "length payload \<le> 0xffff"
  shows "feed T ep (client_frame op key payload @ r) c =
    bind_result (handle_frame T ep op payload (c\<lparr>phase := Read_Content (length payload) op\<rparr>)) (feed T ep r)"
proof (cases "length payload < 126")
  case True
  let ?l = "of_nat (128 + length payload) :: byte"
  have "feed T ep ([op, ?l] @ key @ unmask key payload @ r) c
    = bind_result (read_done T ep False [op, ?l] c) (feed T ep (key @ unmask key payload @ r))"
    by (rule feed_step) (use assms in simp_all)
  also have "read_done T ep False [op, ?l] c = Inr (c\<lparr>phase := Read_Content (length payload) op\<rparr>)"
    using assms classify_head_short[OF True] by (simp add: read_done_def on_head_def)
  finally show ?thesis using assms True by (simp add: client_frame_def rfc_mask_unmask feed_content)
next
  case False
  let ?l = "put_length 2 (length payload)"
  have "feed T ep ([op, 254] @ ?l @ key @ unmask key payload @ r) c
    = bind_result (read_done T ep False [op, 254] c) (feed T ep (?l @ key @ unmask key payload @ r))"
    by (rule feed_step) (use assms in simp_all)
  also have "read_done T ep False [op, 254] c = Inr (c\<lparr>phase := Read_Length 2 op\<rparr>)"
    using assms by (simp add: read_done_def on_head_def)
  also have "bind_result (Inr (c\<lparr>phase := Read_Length 2 op\<rparr>)) (feed T ep (?l @ key @ unmask key payload @ r))
    = bind_result (read_done T ep False ?l (c\<lparr>phase := Read_Length 2 op\<rparr>))
        (feed T ep (key @ unmask key payload @ r))"
    unfolding bind_result_simps by (rule feed_step) (simp_all add: assms)
  also have "read_done T ep False ?l (c\<lparr>phase := Read_Length 2 op\<rparr>)
    = Inr (c\<lparr>phase := Read_Content (length payload) op\<rparr>)"
    using assms by (simp add: read_done_def on_length_def read_length_put)
  finally show ?thesis using assms False by (simp add: client_frame_def rfc_mask_unmask feed_content)
qed

section \<open>Frames of a connection\<close>

lemma reset_timer: "has_timer T c \<Longrightarrow> timer_idle_reset T c = Inr c"
  by (cases "timer_idle c") (auto simp: timer_idle_reset_def has_timer_def)

lemma cancel_timer:
  "has_timer T c \<Longrightarrow> timer_idle_cancel T c = Inr (if 0 < T then c\<lparr>timer_idle := Not_Waiting\<rparr> else c)"
  by (auto simp: timer_idle_cancel_def has_timer_def)

text \<open>The state in which the server waits for the next frame with nothing left over.\<close>

definition awaiting :: "nat \<Rightarrow> connection \<Rightarrow> bool" where
  "awaiting T c \<longleftrightarrow> phase c = Read_Head \<and> read_buffer c = [] \<and> registered c \<and> has_timer T c"

lemma has_timer_events [simp]: "has_timer T (c\<lparr>events := es\<rparr>) = has_timer T c"
  by (simp add: has_timer_def)

definition reply_frame :: "byte \<Rightarrow> byte list \<Rightarrow> nat option \<Rightarrow> send_data" where
  "reply_frame op m cb = \<lparr>header_stream = frame_header op (length m), message_stream = m, callback = cb\<rparr>"

lemma ws_send_timer: "has_timer T c \<Longrightarrow> ws_send T op m cb c = Inr (post_send (reply_frame op m cb) c)"
  by (simp add: ws_send_def reset_timer reply_frame_def)

text \<open>Opcode, masking key and payload of a frame that is neither close nor ping.\<close>

type_synonym data_frame = "byte \<times> byte list \<times> byte list"

fun frame_wire :: "data_frame \<Rightarrow> byte list" where
  "frame_wire (op, key, payload) = client_frame op key payload"

fun frame_ok :: "data_frame \<Rightarrow> bool" where
  "frame_ok (op, key, payload) \<longleftrightarrow>
     op AND 0x0f \<noteq> 8 \<and> op AND 0x0f \<noteq> 9 \<and> length key = 4 \<and> length payload \<le> 0xffff"

fun echo_of :: "data_frame \<Rightarrow> send_data" where
  "echo_of (op, key, payload) = reply_frame 129 payload (Some 0)"

fun received :: "data_frame \<Rightarrow> ws_event" where
  "received (op, key, payload) = Received op payload"

definition echoed :: "data_frame list \<Rightarrow> connection \<Rightarrow> connection" where
  "echoed fs c = c\<lparr>strand := strand c @ map (Post_Send \<circ> echo_of) fs, events := events c @ map received fs\<rparr>"

lemma feed_nil: "awaiting T c \<Longrightarrow> feed T ep [] c = Inr (c, [])"
  by (subst feed.simps) (simp add: awaiting_def)

lemma feed_awaiting:
  assumes "awaiting T c" "length key = 4" "length payload \<le> 0xffff"
  shows "feed T ep (client_frame op key payload @ r) c =
    bind_result (handle_frame T ep op payload (c\<lparr>phase := Read_Content (length payload) op\<rparr>)) (feed T ep r)"
  using assms by (intro feed_frame) (simp_all add: awaiting_def)

lemma feed_echo:
  assumes "awaiting T c" "frame_ok f"
  shows "feed T (echo_endpoint T) (frame_wire f @ r) c = feed T (echo_endpoint T) r (echoed [f] c)"
proof -
  obtain op key payload where f: "f = (op, key, payload)" by (cases f) auto
  let ?c = "c\<lparr>phase := Read_Content (length payload) op\<rparr>"
  have t: "has_timer T ?c" and ph: "phase c = Read_Head" using assms(1) by (simp_all add: awaiting_def)
  have "c\<lparr>phase := Read_Head\<rparr> = c" using ph by simp
  with t have "handle_frame T (echo_endpoint T) op payload ?c = Inr (echoed [f] c)"
    using assms f
    by (simp add: handle_frame_def echo_endpoint_def echo_onmessage_def reset_timer ws_send_timer
        echoed_def post_send_def note_event_def awaiting_def)
  with assms f show ?thesis by (simp add: feed_awaiting)
qed

lemma awaiting_echoed: "awaiting T c \<Longrightarrow> awaiting T (echoed fs c)"
  by (simp add: awaiting_def echoed_def has_timer_def)

lemma echoed_append: "echoed gs (echoed fs c) = echoed (fs @ gs) c"
  by (simp add: echoed_def)

lemma feed_echoes:
  "awaiting T c \<Longrightarrow> list_all frame_ok fs \<Longrightarrow>
   feed T (echo_endpoint T) (concat (map frame_wire fs) @ r) c = feed T (echo_endpoint T) r (echoed fs c)"
proof (induction fs arbitrary: c)
  case Nil
  then show ?case by (simp add: echoed_def)
next
  case (Cons f fs)
  then show ?case by (simp add: feed_echo awaiting_echoed echoed_append)
qed

text \<open>A connection right after its handshake, with nothing left over.\<close>

definition opened :: "nat \<Rightarrow> connection" where
  "opened T = connection_ctor\<lparr>timer_idle := (if 0 < T then Waiting else Null_Timer), registered := True,
     phase := Read_Head, events := [Opened]\<rparr>"

lemma opened_echo: "handshake_written T (echo_endpoint T) False connection_ctor = Inr (opened T)"
  by (simp add: handshake_written_def connection_open_def timer_idle_init_def echo_endpoint_def
      note_event_def read_message_def opened_def connection_ctor_def)

lemma awaiting_opened [simp]: "awaiting T (opened T)"
  by (simp add: awaiting_def opened_def has_timer_def connection_ctor_def)

lemma posts_runs:
  "runs errors s ds t \<Longrightarrow> runs errors s (ds @ es) (t\<lparr>strand := strand t @ map Post_Send es\<rparr>)"
proof (induction es rule: rev_induct)
  case (snoc e es)
  from runs_post[OF snoc.IH[OF snoc.prems], of e] show ?case by (simp add: post_send_def)
qed simp

lemma truncate_echoed:
  "sender.truncate (echoed fs (opened T)) = init_sender\<lparr>strand := map Post_Send (map echo_of fs)\<rparr>"
  by (simp add: sender.truncate_def echoed_def opened_def connection_ctor_def init_sender_def)

section \<open>Properties\<close>

text \<open>A client sends any sequence of data frames of at most 65535 bytes, each masked with its own
  key, after the handshake of the echo endpoint. All bytes are consumed, the callback gets
  every payload unmasked and in order, and some steps of the sending side lead to a quiet
  connection that has written exactly one text frame per payload, in the same order.\<close>

theorem echo_end_to_end:
  assumes "list_all frame_ok fs"
  shows "\<exists>c. feed T (echo_endpoint T) (concat (map frame_wire fs)) (opened T) = Inr (c, [])
    \<and> awaiting T c \<and> events c = Opened # map received fs
    \<and> (\<exists>u. ok_step\<^sup>*\<^sup>* (sender.truncate c) u \<and> quiet u
        \<and> wire u = concat (map (\<lambda>(op, key, payload). frame_header 129 (length payload) @ payload) fs))"
proof (rule exI, intro conjI)
  show "feed T (echo_endpoint T) (concat (map frame_wire fs)) (opened T) = Inr (echoed fs (opened T), [])"
    using feed_echoes[OF awaiting_opened assms, of T "[]"] feed_nil[OF awaiting_echoed[OF awaiting_opened]] by simp
  show "awaiting T (echoed fs (opened T))" by (simp add: awaiting_echoed)
  show "events (echoed fs (opened T)) = Opened # map received fs" by (simp add: echoed_def opened_def)
next
  have runs: "runs False init_sender ([] @ map echo_of fs) (init_sender\<lparr>strand := strand init_sender @ map Post_Send (map echo_of fs)\<rparr>)"
    by (rule posts_runs[OF runs_start])
  let ?s = "sender.truncate (echoed fs (opened T))"
  have "runs False init_sender (map echo_of fs) ?s"
    using runs by (simp add: truncate_echoed) (simp add: init_sender_def)
  from ws.session_total[OF runs_session[OF this] send_inv_init]
  have inv: "send_inv ?s" and str: "stream ?s = concat (map frame_bytes (map echo_of fs))" by simp_all
  have enc: "map frame_bytes (map echo_of fs) = map (\<lambda>(op, key, payload). frame_header 129 (length payload) @ payload) fs"
    by (auto simp: frame_bytes_def reply_frame_def)
  show "\<exists>u. ok_step\<^sup>*\<^sup>* ?s u \<and> quiet u \<and> wire u = concat (map (\<lambda>(op, key, payload). frame_header 129 (length payload) @ payload) fs)"
    using reaches_quiet[OF inv] str enc quiet_stream by metis
qed

theorem echo_end_to_end_witness:
  "\<exists>c. feed 0 (echo_endpoint 0) (frame_wire (129, [1, 2, 3, 4], [104, 105])) (opened 0) = Inr (c, [])
    \<and> events c = [Opened, Received 129 [104, 105]]
    \<and> (\<exists>u. ok_step\<^sup>*\<^sup>* (sender.truncate c) u \<and> wire u = [129, 2, 104, 105])"
  using echo_end_to_end[of "[(129, [1, 2, 3, 4], [104, 105])]" 0]
  by (auto simp: frame_header_def simp del: frame_wire.simps)

text \<open>C22: A masked frame with a payload of more than 65535 bytes, which any conforming client may
  send, takes the reader of every endpoint into a shift by 56 bits: undefined behaviour.\<close>

theorem large_frame_undefined:
  assumes "awaiting T c" "0xffff < length payload"
  shows "feed T ep (client_frame op key payload @ r) c = Inl Undefined_Behaviour"
proof -
  let ?l = "put_length 8 (length payload)"
  have "feed T ep ([op, 255] @ ?l @ key @ rfc_mask key payload @ r) c
    = bind_result (read_done T ep False [op, 255] c) (feed T ep (?l @ key @ rfc_mask key payload @ r))"
    by (rule feed_step) (use assms in \<open>simp_all add: awaiting_def\<close>)
  also have "read_done T ep False [op, 255] c = Inr (c\<lparr>phase := Read_Length 8 op\<rparr>)"
    using assms by (simp add: read_done_def on_head_def awaiting_def)
  also have "bind_result (Inr (c\<lparr>phase := Read_Length 8 op\<rparr>)) (feed T ep (?l @ key @ rfc_mask key payload @ r))
    = bind_result (read_done T ep False ?l (c\<lparr>phase := Read_Length 8 op\<rparr>))
        (feed T ep (key @ rfc_mask key payload @ r))"
    unfolding bind_result_simps by (rule feed_step) simp_all
  also have "read_done T ep False ?l (c\<lparr>phase := Read_Length 8 op\<rparr>) = Inl Undefined_Behaviour"
    using assms by (simp add: read_done_def on_length_def awaiting_def read_length_eight)
  finally show ?thesis using assms(2) by (simp add: client_frame_def)
qed

theorem large_frame_undefined_witness:
  "feed 0 (echo_endpoint 0) (client_frame 129 [1, 2, 3, 4] (replicate 70000 0)) (opened 0) = Inl Undefined_Behaviour"
proof -
  have "0xffff < length (replicate 70000 (0 :: byte))" unfolding length_replicate by simp
  from large_frame_undefined[OF awaiting_opened this, of 0 "echo_endpoint 0" 129 "[1, 2, 3, 4]" "[]"]
  show ?thesis unfolding append_Nil2 .
qed

lemma phase_back: "phase c = Read_Head \<Longrightarrow> post_send d (c\<lparr>phase := p\<rparr>)\<lparr>phase := Read_Head\<rparr> = post_send d c"
  by (cases c) (simp add: post_send_def)

text \<open>A ping is answered at once by a frame with the ping's flags, the opcode pong and no payload:
  the application data of the ping is dropped. Reading goes on and the callback is not called.\<close>

theorem ping_pong:
  assumes "awaiting T c" "op AND 0x0f = 9" "length key = 4" "length payload \<le> 0xffff"
  shows "feed T ep (client_frame op key payload @ r) c
      = feed T ep r (post_send (reply_frame (op + 1) [] None) c)
    \<and> frame_bytes (reply_frame (op + 1) [] None) = [op + 1, 0]"
proof
  have "phase c = Read_Head" and t: "has_timer T c" using assms(1) by (simp_all add: awaiting_def)
  then have "handle_frame T ep op payload (c\<lparr>phase := Read_Content (length payload) op\<rparr>)
      = Inr (post_send (reply_frame (op + 1) [] None) c)"
    using assms(2) t by (simp add: handle_frame_def ws_send_timer phase_back)
  with assms show "feed T ep (client_frame op key payload @ r) c
      = feed T ep r (post_send (reply_frame (op + 1) [] None) c)"
    by (simp add: feed_awaiting)
  show "frame_bytes (reply_frame (op + 1) [] None) = [op + 1, 0]"
    by (simp add: frame_bytes_def reply_frame_def frame_header_def)
qed

theorem ping_pong_witness:
  "feed 0 (echo_endpoint 0) (client_frame 137 [1, 2, 3, 4] [104, 105]) (opened 0)
     = feed 0 (echo_endpoint 0) [] (post_send (reply_frame 138 [] None) (opened 0))
   \<and> frame_bytes (reply_frame 138 [] None) = [138, 0]"
  using ping_pong[of 0 "opened 0" 137 "[1, 2, 3, 4]" "[104, 105]" "echo_endpoint 0" "[]"] by simp


section \<open>Closing\<close>

definition cancelled :: "nat \<Rightarrow> connection \<Rightarrow> connection" where
  "cancelled T c = (if 0 < T then c\<lparr>timer_idle := Not_Waiting\<rparr> else c)"

text \<open>The state after the reading side has closed a connection of the echo endpoint.\<close>

definition closed_by :: "nat \<Rightarrow> int \<Rightarrow> byte list \<Rightarrow> connection \<Rightarrow> connection" where
  "closed_by T status reason c =
     (cancelled T (if closed c then c
        else post_send (reply_frame 136 (close_payload status reason) None) (c\<lparr>closed := True\<rparr>)))
     \<lparr>registered := False, events := events c @ [Closed_With status reason], phase := Not_Reading\<rparr>"

lemma closing_done:
  "has_timer T d \<Longrightarrow> stop_reading (connection_close T (echo_endpoint T) status reason d)
     = Inr ((cancelled T d)\<lparr>registered := False, events := events d @ [Closed_With status reason],
         phase := Not_Reading\<rparr>)"
  by (simp add: stop_reading_def connection_close_def cancel_timer echo_endpoint_def note_event_def cancelled_def)

lemma closing_echo:
  assumes "has_timer T c"
  shows "stop_reading (bind_result (send_close T status reason c)
      (connection_close T (echo_endpoint T) status reason)) = Inr (closed_by T status reason c)"
proof -
  let ?d = "if closed c then c
      else post_send (reply_frame 136 (close_payload status reason) None) (c\<lparr>closed := True\<rparr>)"
  have "send_close T status reason c = Inr ?d"
    by (simp add: send_close_def ws_send_def reply_frame_def)
  moreover have "has_timer T ?d" using assms by simp
  moreover have "events ?d = events c" by (simp add: post_send_def)
  ultimately show ?thesis by (simp add: closing_done closed_by_def)
qed

lemma uint_byte: "uint (b :: byte) div 256 = 0" "uint (b :: byte) mod 256 = uint b"
proof -
  have "uint b < 2 ^ LENGTH(8)" by (rule unsigned_less)
  then show "uint b div 256 = 0" "uint b mod 256 = uint b" by simp_all
qed

lemma same_buffer: "read_buffer c = [] \<Longrightarrow> c\<lparr>read_buffer := []\<rparr> = c"
  by simp

lemma close_payload_status:
  "close_payload (fst (close_status m)) (snd (close_status m)) = (if length m < 2 then 0 # 0 # m else m)"
proof (cases m)
  case (Cons b r)
  show ?thesis
  proof (cases r)
    case (Cons b' r')
    let ?s = "int (unat b) * 256 + int (unat b')"
    have "?s div 256 = int (unat b)" "?s mod 256 = int (unat b')"
      by (simp_all add: uint_byte)
    with \<open>m = b # r\<close> Cons show ?thesis by (simp add: close_status_def close_payload_def)
  qed (simp add: \<open>m = b # r\<close> close_status_def close_payload_def)
qed (simp add: close_status_def close_payload_def)

lemma not_reading_stops: "phase c = Not_Reading \<Longrightarrow> feed T ep r c = Inr (c, r)"
  by (subst feed.simps) simp

text \<open>C33: A close frame ends the connection: the endpoint forgets it, the callback gets the status and
  the reason, and none of the bytes behind the frame are read. Unless the server has sent its own
  close frame before, one close frame is posted in answer: its payload is the one received, or, when
  that is shorter than a status, two zero bytes with what was received behind them.\<close>

theorem close_answered:
  assumes "awaiting T c" "op AND 0x0f = 8" "length key = 4" "length payload \<le> 0xffff"
  shows "\<exists>c'. feed T (echo_endpoint T) (client_frame op key payload @ r) c = Inr (c', r)
    \<and> \<not> registered c' \<and> phase c' = Not_Reading \<and> closed c'
    \<and> events c' = events c @ [Closed_With (fst (close_status payload)) (snd (close_status payload))]
    \<and> strand c' = strand c @ (if closed c then []
        else [Post_Send (reply_frame 136 (if length payload < 2 then 0 # 0 # payload else payload) None)])"
proof -
  let ?c = "c\<lparr>phase := Read_Content (length payload) op\<rparr>"
  obtain st re where s: "close_status payload = (st, re)" by force
  have "handle_frame T (echo_endpoint T) op payload ?c = Inr (closed_by T st re ?c)"
    using assms closing_echo[of T ?c] s by (simp add: handle_frame_def awaiting_def)
  with assms have "feed T (echo_endpoint T) (client_frame op key payload @ r) c = Inr (closed_by T st re ?c, r)"
    by (simp add: feed_awaiting not_reading_stops closed_by_def)
  moreover have "close_payload st re = (if length payload < 2 then 0 # 0 # payload else payload)"
    using close_payload_status[of payload] s by simp
  ultimately show ?thesis
    using s by (auto simp: closed_by_def cancelled_def post_send_def)
qed

lemma opened_fields:
  "closed (opened T) = False" "events (opened T) = [Opened]" "strand (opened T) = []"
  by (simp_all add: opened_def connection_ctor_def)

theorem close_answered_witness:
  "\<exists>c'. feed 0 (echo_endpoint 0) (client_frame 136 [1, 2, 3, 4] [3, 232] @ [9]) (opened 0) = Inr (c', [9])
    \<and> events c' = [Opened, Closed_With 1000 []] \<and> strand c' = [Post_Send (reply_frame 136 [3, 232] None)]"
  using close_answered[of 0 "opened 0" 136 "[1, 2, 3, 4]" "[3, 232]" "[9]"] opened_fields
  by (auto simp: close_status_def)

text \<open>A frame that is not masked is a protocol error: its two header bytes alone make the server
  answer with status 1002 and drop the connection, whatever follows.\<close>

theorem unmasked_rejected:
  assumes "awaiting T c" "unat len < 128"
  shows "feed T (echo_endpoint T) (op # len # r) c
    = Inr (closed_by T 1002 (bytes_of ''message from client not masked'') c, r)"
proof -
  have "feed T (echo_endpoint T) ([op, len] @ r) c
    = bind_result (read_done T (echo_endpoint T) False [op, len] c) (feed T (echo_endpoint T) r)"
    by (rule feed_step) (use assms in \<open>simp_all add: awaiting_def\<close>)
  then show ?thesis
    using assms closing_echo[of T c]
    by (simp add: read_done_def on_head_def Let_def awaiting_def classify_unmasked same_buffer)
       (simp add: not_reading_stops closed_by_def)
qed

theorem unmasked_rejected_witness:
  "feed 0 (echo_endpoint 0) [129, 2, 104, 105] (opened 0)
    = Inr (closed_by 0 1002 (bytes_of ''message from client not masked'') (opened 0), [104, 105])"
  using unmasked_rejected[of 0 "opened 0" 2 129 "[104, 105]"] by simp

text \<open>C10: However reads, timer, sends of the application, closes and the strand interleave on a
  connection of the echo endpoint, one close frame at most is ever posted, exactly when
  the connection is marked closed, and the endpoint lists the connection exactly while a
  read is under way on it.\<close>

theorem close_once:
  assumes "conn_runs T (echo_endpoint T) ds c"
  shows "length (filter is_close ds) = (if closed c then 1 else 0)
    \<and> (registered c \<longleftrightarrow> phase c \<noteq> Not_Reading)"
  using echo.conn_runs_inv[OF assms] by (simp add: closes_ok_def reading_inv_def)

lemma run_opened: "conn_runs T (echo_endpoint T) [] (opened T)"
proof (rule cr_open[where lo = "[]"])
  have "connection_ctor\<lparr>read_buffer := []\<rparr> = connection_ctor" by (simp add: connection_ctor_def)
  then show "handshake_written T (echo_endpoint T) False (connection_ctor\<lparr>read_buffer := []\<rparr>) = Inr (opened T)"
    by (simp add: opened_echo)
  show "posts (connection_ctor\<lparr>read_buffer := []\<rparr>) [] (opened T)"
    by (simp add: posts_def opened_def connection_ctor_def)
qed

lemma run_unmasked:
  "conn_runs T (echo_endpoint T)
     [reply_frame 136 (close_payload 1002 (bytes_of ''message from client not masked'')) None]
     (closed_by T 1002 (bytes_of ''message from client not masked'') (opened T))"
proof -
  have "read_done T (echo_endpoint T) False [129, 2] (opened T)
     = Inr (closed_by T 1002 (bytes_of ''message from client not masked'') (opened T))"
    using closing_echo[of T "opened T"] awaiting_opened[of T]
    by (simp add: read_done_def on_head_def Let_def awaiting_def classify_unmasked same_buffer)
  from cr_read[OF run_opened _ this] show ?thesis
    by (simp add: read_result_def opened_def connection_ctor_def posts_def closed_by_def cancelled_def post_send_def)
qed

theorem close_once_witness:
  "closed (closed_by 0 1002 (bytes_of ''message from client not masked'') (opened 0))
   \<and> \<not> registered (closed_by 0 1002 (bytes_of ''message from client not masked'') (opened 0))"
  using close_once[OF run_unmasked[of 0]] by (simp add: reply_frame_def split: if_splits) (simp add: closed_by_def)

section \<open>Faults and leftovers\<close>

text \<open>C21: On every reachable connection of the echo endpoint, with any idle timeout and whatever a
  read brings, the only fault is the eight-byte length: the timer is never null there and
  nothing else is undefined.\<close>

theorem reader_faults:
  assumes "conn_runs T (echo_endpoint T) ds c" and "read_result (phase c) ec bytes"
  shows "read_done T (echo_endpoint T) ec bytes c = Inl f \<longleftrightarrow>
    f = Undefined_Behaviour \<and> \<not> ec \<and> (\<exists>op. phase c = Read_Length 8 op)"
  using echo.read_done_fault[OF _ assms(2)] echo.conn_runs_inv[OF assms(1)] by blast

theorem reader_faults_witness:
  "\<exists>c'. read_done 5 (echo_endpoint 5) True [] (opened 5) = Inr c'"
proof (cases "read_done 5 (echo_endpoint 5) True [] (opened 5)")
  case (Inl f)
  then show ?thesis
    using reader_faults[OF run_opened, of 5 True "[]" f] by (simp add: read_result_def opened_def)
qed simp

text \<open>When the write of the handshake fails and an idle timeout is set, \<open>connection_error\<close>
  cancels a timer that was never created: a null pointer is dereferenced. Without a timeout,
  or when the write succeeds, the step returns.\<close>

theorem handshake_written_fault:
  "(\<exists>f. handshake_written T (echo_endpoint T) ec connection_ctor = Inl f) \<longleftrightarrow> ec \<and> 0 < T"
proof (cases ec)
  case True
  have "timer_idle connection_ctor = Null_Timer" by (simp add: connection_ctor_def)
  then show ?thesis
    using True by (simp add: handshake_written_def connection_error_def timer_idle_cancel_def echo_endpoint_def)
next
  case False
  with opened_echo[of T] show ?thesis by simp
qed

definition same_rest :: "connection result \<Rightarrow> connection \<Rightarrow> bool" where
  "same_rest r c \<longleftrightarrow> (\<forall>c'. r = Inr c' \<longrightarrow> read_buffer c' = read_buffer c)"

lemma same_rest_simps [simp]: "same_rest (Inl f) c" "same_rest (Inr c) c"
  by (simp_all add: same_rest_def)

lemma same_rest_bind: "same_rest r c \<Longrightarrow> (\<And>d. same_rest (f d) d) \<Longrightarrow> same_rest (bind_result r f) c"
  unfolding same_rest_def by (cases r) auto

lemma same_rest_send: "same_rest (ws_send T op m cb c) c"
  by (auto simp: same_rest_def ws_send_def timer_idle_reset_def bind_result_eq_Inr post_send_def
      split: if_splits timer.splits)

lemma same_rest_message:
  "same_rest (case onmessage (echo_endpoint T) of None \<Rightarrow> Inr c
     | Some h \<Rightarrow> bind_result (timer_idle_reset T c) (\<lambda>c. h op m (note_event (Received op m) c))) c"
proof -
  have "same_rest (timer_idle_reset T c) c"
    by (auto simp: same_rest_def timer_idle_reset_def split: timer.splits)
  moreover have "same_rest (echo_onmessage T op m (note_event e d)) d" for e d
    using same_rest_send[of T 129 m "Some 0" "note_event e d"] by (simp add: echo_onmessage_def same_rest_def)
  ultimately show ?thesis by (simp add: echo_endpoint_def same_rest_bind)
qed

lemma read_done_rest:
  assumes "read_done T (echo_endpoint T) False bytes c = Inr c'" "length bytes = wanted (phase c)"
    "phase c \<noteq> Not_Reading" "phase c' \<noteq> Not_Reading"
  shows "length (read_buffer c') = length (read_buffer c)"
proof (cases "phase c")
  case Read_Head
  have stop: "stop_reading r = Inr c' \<Longrightarrow> False" for r
    using assms(4) by (auto simp: stop_reading_def bind_result_eq_Inr)
  from Read_Head assms show ?thesis
    by (auto simp: read_done_def on_head_def Let_def dest: stop split: head.splits if_splits)
next
  case (Read_Length n op)
  with assms show ?thesis by (auto simp: read_done_def on_length_def Let_def bind_result_eq_Inr)
next
  case (Read_Content len op)
  define d where "d = c\<lparr>read_buffer := drop (4 + len) (read_buffer c @ bytes)\<rparr>"
  define m where "m = unmask (take 4 (read_buffer c @ bytes)) (take len (drop 4 (read_buffer c @ bytes)))"
  have d: "length (read_buffer d) = length (read_buffer c)"
    using assms(2) Read_Content by (simp add: d_def)
  have stop: "stop_reading r = Inr c' \<Longrightarrow> False" for r
    using assms(4) by (auto simp: stop_reading_def bind_result_eq_Inr)
  have go: "length (read_buffer c') = length (read_buffer c)"
    if "same_rest r d" "bind_result r (\<lambda>c. Inr (c\<lparr>phase := Read_Head\<rparr>)) = Inr c'" for r
    using that d by (auto simp: same_rest_def bind_result_eq_Inr)
  from assms(1) Read_Content have "on_content T (echo_endpoint T) len op False bytes c = Inr c'"
    by (simp add: read_done_def)
  then show ?thesis
    unfolding on_content_def Let_def d_def[symmetric] m_def[symmetric]
    by (auto dest!: stop go[OF same_rest_send] go[OF same_rest_message] split: if_splits prod.splits
        simp del: option.case)
qed (use assms(3) in simp)

text \<open>C23: Every read asks the socket for the full number of bytes even when the buffer already holds
  some, so while a connection is open its buffer stays exactly as full as the handshake left
  it: what a client sent right behind its handshake request is always that many bytes late,
  and a frame that was already complete is handled only when later ones arrive.\<close>

theorem leftover_stays:
  assumes "feed T (echo_endpoint T) bs c = Inr (c', r)" "phase c \<noteq> Not_Reading" "phase c' \<noteq> Not_Reading"
  shows "length (read_buffer c') = length (read_buffer c)"
  using assms
proof (induction T "echo_endpoint T" bs c rule: feed.induct)
  case (1 T bs c)
  show ?case
  proof (cases "wanted (phase c) = 0 \<or> length bs < wanted (phase c)")
    case True
    with "1.prems" show ?thesis by (subst (asm) feed.simps) simp
  next
    case False
    then obtain d where d: "read_done T (echo_endpoint T) False (take (wanted (phase c)) bs) c = Inr d"
      and r: "feed T (echo_endpoint T) (drop (wanted (phase c)) bs) d = Inr (c', r)"
      using "1.prems"(1) by (subst (asm) feed.simps) (auto split: sum.splits)
    have p: "phase d \<noteq> Not_Reading"
    proof
      assume "phase d = Not_Reading"
      with r not_reading_stops[of d] "1.prems"(3) show False by simp
    qed
    have "length (read_buffer d) = length (read_buffer c)"
      by (rule read_done_rest[OF d]) (use False "1.prems" p in simp_all)
    with "1.hyps"[OF False d r p "1.prems"(3)] show ?thesis by simp
  qed
qed

theorem leftover_stays_witness:
  "\<exists>c'. feed 0 (echo_endpoint 0) [129] (opened 0\<lparr>read_buffer := [129, 130]\<rparr>) = Inr (c', [129])
    \<and> length (read_buffer c') = 2"
proof -
  let ?c = "opened 0\<lparr>read_buffer := [129, 130]\<rparr>"
  have p: "phase ?c = Read_Head" by (simp add: opened_def)
  then have f: "feed 0 (echo_endpoint 0) [129] ?c = Inr (?c, [129])" by (subst feed.simps) simp
  with leftover_stays[OF f] p show ?thesis by simp
qed
end
