(* ===== verification/Ws_Handshake.thy ===== *)
theory Ws_Handshake
  imports Http_Headers Crypto Ws_Endpoints
begin

text \<open>
  The WebSocket handshake of \<^verbatim>\<open>web_socket_server/server_ws.hpp\<close>: reading the request, choosing
  the endpoint, and the response with its accept key. Parameters are Boost (\<open>L\<close>), Boost's
  SHA-1 (\<open>sha1\<close>, five 32-bit words) and the Base64 filter of OpenSSL (\<open>bio\<close>).
\<close>

section \<open>Parsing the request\<close>

record handshake =
  hs_method :: string
  hs_path :: string
  hs_version :: string
  hs_header :: "string \<rightharpoonup> string"

definition handshake_ctor :: handshake where
  "handshake_ctor = \<lparr>hs_method = [], hs_path = [], hs_version = [], hs_header = Map.empty\<rparr>"

definition parse_handshake :: "istream \<Rightarrow> handshake \<Rightarrow> (handshake \<times> istream) result option" where
  "parse_handshake st hs =
     (let (line, st) = getline st [] in
      case str_find line SP 0 of
        None \<Rightarrow> Some (Inr (hs, st))
      | Some method_end \<Rightarrow>
          (case str_find line SP (method_end + 1) of
             None \<Rightarrow> Some (Inr (hs, st))
           | Some path_end \<Rightarrow>
               (case bind_result (str_substr line 0 method_end) (\<lambda>method.
                     bind_result (str_substr line (method_end + 1) (sz_sub (sz_sub path_end method_end) 1)) (\<lambda>path.
                     bind_result
                       (if path_end + 6 < length line
                        then str_substr line (path_end + 6) (sz_sub (sz_sub (length line) (path_end + 6)) 1)
                        else Inr ''1.1'') (\<lambda>version.
                     Inr (hs\<lparr>hs_method := method, hs_path := path, hs_version := version\<rparr>)))) of
                  Inl f \<Rightarrow> Some (Inl f)
                | Inr hs \<Rightarrow>
                    map_option (\<lambda>r. bind_result r (\<lambda>(header, st). Inr (hs\<lparr>hs_header := header\<rparr>, st)))
                      (read_headers map_insert st line (hs_header hs)))))"

section \<open>The response\<close>

definition ws_magic_string :: string where
  "ws_magic_string = ''258EAFA5-E914-47DA-95CA-C5AB0DC85B11''"

definition hex_digit :: "nat \<Rightarrow> char" where
  "hex_digit n = (if n < 10 then char_of (48 + n) else char_of (87 + n))"

text \<open>\<open>operator<<\<close> of an \<open>unsigned int\<close> under \<open>std::hex\<close>.\<close>

fun show_hex :: "nat \<Rightarrow> string" where
  "show_hex n = (if n < 16 then [hex_digit n] else show_hex (n div 16) @ [hex_digit (n mod 16)])"

declare show_hex.simps [simp del]

text \<open>\<open>setw\<close> holds for the next output only: the first word is padded to eight characters, the others
  are printed as they come. \<open>hash\<close> is an array of five \<open>unsigned int\<close>s: no more of the list is read,
  and nothing of a number above its 32 bits.\<close>

definition digest_text :: "nat list \<Rightarrow> string" where
  "digest_text hash =
     (case map (\<lambda>w. w mod 2 ^ 32) (take 5 hash) of
        [] \<Rightarrow> []
      | h # hs \<Rightarrow> replicate (8 - length (show_hex h)) (CHR ''0'') @ show_hex h @ concat (map show_hex hs))"

definition accept_key :: "(string \<Rightarrow> nat list) \<Rightarrow> (string \<Rightarrow> string) \<Rightarrow> string \<Rightarrow> string result" where
  "accept_key sha1 bio key = base64_encode bio (digest_text (sha1 (key @ ws_magic_string)))"

definition handshake_text :: "string \<Rightarrow> string" where
  "handshake_text accept =
     ''HTTP/1.1 101 Web Socket Protocol Handshake'' @ CRLF @ ''Upgrade: websocket'' @ CRLF
     @ ''Connection: Upgrade'' @ CRLF @ ''Sec-WebSocket-Accept: '' @ accept @ CRLF @ CRLF"

text \<open>\<open>None\<close> is the result false: no key was sent.\<close>

definition generate_handshake ::
  "(string \<Rightarrow> nat list) \<Rightarrow> (string \<Rightarrow> string) \<Rightarrow> handshake \<Rightarrow> string option result" where
  "generate_handshake sha1 bio hs =
     (case hs_header hs ''sec-websocket-key'' of
        None \<Rightarrow> Inr None
      | Some key \<Rightarrow> bind_result (accept_key sha1 bio key) (\<lambda>accept. Inr (Some (handshake_text accept))))"

text \<open>
  The endpoints are tried in the order of the map; the first whose pattern matches the path
  decides, even when no response can be generated.
\<close>

fun write_handshake :: "boost_lib \<Rightarrow> (string \<Rightarrow> nat list) \<Rightarrow> (string \<Rightarrow> string) \<Rightarrow> (string \<times> 'e) list \<Rightarrow>
    handshake \<Rightarrow> ('e \<times> captures \<times> string) option result" where
  "write_handshake L sha1 bio [] hs = Inr None"
| "write_handshake L sha1 bio ((pat, ep) # opt_endpoint) hs =
     (case bx_match L pat (hs_path hs) of
        None \<Rightarrow> write_handshake L sha1 bio opt_endpoint hs
      | Some path_match \<Rightarrow>
          bind_result (generate_handshake sha1 bio hs) (\<lambda>resp.
            Inr (map_option (\<lambda>text. (ep, path_match, text)) resp)))"

text \<open>
  The handler of the request's read: the endpoint chosen with the sub-matches of the path, the
  response to write, and the bytes that stay in the read buffer. No response: the connection is dropped.
\<close>

definition handshake_read :: "boost_lib \<Rightarrow> (string \<Rightarrow> nat list) \<Rightarrow> (string \<Rightarrow> string) \<Rightarrow> (string \<times> 'e) list \<Rightarrow>
    bool \<Rightarrow> string \<Rightarrow> ('e \<times> captures \<times> string \<times> string) option result option" where
  "handshake_read L sha1 bio opt_endpoint ec rd_buffer =
     (if ec then Some (Inr None)
      else map_option (\<lambda>r. bind_result r (\<lambda>(hs, st).
             bind_result (write_handshake L sha1 bio opt_endpoint hs) (\<lambda>resp.
               Inr (map_option (\<lambda>(ep, path_match, text). (ep, path_match, text, pending st)) resp))))
           (parse_handshake (istream_of rd_buffer) handshake_ctor))"

section \<open>What the parser returns\<close>

lemma parse_handshake_request:
  assumes ok: "word_ok method" "word_ok path" "LF \<notin> set version" "list_all header_valid hs"
    and size: "length (request_text method path version hs body) < size_max"
  shows "parse_handshake (istream_of (request_text method path version hs body)) q =
    Some (Inr (q\<lparr>hs_method := method, hs_path := path, hs_version := version,
      hs_header := fold map_insert hs (hs_header q)\<rparr>, istream_of body))"
proof -
  let ?l = "request_line method path version" and ?n = "7 + (length method + length path)"
  note sizes = request_text_size[OF size]
  have s3: "str_substr ?l ?n (sz_sub (sz_sub (length ?l) ?n) 1) = Inr version"
    using sizes str_substr_mid[of ?n "method @ SP # path @ SP # ''HTTP/''" "length version" version "[CR]"]
    by (simp add: request_line_def)
  have len: "?n < length ?l" by (simp add: request_line_def)
  show ?thesis
    using request_text_getline[OF ok(1-3)] request_text_headers[OF ok(4) size, of map_insert ?l]
    by (simp add: parse_handshake_def request_line_parts[OF ok(1-2) sizes(1)] s3 len del: One_nat_def str_find_0)
qed

text \<open>On a request that ends in a blank line, as the read guarantees, the parser always returns.\<close>

lemma blank_line_LF: "has_blank_line s \<Longrightarrow> LF \<in> set s"
  by (auto simp: has_blank_line_def CRLF_def)

lemma parse_handshake_total:
  assumes "has_blank_line s" "length s < size_max"
  shows "\<exists>hs' st. parse_handshake (istream_of s) hs = Some (Inr (hs', st))"
proof -
  obtain w r where s: "s = w @ LF # r" and w: "LF \<notin> set w"
    using blank_line_LF[OF assms(1)] by (rule split_at_first)
  have r: "\<exists>h st. read_headers map_insert (istream_of r) w header = Some (Inr (h, st))" for header
    using assms unfolding s by (rule read_headers_returns) (rule w)
  have get: "getline (istream_of s) [] = (w, istream_of r)" using s w by simp
  show ?thesis
  proof (cases "str_find w SP 0")
    case None
    then show ?thesis by (simp add: parse_handshake_def get del: str_find_0)
  next
    case (Some m)
    note m = str_find_Some[OF Some]
    show ?thesis
    proof (cases "str_find w SP (m + 1)")
      case None
      with Some show ?thesis by (simp add: parse_handshake_def get del: str_find_0)
    next
      case (Some p)
      note p = str_find_Some[OF Some]
      have sub: "i \<le> length w \<Longrightarrow> str_substr w i n = Inr (take n (drop i w))" for i n
        by (rule str_substr_returns)
      obtain v where v: "(if p + 6 < length w then str_substr w (p + 6) (sz_sub (sz_sub (length w) (p + 6)) 1)
          else Inr ''1.1'') = Inr v"
        by (cases "p + 6 < length w") (auto simp: sub)
      let ?q = "hs\<lparr>hs_method := take m w, hs_path := take (sz_sub (sz_sub p m) 1) (drop (m + 1) w), hs_version := v\<rparr>"
      from r obtain h st where "read_headers map_insert (istream_of r) w (hs_header ?q) = Some (Inr (h, st))" by blast
      with \<open>str_find w SP 0 = Some m\<close> Some v m p
      have "parse_handshake (istream_of s) hs = Some (Inr (?q\<lparr>hs_header := h\<rparr>, st))"
        by (simp add: parse_handshake_def get sub del: str_find_0)
      then show ?thesis by blast
    qed
  qed
qed

section \<open>The accept key\<close>

text \<open>What RFC 6455 asks for: Base64 of the twenty bytes of the digest.\<close>

definition be4 :: "nat \<Rightarrow> string" where
  "be4 w = [char_of (w div 2 ^ 24), char_of (w div 2 ^ 16 mod 256), char_of (w div 2 ^ 8 mod 256), char_of (w mod 256)]"

definition digest_bytes :: "nat list \<Rightarrow> string" where
  "digest_bytes hash = concat (map be4 hash)"

definition sha1_contract :: "(string \<Rightarrow> nat list) \<Rightarrow> bool" where
  "sha1_contract sha1 \<longleftrightarrow> (\<forall>s. length (sha1 s) = 5 \<and> (\<forall>w \<in> set (sha1 s). w < 2 ^ 32))"

lemma hex_digit_code: "n < 16 \<Longrightarrow> 48 \<le> code_of (hex_digit n)"
  by (simp add: hex_digit_def code_of_def)

lemma show_hex_codes: "\<forall>c \<in> set (show_hex n). 48 \<le> code_of c"
proof (induction n rule: show_hex.induct)
  case (1 n)
  then show ?case
    by (cases "n < 16") (auto simp: show_hex.simps[of n] hex_digit_code)
qed

lemma show_hex_length: "16 ^ k \<le> n \<Longrightarrow> k < length (show_hex n)"
proof (induction k arbitrary: n)
  case 0
  then show ?case by (subst show_hex.simps) simp
next
  case (Suc k)
  then have "16 ^ k \<le> n div 16" by (simp add: less_eq_div_iff_mult_less_eq mult.commute)
  from Suc.IH[OF this] have "k < length (show_hex (n div 16))" .
  moreover have "\<not> n < 16" using Suc.prems by (auto simp: not_less) (metis le_trans mult.commute mult_le_mono2 nat_mult_1_right one_le_numeral one_le_power)
  ultimately show ?case by (subst show_hex.simps) simp
qed

lemma digest_text_codes: "\<forall>c \<in> set (digest_text hash). 48 \<le> code_of c"
  using show_hex_codes by (auto simp: digest_text_def code_of_def split: list.splits)

lemma be4_large: "w < 2 ^ 32 \<Longrightarrow> \<forall>c \<in> set (be4 w). 48 \<le> code_of c \<Longrightarrow> 16 ^ 7 \<le> w"
proof -
  assume "w < 2 ^ 32" "\<forall>c \<in> set (be4 w). 48 \<le> code_of c"
  then have "48 \<le> w div 2 ^ 24" by (simp add: be4_def code_of_def)
  then show ?thesis by (simp add: less_eq_div_iff_mult_less_eq)
qed

lemma digest_words:
  fixes hash :: "nat list"
  shows "length hash = 5 \<Longrightarrow> \<forall>w \<in> set hash. w < 2 ^ 32 \<Longrightarrow> map (\<lambda>w. w mod 2 ^ 32) (take 5 hash) = hash"
  by (simp add: map_idI)

lemma show_hex_short: "n < 16 ^ Suc k \<Longrightarrow> length (show_hex n) \<le> Suc k"
proof (induction k arbitrary: n)
  case (Suc k)
  have "n div 16 < 16 ^ Suc k" using Suc.prems by (simp add: less_mult_imp_div_less)
  from Suc.IH[OF this] show ?case by (subst show_hex.simps) simp
qed (simp add: show_hex.simps)

text \<open>The text is always short enough to be encoded.\<close>

lemma digest_text_encodable: "encodable (digest_text hash)"
proof -
  define ws where "ws = map (\<lambda>w. w mod 2 ^ 32) (take 5 hash)"
  have w: "length (show_hex w) \<le> 8" if "w \<in> set ws" for w
  proof -
    have "w < 2 ^ 32" using that by (auto simp: ws_def)
    then have "w < 16 ^ Suc 7" by simp
    from show_hex_short[OF this] show ?thesis by simp
  qed
  have c: "(\<And>w. w \<in> set xs \<Longrightarrow> length (show_hex w) \<le> 8) \<Longrightarrow> length (concat (map show_hex xs)) \<le> 8 * length xs" for xs
    by (induction xs) (auto intro: add_mono)
  have "length (digest_text hash) \<le> 56"
  proof (cases ws)
    case (Cons x xs)
    have "length xs \<le> 4" using arg_cong[OF Cons, of length] by (simp add: ws_def)
    with c[of xs] w Cons have "length (concat (map show_hex xs)) \<le> 32" by fastforce
    with w[of x] Cons show ?thesis unfolding digest_text_def ws_def[symmetric] by simp
  next
    case Nil
    then show ?thesis unfolding digest_text_def ws_def[symmetric] by simp
  qed
  then show ?thesis by (simp add: encodable_def)
qed

lemma digest_text_not_bytes:
  assumes "length hash = 5" "\<forall>w \<in> set hash. w < 2 ^ 32"
  shows "digest_text hash \<noteq> digest_bytes hash"
proof
  assume eq: "digest_text hash = digest_bytes hash"
  then have "\<forall>c \<in> set (digest_bytes hash). 48 \<le> code_of c" using digest_text_codes by metis
  then have "\<forall>w \<in> set hash. 16 ^ 7 \<le> w" using assms(2) be4_large by (fastforce simp: digest_bytes_def)
  then have "\<forall>w \<in> set hash. 7 < length (show_hex w)" using show_hex_length by blast
  moreover obtain a b c d e where "hash = [a, b, c, d, e]"
    using assms(1) by (auto simp: length_Suc_conv eval_nat_numeral)
  ultimately have "40 \<le> length (digest_text hash)"
    unfolding digest_text_def digest_words[OF assms] by simp
  moreover have "length (digest_bytes hash) = 20"
    using \<open>hash = [a, b, c, d, e]\<close> by (simp add: digest_bytes_def be4_def)
  ultimately show False using eq by simp
qed

section \<open>The answer\<close>

lemma handshake_reply:
  assumes "bio_contract bio" "word_ok method" "word_ok path" "LF \<notin> set version" "list_all header_valid hs"
    and "length (request_text method path version hs body) < size_max"
  shows "handshake_read L sha1 bio eps False (request_text method path version hs body) = Some (Inr
    (case (List.find (\<lambda>(pat, ep). bx_match L pat path \<noteq> None) eps,
           List.find (\<lambda>(k, v). ''sec-websocket-key'' = k) hs) of
       (Some (pat, ep), Some (k, key)) \<Rightarrow>
         Some (ep, the (bx_match L pat path), handshake_text (bio (digest_text (sha1 (key @ ws_magic_string)))), body)
     | _ \<Rightarrow> None))"
proof -
  have w: "write_handshake L sha1 bio eps q = Inr
      (case (List.find (\<lambda>(pat, ep). bx_match L pat (hs_path q) \<noteq> None) eps, hs_header q ''sec-websocket-key'') of
         (Some (pat, ep), Some key) \<Rightarrow>
           Some (ep, the (bx_match L pat (hs_path q)), handshake_text (bio (digest_text (sha1 (key @ ws_magic_string)))))
       | _ \<Rightarrow> None)" for q
    by (induction eps)
      (auto simp: generate_handshake_def accept_key_def base64_encode_ok[OF assms(1) digest_text_encodable] split: option.splits)
  have p: "parse_handshake (istream_of (request_text method path version hs body)) handshake_ctor =
    Some (Inr (handshake_ctor\<lparr>hs_method := method, hs_path := path, hs_version := version,
      hs_header := fold map_insert hs Map.empty\<rparr>, istream_of body))"
    using parse_handshake_request[OF assms(2-6), of handshake_ctor] by (simp add: handshake_ctor_def)
  show ?thesis
    by (simp add: handshake_read_def p w handshake_headers.get_headers split: option.splits prod.splits)
qed

section \<open>Properties\<close>

text \<open>C18: The handler of a request: an endpoint is opened exactly when some pattern matches the path and
  a header spelled \<open>sec-websocket-key\<close> in lower case is there; the first endpoint,
  with the sub-matches its pattern gives for the path, and the first such header count. What came
  behind the request stays in the read buffer.
  The usual spelling \<open>Sec-WebSocket-Key\<close> gets no answer at all.\<close>

theorem handshake_answer:
  assumes "bio_contract bio" "word_ok method" "word_ok path" "LF \<notin> set version" "list_all header_valid hs"
    and "length (request_text method path version hs body) < size_max"
  shows "handshake_read L sha1 bio eps False (request_text method path version hs body) = Some (Inr
    (case (List.find (\<lambda>(pat, ep). bx_match L pat path \<noteq> None) eps,
           List.find (\<lambda>(k, v). ''sec-websocket-key'' = k) hs) of
       (Some (pat, ep), Some (k, key)) \<Rightarrow>
         Some (ep, the (bx_match L pat path), handshake_text (bio (digest_text (sha1 (key @ ws_magic_string)))), body)
     | _ \<Rightarrow> None))"
  by (rule handshake_reply[OF assms])

definition demo_sha1 :: "string \<Rightarrow> nat list" where
  "demo_sha1 s = [1, 2, 3, 4, 5]"

lemma demo_digest: "digest_text [1, 2, 3, 4, 5] = ''000000012345''"
proof -
  have m: "map (\<lambda>w. w mod 2 ^ 32) (take 5 [1, 2, 3, 4, 5]) = [1, 2, 3, 4, 5 :: nat]" by (rule digest_words) simp_all
  have d: "show_hex 1 = ''1''" "show_hex 2 = ''2''" "show_hex 3 = ''3''" "show_hex 4 = ''4''" "show_hex 5 = ''5''"
    by (simp_all add: show_hex.simps hex_digit_def char_of_def bit_0)
  show ?thesis unfolding digest_text_def m list.case list.map d by (simp add: eval_nat_numeral)
qed

theorem handshake_answer_witness:
  "handshake_read ref_boost demo_sha1 b64 [(''/echo'', ())] False
     (request_text ''GET'' ''/echo'' ''1.1'' [(''sec-websocket-key'', ''abc'')] ''x'')
     = Some (Inr (Some ((), [0 \<mapsto> ''/echo''], handshake_text (b64 ''000000012345''), ''x'')))
   \<and> handshake_read ref_boost demo_sha1 b64 [(''/echo'', ())] False
     (request_text ''GET'' ''/echo'' ''1.1'' [(''Sec-WebSocket-Key'', ''abc'')] []) = Some (Inr None)"
proof -
  have t: "digest_text (demo_sha1 s) = ''000000012345''" for s
    using demo_digest by (simp add: demo_sha1_def)
  show ?thesis
    using handshake_answer[OF b64_contract, of "''GET''" "''/echo''" "''1.1''" "[(''sec-websocket-key'', ''abc'')]" "''x''"
        ref_boost demo_sha1 "[(''/echo'', ())]"]
      handshake_answer[OF b64_contract, of "''GET''" "''/echo''" "''1.1''" "[(''Sec-WebSocket-Key'', ''abc'')]" "[]"
        ref_boost demo_sha1 "[(''/echo'', ())]"]
    by (simp add: t ref_boost_def word_ok_def header_valid_def COLON_def request_text_def request_line_def
        header_lines_def header_line_def size_max_def)
qed

text \<open>C19: The accept key is Base64 of the digest printed in hexadecimal, not of the digest: for no key a
  client can send is it the one RFC 6455 prescribes, so a conforming client always rejects it.\<close>

theorem accept_never_rfc:
  assumes "bio_contract bio" and "sha1_contract sha1"
  shows "accept_key sha1 bio key \<noteq> Inr (bio (digest_bytes (sha1 (key @ ws_magic_string))))"
proof -
  have "digest_text (sha1 (key @ ws_magic_string)) \<noteq> digest_bytes (sha1 (key @ ws_magic_string))"
    using assms(2) by (intro digest_text_not_bytes) (simp_all add: sha1_contract_def)
  then have "bio (digest_text (sha1 (key @ ws_magic_string))) \<noteq> bio (digest_bytes (sha1 (key @ ws_magic_string)))"
    using assms(1) by (auto simp: bio_contract_def dest: injD)
  then show ?thesis by (simp add: accept_key_def base64_encode_ok[OF assms(1) digest_text_encodable])
qed

theorem accept_never_rfc_witness:
  "accept_key demo_sha1 b64 ''abc'' \<noteq> Inr (b64 (digest_bytes [1, 2, 3, 4, 5]))"
  using accept_never_rfc[OF b64_contract, of demo_sha1 "''abc''"] by (simp add: sha1_contract_def demo_sha1_def)

text \<open>On every request that holds a blank line, as the read guarantees, the handshake handler
  returns: it neither loops for ever nor throws, however malformed the request is.\<close>

theorem handshake_total:
  assumes "bio_contract bio" "has_blank_line s" "length s < size_max"
  shows "\<exists>r. handshake_read L sha1 bio eps ec s = Some (Inr r)"
proof -
  obtain q st where p: "parse_handshake (istream_of s) handshake_ctor = Some (Inr (q, st))"
    using parse_handshake_total[OF assms(2,3)] by blast
  have "\<exists>r. write_handshake L sha1 bio eps q = Inr r"
    by (induction eps)
      (auto simp: generate_handshake_def accept_key_def base64_encode_ok[OF assms(1) digest_text_encodable] split: option.splits)
  with p show ?thesis by (auto simp: handshake_read_def)
qed

theorem handshake_total_witness:
  "\<exists>r. handshake_read ref_boost demo_sha1 b64 [(''/echo'', ())] False (''GET'' @ CRLF @ CRLF) = Some (Inr r)"
proof (rule handshake_total[OF b64_contract])
  show "has_blank_line (''GET'' @ CRLF @ CRLF)" unfolding has_blank_line_def by (metis append_Nil2)
qed (simp add: CRLF_def size_max_def)
end
