(* ===== verification/Http_Server.thy ===== *)
theory Http_Server
  imports Complex_Main Http_Headers
begin

text \<open>
  The HTTP server of \<^verbatim>\<open>web_server/server_http.hpp\<close>: the table of resources, the parser of a
  request, the handlers of its reads, the choice of a resource and the decision to keep the
  connection. Parameters are Boost (\<open>L\<close>) and \<open>stof\<close>, the conversion of the version.
\<close>

section \<open>Parsing a request\<close>

record request =
  rq_method :: string
  rq_path :: string
  rq_version :: string
  rq_header :: "(string \<times> string) list"

definition request_ctor :: request where
  "request_ctor = \<lparr>rq_method = [], rq_path = [], rq_version = [], rq_header = []\<rparr>"

text \<open>The result is the C++ result, the request as filled in so far, and the stream.\<close>

definition parse_request :: "istream \<Rightarrow> request \<Rightarrow> (bool \<times> request \<times> istream) result option" where
  "parse_request st rq =
     (let (line, st) = getline st [] in
      case str_find line SP 0 of
        None \<Rightarrow> Some (Inr (False, rq, st))
      | Some method_end \<Rightarrow>
          (case str_find line SP (method_end + 1) of
             None \<Rightarrow> Some (Inr (False, rq, st))
           | Some path_end \<Rightarrow>
               (case bind_result (str_substr line 0 method_end) (\<lambda>method.
                     bind_result (str_substr line (method_end + 1) (sz_sub (sz_sub path_end method_end) 1)) (\<lambda>path.
                     Inr (rq\<lparr>rq_method := method, rq_path := path\<rparr>))) of
                  Inl f \<Rightarrow> Some (Inl f)
                | Inr rq \<Rightarrow>
                    (case str_find line (CHR ''/'') (path_end + 1) of
                       None \<Rightarrow> Some (Inr (False, rq, st))
                     | Some protocol_end \<Rightarrow>
                         (case bind_result (str_substr line (path_end + 1) (sz_sub (sz_sub protocol_end path_end) 1)) (\<lambda>proto.
                               if proto \<noteq> ''HTTP'' then Inr None
                               else bind_result (str_substr line (protocol_end + 1)
                                   (sz_sub (sz_sub (length line) protocol_end) 2)) (\<lambda>version.
                                 Inr (Some (rq\<lparr>rq_version := version\<rparr>)))) of
                            Inl f \<Rightarrow> Some (Inl f)
                          | Inr None \<Rightarrow> Some (Inr (False, rq, st))
                          | Inr (Some rq) \<Rightarrow>
                              map_option (\<lambda>r. bind_result r (\<lambda>(header, st). Inr (True, rq\<lparr>rq_header := header\<rparr>, st)))
                                (read_headers multimap_insert st line (rq_header rq)))))))"

section \<open>The table of resources\<close>

text \<open>
  \<open>resource\<close> maps a pattern to the handlers of its methods; the list gives the entries in the
  order the unordered maps are walked. \<open>start\<close> groups them by method.
\<close>

type_synonym 'f resource_table = "(string \<times> (string \<times> 'f) list) list"
type_synonym 'f opt_resource = "(string \<times> (string \<times> 'f) list) list"

text \<open>The search for the method's group, a new group at the end, and the entry at its back.\<close>

fun add_resource :: "string \<Rightarrow> string \<times> 'f \<Rightarrow> 'f opt_resource \<Rightarrow> 'f opt_resource" where
  "add_resource method entry [] = [(method, [entry])]"
| "add_resource method entry ((m, es) # opt) =
     (if method = m then (m, es @ [entry]) # opt else (m, es) # add_resource method entry opt)"

definition start_resources :: "'f resource_table \<Rightarrow> 'f opt_resource" where
  "start_resources resource =
     fold (\<lambda>(pat, methods). fold (\<lambda>(method, f). add_resource method (pat, f)) methods) resource []"

fun match_paths :: "boost_lib \<Rightarrow> string \<Rightarrow> (string \<times> 'f) list \<Rightarrow> ('f \<times> captures) option" where
  "match_paths L path [] = None"
| "match_paths L path ((pat, f) # es) =
     (case bx_match L pat path of Some sm_res \<Rightarrow> Some (f, sm_res) | None \<Rightarrow> match_paths L path es)"

fun match_methods :: "boost_lib \<Rightarrow> string \<Rightarrow> string \<Rightarrow> 'f opt_resource \<Rightarrow> ('f \<times> captures) option" where
  "match_methods L method path [] = None"
| "match_methods L method path ((m, es) # opt) =
     (if method = m then
        (case match_paths L path es of Some r \<Rightarrow> Some r | None \<Rightarrow> match_methods L method path opt)
      else match_methods L method path opt)"

text \<open>The handler and the sub-matches it is given; a default resource gets none.\<close>

definition find_resource :: "boost_lib \<Rightarrow> 'f opt_resource \<Rightarrow> (string \<rightharpoonup> 'f) \<Rightarrow> request \<Rightarrow> ('f \<times> captures option) option" where
  "find_resource L opt default_resource rq =
     (case match_methods L (rq_method rq) (rq_path rq) opt of
        Some (f, sm_res) \<Rightarrow> Some (f, Some sm_res)
      | None \<Rightarrow> map_option (\<lambda>f. (f, None)) (default_resource (rq_method rq)))"

section \<open>Reading a request\<close>

text \<open>
  What the server does next on the socket: nothing, which drops it; read more of the content;
  or run a handler on the request and the content, which is all that is left in the buffer.
\<close>

datatype 'f action = Drop | Await_Content nat request string | Respond 'f request "captures option" string

definition dispatch :: "boost_lib \<Rightarrow> 'f opt_resource \<Rightarrow> (string \<rightharpoonup> 'f) \<Rightarrow> request \<Rightarrow> string \<Rightarrow> 'f action" where
  "dispatch L opt default_resource rq content =
     (case find_resource L opt default_resource rq of
        None \<Rightarrow> Drop
      | Some (f, sm) \<Rightarrow> Respond f rq sm content)"

text \<open>The handler of \<open>async_read_until\<close>: the buffer and the number of bytes up to the blank line.\<close>

definition request_read :: "boost_lib \<Rightarrow> 'f opt_resource \<Rightarrow> (string \<rightharpoonup> 'f) \<Rightarrow> bool \<Rightarrow> string \<Rightarrow> nat \<Rightarrow> 'f action result option" where
  "request_read L opt default_resource ec buffer bytes_transferred =
     (if ec then Some (Inr Drop)
      else
        let num_additional_bytes = sz_sub (length buffer) bytes_transferred
        in map_option (\<lambda>r. bind_result r (\<lambda>(ok, rq, st).
             if \<not> ok then Inr Drop
             else case multimap_find L ''Content-Length'' (rq_header rq) of
                 None \<Rightarrow> Inr (dispatch L opt default_resource rq (pending st))
               | Some v \<Rightarrow>
                   (case stoull v of
                      Inl f \<Rightarrow> Inr Drop
                    | Inr content_length \<Rightarrow>
                        if num_additional_bytes < content_length
                        then Inr (Await_Content (content_length - num_additional_bytes) rq (pending st))
                        else Inr (dispatch L opt default_resource rq (pending st)))))
             (parse_request (istream_of buffer) request_ctor))"

text \<open>The handler of the read of the content.\<close>

definition content_read :: "boost_lib \<Rightarrow> 'f opt_resource \<Rightarrow> (string \<rightharpoonup> 'f) \<Rightarrow> bool \<Rightarrow> request \<Rightarrow> string \<Rightarrow> string \<Rightarrow> 'f action" where
  "content_read L opt default_resource ec rq buffer bytes =
     (if ec then Drop else dispatch L opt default_resource rq (buffer @ bytes))"

section \<open>After the response\<close>

text \<open>
  The handler of the response's write: whether a next request is read from the socket. \<open>stof\<close>
  gives the value of the \<open>float\<close> or throws. It is compared with the \<open>double\<close> nearest to 1.05; no
  \<open>float\<close> lies between that and 21/20.
\<close>

definition keep_alive :: "boost_lib \<Rightarrow> (string \<Rightarrow> rat result) \<Rightarrow> bool \<Rightarrow> request \<Rightarrow> bool" where
  "keep_alive L stof ec rq =
     (if ec then False
      else case stof (rq_version rq) of
          Inl f \<Rightarrow> False
        | Inr http_version \<Rightarrow>
            if \<exists>v \<in> set (multimap_equal_range L ''Connection'' (rq_header rq)). bx_iequals L v ''close'' then False
            else 21 / 20 < http_version)"


section \<open>What the parser returns\<close>

lemma parse_request_lines:
  assumes ok: "word_ok method" "word_ok path" "LF \<notin> set version" "list_all header_valid hs"
    and stop: "LF \<notin> set w" "COLON \<notin> set w"
    and size: "length (request_line method path version @ LF # header_lines hs @ w @ LF # body) < size_max"
  shows "parse_request (istream_of (request_line method path version @ LF # header_lines hs @ w @ LF # body)) rq =
    Some (Inr (True, rq\<lparr>rq_method := method, rq_path := path, rq_version := version,
      rq_header := rq_header rq @ hs\<rparr>, istream_of body))"
proof -
  let ?l = "request_line method path version" and ?n = "length method + 1 + length path"
  have sizes: "length method + length path + length version + 8 < size_max" "length (header_lines hs) < size_max"
    using size by (simp_all add: request_line_def)
  have f: "str_find ?l (CHR ''/'') (?n + 1) = Some (?n + 5)"
    using str_find_after[of "?n + 1" "method @ SP # path @ [SP]" "CHR ''/''" "''HTTP''" "version @ [CR]"]
    by (simp add: request_line_def)
  have s3: "str_substr ?l (?n + 1) (sz_sub (sz_sub (?n + 5) ?n) 1) = Inr ''HTTP''"
    using sizes str_substr_mid[of "?n + 1" "method @ SP # path @ [SP]" "4" "''HTTP''" "CHR ''/'' # version @ [CR]"]
    by (simp add: request_line_def)
  have s4: "str_substr ?l (?n + 5 + 1) (sz_sub (sz_sub (length ?l) (?n + 5)) 2) = Inr version"
    using sizes str_substr_mid[of "?n + 6" "method @ SP # path @ SP # ''HTTP/''" "length version" version "[CR]"]
    by (simp add: request_line_def)
  have get: "getline (istream_of (?l @ LF # r)) [] = (?l, istream_of r)" for r
    using ok(1-3) by (intro getline_line) (auto simp: request_line_def word_ok_def)
  show ?thesis
    using read_headers_until[OF ok(4) stop sizes(2), of multimap_insert body ?l]
    unfolding parse_request_def get
    by (simp only: Let_def prod.case option.case sum.case bind_result_simps option.map
        request_line_parts[OF ok(1-2) sizes(1)] f s3 s4) simp
qed

lemma parse_request_text:
  assumes "word_ok method" "word_ok path" "LF \<notin> set version" "list_all header_valid hs"
    and "length (request_text method path version hs body) < size_max"
  shows "parse_request (istream_of (request_text method path version hs body)) rq =
    Some (Inr (True, rq\<lparr>rq_method := method, rq_path := path, rq_version := version,
      rq_header := rq_header rq @ hs\<rparr>, istream_of body))"
  using parse_request_lines[OF assms(1-4), of "[CR]" body rq] assms(5) by (simp add: request_text_def COLON_def)

text \<open>On a request with a blank line the parser always returns.\<close>

lemma parse_request_total:
  assumes "has_blank_line s" "length s < size_max"
  shows "\<exists>ok rq' st. parse_request (istream_of s) rq = Some (Inr (ok, rq', st))"
proof -
  have "LF \<in> set s" using assms(1) by (auto simp: has_blank_line_def CRLF_def)
  then obtain w r where s: "s = w @ LF # r" and w: "LF \<notin> set w" by (rule split_at_first)
  have r: "\<exists>h st. read_headers multimap_insert (istream_of r) w header = Some (Inr (h, st))" for header
    using assms unfolding s by (rule read_headers_returns) (rule w)
  have get: "getline (istream_of s) [] = (w, istream_of r)" using s w by simp
  have sub: "i \<le> length w \<Longrightarrow> str_substr w i n = Inr (take n (drop i w))" for i n
    by (rule str_substr_returns)
  show ?thesis
  proof (cases "str_find w SP 0")
    case None
    then show ?thesis by (simp add: parse_request_def get ex_bool_eq del: str_find_0)
  next
    case m: (Some m)
    note ml = str_find_Some[OF m]
    show ?thesis
    proof (cases "str_find w SP (m + 1)")
      case None
      with m show ?thesis by (simp add: parse_request_def get ex_bool_eq del: str_find_0)
    next
      case p: (Some p)
      note pl = str_find_Some[OF p]
      show ?thesis
      proof (cases "str_find w (CHR ''/'') (p + 1)")
        case None
        with m p ml pl show ?thesis by (simp add: parse_request_def get sub ex_bool_eq del: str_find_0)
      next
        case q: (Some q)
        note ql = str_find_Some[OF q]
        show ?thesis
        proof (cases "take (sz_sub (sz_sub q p) 1) (drop (p + 1) w) = ''HTTP''")
          case False
          with m p q ml pl ql show ?thesis by (simp add: parse_request_def get sub ex_bool_eq del: str_find_0)
        next
          case True
          obtain h st where "read_headers multimap_insert (istream_of r) w (rq_header rq) = Some (Inr (h, st))"
            using r by blast
          with True m p q ml pl ql show ?thesis
            by (simp add: parse_request_def get sub ex_bool_eq del: str_find_0)
        qed
      qed
    qed
  qed
qed

section \<open>The table\<close>

text \<open>The reference: the entries in the order they are walked, the first that fits decides.\<close>

definition all_entries :: "'f resource_table \<Rightarrow> (string \<times> string \<times> 'f) list" where
  "all_entries resource = concat (map (\<lambda>(pat, methods). map (\<lambda>(method, f). (method, pat, f)) methods) resource)"

fun first_entry :: "boost_lib \<Rightarrow> string \<Rightarrow> string \<Rightarrow> (string \<times> string \<times> 'f) list \<Rightarrow> ('f \<times> captures) option" where
  "first_entry L method path [] = None"
| "first_entry L method path ((m, pat, f) # es) =
     (if m = method then
        (case bx_match L pat path of Some sm \<Rightarrow> Some (f, sm) | None \<Rightarrow> first_entry L method path es)
      else first_entry L method path es)"

definition or_else :: "'a option \<Rightarrow> 'a option \<Rightarrow> 'a option" where
  "or_else x y = (case x of Some a \<Rightarrow> Some a | None \<Rightarrow> y)"

lemma or_else_simps [simp]: "or_else None y = y" "or_else (Some a) y = Some a" "or_else x None = x"
  by (simp_all add: or_else_def split: option.splits)

lemma or_else_assoc: "or_else (or_else x y) z = or_else x (or_else y z)"
  by (simp add: or_else_def split: option.splits)

lemma match_paths_append: "match_paths L path (es @ fs) = or_else (match_paths L path es) (match_paths L path fs)"
  by (induction es) (auto split: option.splits)

lemma first_entry_append:
  "first_entry L method path (es @ fs) = or_else (first_entry L method path es) (first_entry L method path fs)"
  by (induction es) (auto split: option.splits)

text \<open>Each method has one group.\<close>

lemma add_resource_groups:
  "fst ` set (add_resource m e opt) = insert m (fst ` set opt)"
  "distinct (map fst opt) \<Longrightarrow> distinct (map fst (add_resource m e opt))"
proof -
  show g: "fst ` set (add_resource m e opt) = insert m (fst ` set opt)" for opt
    by (induction m e opt rule: add_resource.induct) auto
  show "distinct (map fst opt) \<Longrightarrow> distinct (map fst (add_resource m e opt))"
    proof (induction opt)
    case (Cons g opt)
    then show ?case using g[of opt] by (cases g) auto
  qed simp
qed

lemma match_methods_absent: "method \<notin> fst ` set opt \<Longrightarrow> match_methods L method path opt = None"
  by (induction opt) auto

lemma match_methods_add:
  "distinct (map fst opt) \<Longrightarrow> match_methods L method path (add_resource m (pat, f) opt)
    = or_else (match_methods L method path opt) (first_entry L method path [(m, pat, f)])"
proof (induction opt)
  case Nil
  then show ?case by (simp split: option.splits)
next
  case (Cons g opt)
  obtain m' es where g: "g = (m', es)" by force
  show ?case
  proof (cases "m = m'")
    case True
    have "method = m' \<Longrightarrow> match_methods L method path opt = None"
      using Cons.prems g match_methods_absent by auto
    with g True show ?thesis by (auto simp: match_paths_append or_else_def split: option.splits)
  next
    case False
    with Cons g show ?thesis by (auto simp: or_else_def split: option.splits)
  qed
qed

lemma first_entry_Cons:
  "first_entry L method path (e # es) = or_else (first_entry L method path [e]) (first_entry L method path es)"
  using first_entry_append[of L "method" path "[e]" es] by simp

lemma add_entries:
  "distinct (map fst opt) \<Longrightarrow> distinct (map fst (fold (\<lambda>(m, f). add_resource m (pat, f)) methods opt))
    \<and> match_methods L method path (fold (\<lambda>(m, f). add_resource m (pat, f)) methods opt)
      = or_else (match_methods L method path opt)
          (first_entry L method path (map (\<lambda>(m, f). (m, pat, f)) methods))"
proof (induction methods arbitrary: opt)
  case (Cons e methods)
  obtain m f where e: "e = (m, f)" by force
  note add = match_methods_add[OF Cons.prems, of L "method" path m pat f]
  note IH = Cons.IH[OF add_resource_groups(2)[OF Cons.prems, of m "(pat, f)"]]
  have "map (\<lambda>(m, f). (m, pat, f)) (e # methods) = (m, pat, f) # map (\<lambda>(m, f). (m, pat, f)) methods"
    using e by simp
  with IH add e show ?case
    by (simp add: or_else_assoc first_entry_Cons[of L "method" path "(m, pat, f)" "map _ _"] del: first_entry.simps(2))
qed simp

lemma match_methods_start:
  "match_methods L method path (start_resources resource) = first_entry L method path (all_entries resource)"
proof -
  have "distinct (map fst opt) \<Longrightarrow> match_methods L method path
      (fold (\<lambda>(pat, methods). fold (\<lambda>(m, f). add_resource m (pat, f)) methods) resource opt)
    = or_else (match_methods L method path opt) (first_entry L method path (all_entries resource))" for opt
  proof (induction resource arbitrary: opt)
    case Nil
    then show ?case by (simp add: all_entries_def)
  next
    case (Cons r resource)
    obtain pat methods where r: "r = (pat, methods)" by force
    have "all_entries (r # resource) = map (\<lambda>(m, f). (m, pat, f)) methods @ all_entries resource"
      using r by (simp add: all_entries_def)
    with Cons.IH[of "fold (\<lambda>(m, f). add_resource m (pat, f)) methods opt"] add_entries[OF Cons.prems, of pat methods L "method" path] r
    show ?case by (simp add: first_entry_append or_else_assoc)
  qed
  from this[of "[]"] show ?thesis by (simp add: start_resources_def)
qed

section \<open>Properties\<close>

text \<open>C16: Grouping the resources by method, which \<open>start\<close> does for speed, does not change what a
  request finds: the first entry, in the order of the original table, whose method is the
  request's and whose pattern matches the path, and otherwise the method's default.\<close>

theorem find_resource_reference:
  "find_resource L (start_resources resource) default_resource rq =
     (case first_entry L (rq_method rq) (rq_path rq) (all_entries resource) of
        Some (f, sm) \<Rightarrow> Some (f, Some sm)
      | None \<Rightarrow> map_option (\<lambda>f. (f, None)) (default_resource (rq_method rq)))"
  by (simp add: find_resource_def match_methods_start)

definition sent_request :: "string \<Rightarrow> string \<Rightarrow> string \<Rightarrow> (string \<times> string) list \<Rightarrow> request" where
  "sent_request method path version hs =
     \<lparr>rq_method = method, rq_path = path, rq_version = version, rq_header = hs\<rparr>"

lemma request_read_text:
  assumes "word_ok method" "word_ok path" "LF \<notin> set version" "list_all header_valid hs"
    and "length (request_text method path version hs body) < size_max"
  shows "request_read L opt dflt False (request_text method path version hs body)
      (length (request_text method path version hs []))
    = Some (Inr (let rq = sent_request method path version hs in
        case multimap_find L ''Content-Length'' hs of
          None \<Rightarrow> dispatch L opt dflt rq body
        | Some v \<Rightarrow>
            (case stoull v of Inl f \<Rightarrow> Drop
             | Inr n \<Rightarrow> if length body < n then Await_Content (n - length body) rq body
                       else dispatch L opt dflt rq body)))"
proof -
  have "length (request_text method path version hs body)
      = length (request_text method path version hs []) + length body"
    by (simp add: request_text_def)
  then have "sz_sub (length (request_text method path version hs body))
      (length (request_text method path version hs [])) = length body"
    using assms(5) by simp
  then show ?thesis
    using parse_request_text[OF assms, of request_ctor]
    by (auto simp: request_read_def sent_request_def request_ctor_def Let_def split: option.splits sum.splits)
qed

definition demo_table :: "nat resource_table" where
  "demo_table = [(''/a'', [(''POST'', 1), (''GET'', 2)])]"

lemma demo_facts:
  "word_ok ''POST''" "word_ok ''/a''" "LF \<notin> set ''1.1''"
  "find_resource ref_boost (start_resources demo_table) Map.empty (sent_request ''POST'' ''/a'' ''1.1'' hs)
    = Some (1, Some [0 \<mapsto> ''/a''])"
  by (simp_all add: word_ok_def find_resource_def start_resources_def demo_table_def sent_request_def ref_boost_def)

lemma demo_upper:
  "map upper ''Content-Length'' = map upper ''content-length''" "map upper ''connection'' = map upper ''Connection''"
  "map upper ''Close'' = map upper ''close''" "show_nat 2 = ''2''"
  by code_simp+

lemma demo_length:
  "list_all header_valid [(''content-length'', ''2'')]"
  "multimap_find ref_boost ''Content-Length'' [(''content-length'', ''2'')] = Some (show_nat 2)"
  using demo_upper(1,4) by (simp_all add: header_valid_def COLON_def multimap_find_def del: list.map)

text \<open>C17: A request with a content of the declared length, arriving in two parts split anywhere, is
  handed to its resource exactly as sent: method, path, version, all headers in order, and
  the content; nothing is dispatched before the content is complete.\<close>

theorem content_complete:
  assumes "word_ok method" "word_ok path" "LF \<notin> set version" "list_all header_valid hs"
    and "multimap_find L ''Content-Length'' hs = Some (show_nat (length (body @ late)))"
    and "length (request_text method path version hs (body @ late)) < size_max"
    and "find_resource L opt dflt (sent_request method path version hs) = Some (f, sm)"
  shows "case request_read L opt dflt False (request_text method path version hs body)
      (length (request_text method path version hs [])) of
    Some (Inr (Await_Content n rq buffer)) \<Rightarrow> n = length late \<and> late \<noteq> []
      \<and> content_read L opt dflt False rq buffer late = Respond f (sent_request method path version hs) sm (body @ late)
  | Some (Inr (Respond g rq sm' content)) \<Rightarrow> late = [] \<and> g = f \<and> sm' = sm
      \<and> rq = sent_request method path version hs \<and> content = body
  | _ \<Rightarrow> False"
proof -
  have size: "length (request_text method path version hs body) < size_max"
    "length (body @ late) < size_max"
    using assms(6) by (simp_all add: request_text_def)
  have "stoull (show_nat (length (body @ late))) = Inr (length (body @ late))"
    using stoull_show_nat[OF size(2), of "[]"] by simp
  with assms(5,7) show ?thesis
    unfolding request_read_text[OF assms(1-4) size(1)]
    by (cases "late = []") (simp_all add: Let_def dispatch_def content_read_def)
qed

theorem content_complete_witness:
  "case request_read ref_boost (start_resources demo_table) Map.empty False
      (request_text ''POST'' ''/a'' ''1.1'' [(''content-length'', ''2'')] ''x'')
      (length (request_text ''POST'' ''/a'' ''1.1'' [(''content-length'', ''2'')] [])) of
    Some (Inr (Await_Content n rq buffer)) \<Rightarrow> n = 1
      \<and> content_read ref_boost (start_resources demo_table) Map.empty False rq buffer ''y''
        = Respond 1 (sent_request ''POST'' ''/a'' ''1.1'' [(''content-length'', ''2'')]) (Some [0 \<mapsto> ''/a'']) ''xy''
  | _ \<Rightarrow> False"
proof -
  have size: "length (request_text ''POST'' ''/a'' ''1.1'' [(''content-length'', ''2'')] (''x'' @ ''y'')) < size_max"
    by (simp add: request_text_def request_line_def header_lines_def header_line_def size_max_def)
  have two: "length (''x'' @ ''y'') = 2" by simp
  show ?thesis
    using content_complete[OF demo_facts(1-3) demo_length(1) demo_length(2)[folded two] size demo_facts(4)]
    by (auto split: option.splits sum.splits action.splits)
qed

text \<open>C34: The content is all that is left in the buffer, whatever length was declared: bytes behind it,
  such as a second request sent without waiting, are handed to the resource as content and
  never read as a request.\<close>

theorem pipelined_bytes_become_content:
  assumes "word_ok method" "word_ok path" "LF \<notin> set version" "list_all header_valid hs"
    and "multimap_find L ''Content-Length'' hs = None
      \<or> multimap_find L ''Content-Length'' hs = Some (show_nat (length body))"
    and "length (request_text method path version hs (body @ extra)) < size_max"
    and "find_resource L opt dflt (sent_request method path version hs) = Some (f, sm)"
  shows "request_read L opt dflt False (request_text method path version hs (body @ extra))
      (length (request_text method path version hs []))
    = Some (Inr (Respond f (sent_request method path version hs) sm (body @ extra)))"
proof -
  have size: "length body < size_max" using assms(6) by (simp add: request_text_def)
  have "stoull (show_nat (length body)) = Inr (length body)"
    using stoull_show_nat[OF size, of "[]"] by simp
  with assms(5,7) show ?thesis
    unfolding request_read_text[OF assms(1-4,6)] by (auto simp: Let_def dispatch_def)
qed

theorem pipelined_bytes_become_content_witness:
  "request_read ref_boost (start_resources demo_table) Map.empty False
      (request_text ''POST'' ''/a'' ''1.1'' [(''content-length'', ''2'')] (''xy'' @ ''GET /a HTTP/1.1''))
      (length (request_text ''POST'' ''/a'' ''1.1'' [(''content-length'', ''2'')] []))
    = Some (Inr (Respond 1 (sent_request ''POST'' ''/a'' ''1.1'' [(''content-length'', ''2'')])
        (Some [0 \<mapsto> ''/a'']) (''xy'' @ ''GET /a HTTP/1.1'')))"
proof (rule pipelined_bytes_become_content[OF demo_facts(1-3) demo_length(1) _ _ demo_facts(4)])
  show "multimap_find ref_boost ''Content-Length'' [(''content-length'', ''2'')] = None
    \<or> multimap_find ref_boost ''Content-Length'' [(''content-length'', ''2'')] = Some (show_nat (length ''xy''))"
    using demo_length(2) by (simp add: numeral_2_eq_2)
qed (simp add: request_text_def request_line_def header_lines_def header_line_def size_max_def)

text \<open>C25: On every request with a blank line, as the read guarantees, the handler of the read returns:
  it neither loops for ever nor throws, however malformed request line and headers are.\<close>

theorem request_total:
  assumes "has_blank_line s" "length s < size_max"
  shows "\<exists>a. request_read L opt dflt ec s n = Some (Inr a)"
proof -
  obtain ok rq st where "parse_request (istream_of s) request_ctor = Some (Inr (ok, rq, st))"
    using parse_request_total[OF assms] by blast
  then show ?thesis
    by (auto simp: request_read_def Let_def split: option.splits sum.splits)
qed

theorem request_total_witness:
  "\<exists>a. request_read ref_boost (start_resources demo_table) Map.empty False (''a:b'' @ CRLF @ CRLF) 7 = Some (Inr a)"
proof (rule request_total)
  show "has_blank_line (''a:b'' @ CRLF @ CRLF)" unfolding has_blank_line_def by (metis append_Nil2)
qed (simp add: CRLF_def size_max_def)

text \<open>A header line without a colon ends the header: the lines after it, a \<open>Content-Length\<close> among
  them, are not read as headers but handed to the resource as content.\<close>

theorem header_junk_ends_header:
  assumes "word_ok method" "word_ok path" "LF \<notin> set version" "list_all header_valid hs"
    and "LF \<notin> set junk" "COLON \<notin> set junk"
    and "multimap_find L ''Content-Length'' hs = None"
    and "length (request_line method path version @ LF # header_lines hs @ junk @ LF # rest) < size_max"
    and "find_resource L opt dflt (sent_request method path version hs) = Some (f, sm)"
  shows "request_read L opt dflt False
      (request_line method path version @ LF # header_lines hs @ junk @ LF # rest) n
    = Some (Inr (Respond f (sent_request method path version hs) sm rest))"
proof -
  let ?l = "request_line method path version"
  have "parse_request (istream_of (?l @ LF # header_lines hs @ junk @ LF # rest)) request_ctor
      = Some (Inr (True, sent_request method path version hs, istream_of rest))"
    using parse_request_lines[OF assms(1-6,8)] by (simp add: sent_request_def request_ctor_def)
  with assms(7,9) show ?thesis by (simp add: request_read_def sent_request_def dispatch_def)
qed

theorem header_junk_ends_header_witness:
  "request_read ref_boost (start_resources demo_table) Map.empty False
      (request_line ''POST'' ''/a'' ''1.1'' @ LF # header_lines [] @ ''junk'' @ LF # ''Content-Length: 2'') 0
    = Some (Inr (Respond 1 (sent_request ''POST'' ''/a'' ''1.1'' []) (Some [0 \<mapsto> ''/a'']) ''Content-Length: 2''))"
  by (rule header_junk_ends_header[OF demo_facts(1-3) _ _ _ _ _ demo_facts(4)])
    (simp_all add: COLON_def multimap_find_def request_line_def header_lines_def size_max_def)

text \<open>The connection is kept for a next request exactly when the write succeeded, the version is
  late than 1.05 and no \<open>Connection\<close> header, in any capitals, says close; a version that is
  no number closes it.\<close>

theorem keep_alive_iff:
  assumes "boost_contract L"
  shows "keep_alive L stof ec rq \<longleftrightarrow> \<not> ec
    \<and> (\<exists>v. stof (rq_version rq) = Inr v \<and> 21 / 20 < v)
    \<and> \<not> (\<exists>(k, v) \<in> set (rq_header rq). map upper k = map upper ''Connection'' \<and> map upper v = map upper ''close'')"
proof -
  have i: "bx_iequals L a b \<longleftrightarrow> map upper a = map upper b" for a b
    by (rule boost.iequals_eq[OF boost.intro[OF assms]])
  show ?thesis
    by (auto simp: keep_alive_def multimap_equal_range_def i split: sum.splits) force+
qed

theorem keep_alive_iff_witness:
  "\<not> keep_alive ref_boost (\<lambda>v. Inr (11 / 10)) False (sent_request ''GET'' ''/a'' ''1.1'' [(''connection'', ''Close'')])"
  unfolding keep_alive_iff[OF ref_boost_contract] using demo_upper(2,3) by (simp add: sent_request_def del: list.map)
end
