(* ===== verification/Http_Client.thy ===== *)
theory Http_Client
  imports Http_Headers
begin

text \<open>
  The asynchronous HTTP client of \<^verbatim>\<open>http_client/http_client.cpp\<close> as a state machine: each
  handler takes the error of the operation that completed and gives the new state with the
  operation started next. The JSON client on top of it takes the parser of Boost's property
  trees as a parameter.
\<close>

section \<open>State\<close>

text \<open>
  The operation under way on the socket; \<open>Idle\<close> is none, after which \<open>io_service.run\<close> returns
  and the object is deleted. An endpoint is one address of the server.
\<close>

datatype 'e net_op =
    Resolve string | Connect_To 'e "'e list" | Write_Request
  | Read_Until_Line | Read_Until_Blank | Read_Some | Idle

text \<open>\<open>delivered\<close> is what the callback was called with; \<open>printed\<close> counts error messages.\<close>

record 'e http_client =
  hc_request :: string
  hc_response :: string
  hc_res :: string
  hc_op :: "'e net_op"
  hc_socket_open :: bool
  hc_stopped :: bool
  delivered :: "string list"
  printed :: nat

definition http_client_ctor :: "string \<Rightarrow> string \<Rightarrow> 'e http_client" where
  "http_client_ctor server path =
     \<lparr>hc_request = ''GET '' @ path @ '' HTTP/1.0'' @ CRLF @ ''Host: '' @ server @ CRLF
        @ ''Accept: */*'' @ CRLF @ ''Connection: close'' @ CRLF @ CRLF,
      hc_response = [], hc_res = [], hc_op = Resolve server, hc_socket_open = False, hc_stopped = False,
      delivered = [], printed = 0\<rparr>"

definition report :: "'e http_client \<Rightarrow> 'e http_client" where
  "report c = c\<lparr>printed := printed c + 1, hc_op := Idle\<rparr>"

section \<open>Connecting\<close>

text \<open>A successful resolve gives at least one endpoint, which is dereferenced without a test.\<close>

definition handle_resolve :: "bool \<Rightarrow> 'e list \<Rightarrow> 'e http_client \<Rightarrow> 'e http_client result" where
  "handle_resolve err endpoints c =
     (if \<not> err then
        (case endpoints of
           [] \<Rightarrow> Inl Undefined_Behaviour
         | endpoint # rest \<Rightarrow> Inr (c\<lparr>hc_op := Connect_To endpoint rest\<rparr>))
      else Inr (report c))"

definition handle_connect :: "bool \<Rightarrow> 'e list \<Rightarrow> 'e http_client \<Rightarrow> 'e http_client" where
  "handle_connect err rest c =
     (if \<not> err then c\<lparr>hc_op := Write_Request, hc_socket_open := True\<rparr>
      else case rest of
          endpoint # rest' \<Rightarrow> c\<lparr>hc_socket_open := False, hc_op := Connect_To endpoint rest'\<rparr>
        | [] \<Rightarrow> report c)"

text \<open>A completed write has consumed the request buffer.\<close>

definition handle_write_request :: "bool \<Rightarrow> 'e http_client \<Rightarrow> 'e http_client" where
  "handle_write_request err c =
     (if \<not> err then c\<lparr>hc_request := [], hc_op := Read_Until_Line\<rparr> else report c)"

section \<open>Formatted input\<close>

text \<open>
  \<open>operator>>\<close>: blanks are skipped; running into the end of the buffer sets \<open>eofbit\<close>, having
  nothing to extract \<open>failbit\<close> too. On a stream that is not good nothing is extracted.
\<close>

definition read_word :: "istream \<Rightarrow> string \<times> istream" where
  "read_word st =
     (if \<not> stream_good st then ([], st\<lparr>failbit := True\<rparr>)
      else let s = dropWhile is_space (pending st); w = takeWhile (\<lambda>c. \<not> is_space c) s;
               r = dropWhile (\<lambda>c. \<not> is_space c) s
        in (w, st\<lparr>pending := r, eofbit := (r = []), failbit := (w = [])\<rparr>))"

text \<open>
  An unsigned number: an optional sign and digits. No digit gives 0, a number over the range the
  largest value, both with \<open>failbit\<close>; a negative one wraps around.
\<close>

definition uint_max :: nat where "uint_max = 2 ^ 32"

definition read_uint :: "istream \<Rightarrow> nat \<times> istream" where
  "read_uint st =
     (if \<not> stream_good st then (0, st\<lparr>failbit := True\<rparr>)
      else let s = dropWhile is_space (pending st);
               neg = (s \<noteq> [] \<and> hd s = CHR ''-'');
               t = (if s \<noteq> [] \<and> (hd s = CHR ''-'' \<or> hd s = CHR ''+'') then tl s else s);
               ds = takeWhile is_digit t; r = dropWhile is_digit t; v = digits_val 0 ds
        in (if ds = [] then 0 else if uint_max \<le> v then uint_max - 1
            else if neg then (uint_max - v) mod uint_max else v,
            st\<lparr>pending := r, eofbit := (r = []), failbit := (ds = [] \<or> uint_max \<le> v)\<rparr>))"

section \<open>Reading the response\<close>

definition handle_read_status_line :: "bool \<Rightarrow> string \<Rightarrow> 'e http_client \<Rightarrow> 'e http_client" where
  "handle_read_status_line err bytes c =
     (let c = c\<lparr>hc_response := hc_response c @ bytes\<rparr> in
      if \<not> err then
        (let (http_version, st) = read_word (istream_of (hc_response c));
             (status_code, st) = read_uint st;
             (status_message, st) = getline st [];
             c = c\<lparr>hc_response := pending st\<rparr>
         in if failbit st \<or> take 5 http_version \<noteq> ''HTTP/'' then c\<lparr>hc_op := Idle\<rparr>
            else if status_code \<noteq> 200 then c\<lparr>hc_op := Idle\<rparr>
            else c\<lparr>hc_op := Read_Until_Blank\<rparr>)
      else report c)"

text \<open>The loop over the header lines: it ends at a blank line or when a line cannot be read.\<close>

lemma getline_ok_less:
  assumes "\<not> failbit (snd (getline st l))"
  shows "length (pending (snd (getline st l))) < length (pending st)"
proof (cases "stream_good st")
  case True
  have "pending st \<noteq> []" using assms True by (auto simp: getline_def)
  then show ?thesis using True by (rule getline_pending_less)
qed (use assms in simp)

function skip_headers :: "istream \<Rightarrow> istream" where
  "skip_headers st =
     (let (header, st') = getline st []
      in if \<not> failbit st' \<and> header \<noteq> [CR] then skip_headers st' else st')"
  by pat_completeness auto
termination
  by (relation "measure (\<lambda>st. length (pending st))") (auto dest: getline_ok_less simp: prod_eq_iff)

declare skip_headers.simps [simp del]

text \<open>Writing the buffer to the result leaves it empty.\<close>

definition write_res :: "'e http_client \<Rightarrow> 'e http_client" where
  "write_res c = c\<lparr>hc_res := hc_res c @ hc_response c, hc_response := []\<rparr>"

definition handle_read_headers :: "bool \<Rightarrow> string \<Rightarrow> 'e http_client \<Rightarrow> 'e http_client" where
  "handle_read_headers err bytes c =
     (let c = c\<lparr>hc_response := hc_response c @ bytes\<rparr> in
      if \<not> err then
        (let c = c\<lparr>hc_response := pending (skip_headers (istream_of (hc_response c)))\<rparr>;
             c = (if 0 < length (hc_response c) then write_res c else c)
         in c\<lparr>hc_op := Read_Some\<rparr>)
      else report c)"

datatype read_end = More | End_Of_File | Read_Error

definition handle_read_content :: "read_end \<Rightarrow> string \<Rightarrow> 'e http_client \<Rightarrow> 'e http_client" where
  "handle_read_content err bytes c =
     (let c = c\<lparr>hc_response := hc_response c @ bytes\<rparr> in
      case err of
        More \<Rightarrow> (write_res c)\<lparr>hc_op := Read_Some\<rparr>
      | Read_Error \<Rightarrow> report c
      | End_Of_File \<Rightarrow> c\<lparr>delivered := delivered c @ [hc_res c], hc_socket_open := False,
          hc_stopped := True, hc_op := Idle\<rparr>)"

section \<open>The JSON client\<close>

text \<open>
  \<open>json_client\<close> passes the text to \<open>read_json\<close>; a parse error is an exception in the thread that
  runs the client, which nothing catches.
\<close>

definition json_callback :: "(string \<Rightarrow> 'j option) \<Rightarrow> ('j \<Rightarrow> 's \<Rightarrow> 's result) \<Rightarrow> string \<Rightarrow> 's \<Rightarrow> 's result" where
  "json_callback read_json json_cb res s =
     (case read_json res of None \<Rightarrow> Inl Invalid_Argument | Some pt \<Rightarrow> json_cb pt s)"

section \<open>The handlers on a response\<close>

text \<open>
  The network: \<open>async_read_until\<close> completes once the delimiter is in the buffer, with whatever
  has arrived by then; it needs no further byte when it is there already.
\<close>

definition status_line :: "string \<Rightarrow> string \<Rightarrow> string" where
  "status_line version message = ''HTTP/'' @ version @ '' 200'' @ message @ [CR]"

definition no_space :: "string \<Rightarrow> bool" where
  "no_space w \<longleftrightarrow> (\<forall>c \<in> set w. \<not> is_space c)"

lemma read_word_line:
  "no_space w \<Longrightarrow> w \<noteq> [] \<Longrightarrow> is_space c \<Longrightarrow>
   read_word (istream_of (w @ c # r)) = (w, istream_of (c # r))"
proof -
  assume w: "no_space w" "w \<noteq> []" "is_space c"
  then have "dropWhile is_space (w @ c # r) = w @ c # r" by (cases w) (auto simp: no_space_def)
  moreover have "takeWhile (\<lambda>c. \<not> is_space c) (w @ c # r) = w" "dropWhile (\<lambda>c. \<not> is_space c) (w @ c # r) = c # r"
    using w by (auto simp: no_space_def)
  ultimately have "read_word (istream_of (w @ c # r))
      = (w, (istream_of (w @ c # r))\<lparr>pending := c # r, eofbit := False, failbit := False\<rparr>)"
    unfolding read_word_def Let_def istream_of_simps using w(2) by simp
  then show ?thesis by (simp add: istream_of_def)
qed

lemma read_uint_parts:
  assumes "dropWhile is_space p = d # ds @ r" "is_digit d" "\<forall>c \<in> set ds. is_digit c"
    "r \<noteq> []" "\<not> is_digit (hd r)" "digits_val 0 (d # ds) < uint_max"
  shows "read_uint (istream_of p) = (digits_val 0 (d # ds), istream_of r)"
proof -
  have d: "d \<noteq> CHR ''-''" "d \<noteq> CHR ''+''" using digit_not_special[OF assms(2)] by auto
  obtain x r' where r: "r = x # r'" "\<not> is_digit x" using assms(4,5) by (cases r) auto
  have "takeWhile is_digit (d # ds @ r) = d # ds" "dropWhile is_digit (d # ds @ r) = r"
    using assms(2,3) r by simp_all
  then have "read_uint (istream_of p) = (digits_val 0 (d # ds), (istream_of p)\<lparr>pending := r, eofbit := False, failbit := False\<rparr>)"
    unfolding read_uint_def Let_def istream_of_simps assms(1) list.sel using d assms(4,6)
    by (simp del: digits_val.simps)
  then show ?thesis by (simp add: istream_of_def)
qed

lemma read_uint_line:
  assumes "r \<noteq> []" "\<not> is_digit (hd r)"
  shows "read_uint (istream_of (SP # ''200'' @ r)) = (200, istream_of r)"
proof -
  have "read_uint (istream_of (SP # CHR ''2'' # ''00'' @ r)) = (digits_val 0 ''200'', istream_of r)"
    using assms by (intro read_uint_parts)
      (simp_all add: is_space_def is_digit_def uint_max_def digit_val_def)
  then show ?thesis by (simp add: digit_val_def)
qed

lemma status_line_read:
  assumes "no_space version" "LF \<notin> set message" "message = [] \<or> \<not> is_digit (hd message)"
    and "hc_response c @ bytes = status_line version message @ LF # r"
  shows "handle_read_status_line False bytes c = c\<lparr>hc_response := r, hc_op := Read_Until_Blank\<rparr>"
proof -
  have v: "no_space (''HTTP/'' @ version)" using assms(1) by (simp add: no_space_def is_space_def)
  have w: "read_word (istream_of (status_line version message @ LF # r))
      = (''HTTP/'' @ version, istream_of (SP # ''200'' @ (message @ [CR]) @ LF # r))"
    using read_word_line[OF v, of SP "''200'' @ message @ CR # LF # r"] by (simp add: status_line_def is_space_def)
  have u: "read_uint (istream_of (SP # ''200'' @ (message @ [CR]) @ LF # r)) = (200, istream_of ((message @ [CR]) @ LF # r))"
    using assms(3) by (intro read_uint_line) (auto simp: hd_append is_digit_def)
  have g: "getline (istream_of ((message @ [CR]) @ LF # r)) [] = (message @ [CR], istream_of r)"
    using assms(2) by (intro getline_line) auto
  show ?thesis
    unfolding handle_read_status_line_def Let_def
    by (simp add: assms(4) w[unfolded append_Cons append_Nil] u[unfolded append_Cons append_Nil] g del: append_assoc)
qed

lemma skip_header_lines:
  "list_all header_valid hs \<Longrightarrow> skip_headers (istream_of (header_lines hs @ CR # LF # r)) = istream_of r"
proof (induction hs)
  case Nil
  then show ?case
    using getline_line[of "[CR]" r "[]"] by (subst skip_headers.simps) (simp add: header_lines_def)
next
  case (Cons h hs)
  have "getline (istream_of (header_line h @ LF # header_lines hs @ CR # LF # r)) []
      = (header_line h, istream_of (header_lines hs @ CR # LF # r))"
    using Cons.prems by (intro getline_line) simp
  moreover have "header_line h \<noteq> [CR]" by (cases h) (simp add: header_line_def append_eq_Cons_conv)
  ultimately show ?case
    using Cons by (subst skip_headers.simps) (simp add: header_lines_def)
qed


section \<open>Trying the endpoints\<close>

text \<open>\<open>up\<close> says which endpoints accept a connection; the handler is run until no connect is under way.\<close>

function connect_run :: "('e \<Rightarrow> bool) \<Rightarrow> 'e http_client \<Rightarrow> 'e http_client" where
  "connect_run up c =
     (case hc_op c of
        Connect_To endpoint rest \<Rightarrow> connect_run up (handle_connect (\<not> up endpoint) rest c)
      | _ \<Rightarrow> c)"
  by pat_completeness auto
termination
  by (relation "measure (\<lambda>(up, c). case hc_op c of Connect_To endpoint rest \<Rightarrow> Suc (length rest) | _ \<Rightarrow> 0)")
    (auto simp: handle_connect_def report_def split: list.splits)

declare connect_run.simps [simp del]

lemma connect_run_all:
  "hc_op c = Connect_To e es \<Longrightarrow>
   connect_run up c =
     (if \<exists>x \<in> set (e # es). up x
      then c\<lparr>hc_op := Write_Request, hc_socket_open := True\<rparr>
      else c\<lparr>hc_socket_open := (if es = [] then hc_socket_open c else False), hc_op := Idle, printed := printed c + 1\<rparr>)"
proof (induction es arbitrary: e c)
  case Nil
  have stop: "connect_run up d = d" if "hc_op d = Write_Request \<or> hc_op d = Idle" for d
    using that by (subst connect_run.simps) auto
  show ?case
    using Nil by (subst connect_run.simps) (simp add: handle_connect_def report_def stop)
next
  case (Cons x es)
  have stop: "connect_run up d = d" if "hc_op d = Write_Request" for d
    using that by (subst connect_run.simps) auto
  let ?d = "c\<lparr>hc_socket_open := False, hc_op := Connect_To x es\<rparr>"
  have "connect_run up c = (if up e then c\<lparr>hc_op := Write_Request, hc_socket_open := True\<rparr> else connect_run up ?d)"
    using Cons.prems by (subst connect_run.simps) (simp add: handle_connect_def stop)
  with Cons.IH[of ?d x] show ?case by simp
qed

section \<open>A whole response\<close>

text \<open>
  The network between the request and the end of the stream: the bytes the server sends arrive in
  \<open>parts\<close>, cut in any way. \<open>async_read_until\<close> completes as soon as the delimiter is in the buffer,
  also when it is there already, and with an error when the stream ends before; \<open>got\<close> is what
  the read under way has got so far. A read of at least one byte completes with the next part.
\<close>

fun contains :: "string \<Rightarrow> string \<Rightarrow> bool" where
  "contains d [] = (d = [])"
| "contains d (c # s) = (take (length d) (c # s) = d \<or> contains d s)"

function receive :: "string list \<Rightarrow> string \<Rightarrow> 'e http_client \<Rightarrow> 'e http_client" where
  "receive parts got c =
     (case hc_op c of
        Read_Until_Line \<Rightarrow>
          (if contains CRLF (hc_response c @ got) then receive parts [] (handle_read_status_line False got c)
           else case parts of
               [] \<Rightarrow> handle_read_status_line True got c
             | p # ps \<Rightarrow> receive ps (got @ p) c)
      | Read_Until_Blank \<Rightarrow>
          (if contains (CRLF @ CRLF) (hc_response c @ got) then receive parts [] (handle_read_headers False got c)
           else case parts of
               [] \<Rightarrow> handle_read_headers True got c
             | p # ps \<Rightarrow> receive ps (got @ p) c)
      | Read_Some \<Rightarrow>
          (case parts of
             [] \<Rightarrow> handle_read_content End_Of_File [] c
           | p # ps \<Rightarrow> receive ps [] (handle_read_content More p c))
      | _ \<Rightarrow> c)"
  by pat_completeness auto
termination
  by (relation "measures [\<lambda>(parts, got, c). length parts,
      \<lambda>(parts, got, c). case hc_op c of Read_Until_Line \<Rightarrow> 2 | Read_Until_Blank \<Rightarrow> 1 | _ \<Rightarrow> 0]")
    (auto simp: handle_read_status_line_def handle_read_headers_def Let_def split: prod.split)

declare receive.simps [simp del]

lemma contains_iff: "contains d s \<longleftrightarrow> (\<exists>a b. s = a @ d @ b)"
proof (induction s)
  case (Cons c s)
  have "take (length d) (c # s) = d \<longleftrightarrow> (\<exists>b. c # s = d @ b)"
    by (metis append_eq_conv_conj append_take_drop_id)
  with Cons show ?case by (auto simp: Cons_eq_append_conv)
qed auto

lemma containsI: "contains d (a @ d @ b)"
  by (auto simp: contains_iff)

text \<open>How much has arrived once a delimiter has: the status line, or the whole header.\<close>

lemma prefix_with_line:
  assumes "pre @ post = s @ LF # r" "contains CRLF pre" "LF \<notin> set s"
  obtains r' where "pre = s @ LF # r'" "r' @ post = r"
proof -
  have "LF \<in> set pre" using assms(2) by (auto simp: contains_iff CRLF_def)
  with assms(1,3) obtain us where us: "pre = s @ us" "us @ post = LF # r"
    by (auto simp: append_eq_append_conv2)
  with \<open>LF \<in> set pre\<close> assms(3) have "us \<noteq> []" by auto
  with us(2) obtain r' where "us = LF # r'" "r' @ post = r" by (cases us) auto
  with that us(1) show thesis by simp
qed

lemma no_blank_in_headers:
  assumes "list_all header_valid hs" "header_lines hs = a @ CRLF @ CRLF @ b"
  shows False
  using assms
proof (induction hs arbitrary: a)
  case Nil
  then show ?case by (simp add: header_lines_def CRLF_def)
next
  case (Cons h hs)
  have h: "LF \<notin> set (header_line h)" and e: "header_line h @ LF # header_lines hs = (a @ [CR]) @ LF # CR # LF # b"
    using Cons.prems by (simp_all add: header_lines_def CRLF_def)
  show ?case
  proof (cases "LF \<in> set a")
    case True
    then obtain u a' where "a = u @ LF # a'" "LF \<notin> set u" by (metis split_list_first)
    with e h have "header_lines hs = a' @ CRLF @ CRLF @ b"
      by (simp add: CRLF_def append_eq_append_conv2 Cons_eq_append_conv) (auto simp: append_eq_Cons_conv)
    with Cons show ?thesis by simp
  next
    case False
    with e h have hl: "header_lines hs = CR # LF # b"
      by (auto simp: append_eq_append_conv2 Cons_eq_append_conv append_eq_Cons_conv)
    then obtain h' hs' where hs: "hs = h' # hs'" by (cases hs) (simp_all add: header_lines_def)
    with hl have "header_line h' @ LF # header_lines hs' = [CR] @ LF # b" by (simp add: header_lines_def)
    moreover have "LF \<notin> set (header_line h')" using Cons.prems(1) hs by simp
    ultimately have "header_line h' = [CR]"
      by (auto simp: append_eq_append_conv2 Cons_eq_append_conv append_eq_Cons_conv)
    then show ?thesis by (cases h') (simp add: header_line_def append_eq_Cons_conv)
  qed
qed

lemma prefix_with_blank:
  assumes "pre @ post = header_lines hs @ CR # LF # r" "contains (CRLF @ CRLF) pre" "list_all header_valid hs"
  obtains r' where "pre = header_lines hs @ CR # LF # r'" "r' @ post = r"
proof -
  obtain a b where ab: "pre = a @ CRLF @ CRLF @ b" using assms(2) by (auto simp: contains_iff)
  let ?d = "a @ CRLF @ CRLF" and ?H = "header_lines hs"
  have e: "?d @ b @ post = ?H @ CR # LF # r" using assms(1) ab by simp
  show thesis
  proof (cases "length ?d \<le> Suc (length ?H)")
    case True
    have t: "take (length ?d) (?H @ CR # LF # r) = ?d" by (metis append_eq_conv_conj e)
    have "length ?d \<noteq> Suc (length ?H)"
    proof
      assume "length ?d = Suc (length ?H)"
      with t have "last (?H @ [CR]) = last ?d" by simp
      then show False by (simp add: CRLF_def)
    qed
    with True have l: "length ?d \<le> length ?H" by linarith
    from t have "take (length ?d) ?H = ?d" unfolding take_append using l by simp
    then have "?H = a @ CRLF @ CRLF @ drop (length ?d) ?H" by (metis append.assoc append_take_drop_id)
    with no_blank_in_headers[OF assms(3)] show thesis by blast
  next
    case False
    then have l: "length ?H + 2 \<le> length pre" unfolding ab by simp
    have "take (length ?H + 2) pre = take (length ?H + 2) (?H @ CR # LF # r)" using l assms(1) by (metis take_append diff_is_0_eq take_0 append_Nil2)
    then have "pre = ?H @ CR # LF # drop (length ?H + 2) pre"
      using append_take_drop_id[of "length ?H + 2" pre] by simp
    with that assms(1) show thesis by (metis append_Cons append_assoc same_append_eq list.inject)
  qed
qed

text \<open>The three reads of a response, each however the parts are cut.\<close>

lemma receive_status_line:
  assumes "no_space version" "LF \<notin> set message" "message = [] \<or> \<not> is_digit (hd message)"
    and "hc_op c = Read_Until_Line" "hc_response c = []"
    and "got @ concat parts = status_line version message @ LF # r"
  shows "\<exists>r' parts'. r' @ concat parts' = r
    \<and> receive parts got c = receive parts' [] (c\<lparr>hc_response := r', hc_op := Read_Until_Blank\<rparr>)"
  using assms(6)
proof (induction parts arbitrary: got)
  case arrived: (Cons p ps)
  show ?case
  proof (cases "contains CRLF got")
    case True
    have "LF \<notin> set (status_line version message)" using assms(1,2) by (auto simp: status_line_def no_space_def is_space_def)
    with prefix_with_line[OF arrived.prems True] obtain r' where
      r': "got = status_line version message @ LF # r'" "r' @ concat (p # ps) = r" by metis
    have "handle_read_status_line False got c = c\<lparr>hc_response := r', hc_op := Read_Until_Blank\<rparr>"
      by (rule status_line_read[OF assms(1-3)]) (simp add: assms(5) r'(1))
    with True r'(2) assms(4,5) show ?thesis
      by (intro exI[of _ r'] exI[of _ "p # ps"]) (simp add: receive.simps[of "p # ps" got c])
  next
    case False
    have "receive (p # ps) got c = receive ps (got @ p) c"
      using False assms(4,5) by (simp add: receive.simps[of "p # ps" got c])
    with arrived.IH[of "got @ p"] arrived.prems show ?thesis by simp
  qed
next
  case ended: Nil
  then have g: "got = status_line version message @ LF # r" by simp
  have "contains CRLF got"
    using containsI[of CRLF "''HTTP/'' @ version @ '' 200'' @ message" r] by (simp add: g status_line_def CRLF_def)
  moreover have "handle_read_status_line False got c = c\<lparr>hc_response := r, hc_op := Read_Until_Blank\<rparr>"
    by (rule status_line_read[OF assms(1-3)]) (simp add: assms(5) g)
  ultimately show ?case
    using assms(4,5) by (intro exI[of _ r] exI[of _ "[]"]) (simp add: receive.simps[of "[]" got c])
qed

lemma headers_skipped:
  "list_all header_valid hs \<Longrightarrow> hc_response c @ got = header_lines hs @ CR # LF # r \<Longrightarrow>
   handle_read_headers False got c = c\<lparr>hc_response := [], hc_res := hc_res c @ r, hc_op := Read_Some\<rparr>"
  using skip_header_lines[of hs r] by (cases "r = []") (simp_all add: handle_read_headers_def write_res_def Let_def)

lemma receive_headers:
  assumes "list_all header_valid hs" "contains (CRLF @ CRLF) (header_lines hs @ CR # LF # body)"
    and "hc_op c = Read_Until_Blank" "(hc_response c @ got) @ concat parts = header_lines hs @ CR # LF # body"
  shows "\<exists>r parts'. r @ concat parts' = body
    \<and> receive parts got c = receive parts' [] (c\<lparr>hc_response := [], hc_res := hc_res c @ r, hc_op := Read_Some\<rparr>)"
  using assms(4)
proof (induction parts arbitrary: got)
  case Nil
  then have g: "hc_response c @ got = header_lines hs @ CR # LF # body" by simp
  have "handle_read_headers False got c = c\<lparr>hc_response := [], hc_res := hc_res c @ body, hc_op := Read_Some\<rparr>"
    by (rule headers_skipped[OF assms(1) g])
  with g assms(2,3) show ?case
    by (intro exI[of _ body] exI[of _ "[]"]) (simp add: receive.simps[of "[]" got c])
next
  case (Cons p ps)
  show ?case
  proof (cases "contains (CRLF @ CRLF) (hc_response c @ got)")
    case True
    obtain r where r: "hc_response c @ got = header_lines hs @ CR # LF # r" "r @ concat (p # ps) = body"
      by (rule prefix_with_blank[OF Cons.prems True assms(1)])
    have "handle_read_headers False got c = c\<lparr>hc_response := [], hc_res := hc_res c @ r, hc_op := Read_Some\<rparr>"
      by (rule headers_skipped[OF assms(1) r(1)])
    with True r(2) assms(3) show ?thesis
      by (intro exI[of _ r] exI[of _ "p # ps"]) (simp add: receive.simps[of "p # ps" got c])
  next
    case False
    have "receive (p # ps) got c = receive ps (got @ p) c"
      using False assms(3) by (simp add: receive.simps[of "p # ps" got c])
    with Cons.IH[of "got @ p"] Cons.prems show ?thesis by simp
  qed
qed

lemma receive_content:
  "hc_op c = Read_Some \<Longrightarrow> hc_response c = [] \<Longrightarrow>
   receive parts [] c = handle_read_content End_Of_File [] (c\<lparr>hc_res := hc_res c @ concat parts\<rparr>)"
proof (induction parts arbitrary: c)
  case Nil
  then show ?case by (simp add: receive.simps[of "[]"])
next
  case (Cons p ps)
  let ?c = "handle_read_content More p c"
  have c: "?c = c\<lparr>hc_res := hc_res c @ p\<rparr>" using Cons.prems by (simp add: handle_read_content_def write_res_def)
  have "receive (p # ps) [] c = receive ps [] ?c" using Cons.prems by (simp add: receive.simps[of "p # ps"])
  also have "\<dots> = handle_read_content End_Of_File [] (?c\<lparr>hc_res := hc_res ?c @ concat ps\<rparr>)"
    using Cons.prems by (intro Cons.IH) (simp_all add: c)
  finally show ?case by (simp add: c)
qed

text \<open>Without a blank line in all that arrives the read ends with the stream, in an error.\<close>

lemma receive_no_blank:
  assumes "hc_op c = Read_Until_Blank" "\<not> contains (CRLF @ CRLF) (hc_response c @ got @ concat parts)"
  shows "\<exists>rest. receive parts got c = report (c\<lparr>hc_response := rest\<rparr>)"
  using assms(2)
proof (induction parts arbitrary: got)
  case Nil
  with assms(1) show ?case
    by (auto simp: receive.simps[of "[]" got c] handle_read_headers_def)
next
  case (Cons p ps)
  have "\<not> contains (CRLF @ CRLF) (hc_response c @ got)"
    using Cons.prems by (auto simp: contains_iff) (metis append.assoc)
  then have "receive (p # ps) got c = receive ps (got @ p) c"
    using assms(1) by (simp add: receive.simps[of "p # ps" got c])
  with Cons.IH[of "got @ p"] Cons.prems show ?case by simp
qed

text \<open>What the server sends, and when its header is found.\<close>

definition response_text :: "string \<Rightarrow> string \<Rightarrow> (string \<times> string) list \<Rightarrow> string \<Rightarrow> string" where
  "response_text version message hs body = status_line version message @ LF # header_lines hs @ CR # LF # body"

definition response_ok :: "string \<Rightarrow> string \<Rightarrow> (string \<times> string) list \<Rightarrow> bool" where
  "response_ok version message hs \<longleftrightarrow> no_space version \<and> LF \<notin> set message
     \<and> (message = [] \<or> \<not> is_digit (hd message)) \<and> list_all header_valid hs"

lemma header_found:
  assumes "hs \<noteq> []"
  shows "contains (CRLF @ CRLF) (header_lines hs @ CR # LF # body)"
proof -
  obtain xs h where "hs = xs @ [h]" using assms by (cases hs rule: rev_cases) auto
  then have "header_lines hs @ CR # LF # body = (header_lines xs @ fst h @ COLON # SP # snd h) @ (CRLF @ CRLF) @ body"
    by (simp add: header_lines_def header_line_def CRLF_def)
  then show ?thesis by (simp only: containsI)
qed

lemma response_received:
  assumes "response_ok version message hs" "hs \<noteq> [] \<or> contains (CRLF @ CRLF) (CR # LF # body)"
    and "hc_op c = Read_Until_Line" "hc_response c = []"
    and "concat parts = response_text version message hs body"
  shows "delivered (receive parts [] c) = delivered c @ [hc_res c @ body]" "printed (receive parts [] c) = printed c"
    "hc_stopped (receive parts [] c)" "hc_op (receive parts [] c) = Idle"
proof -
  have ok: "no_space version" "LF \<notin> set message" "message = [] \<or> \<not> is_digit (hd message)" "list_all header_valid hs"
    using assms(1) by (simp_all add: response_ok_def)
  have bl: "contains (CRLF @ CRLF) (header_lines hs @ CR # LF # body)"
    using assms(2) header_found by (cases "hs = []") (auto simp: header_lines_def)
  have t: "[] @ concat parts = status_line version message @ LF # header_lines hs @ CR # LF # body"
    using assms(5) by (simp add: response_text_def)
  obtain r ps where 1: "r @ concat ps = header_lines hs @ CR # LF # body"
    "receive parts [] c = receive ps [] (c\<lparr>hc_response := r, hc_op := Read_Until_Blank\<rparr>)"
    using receive_status_line[OF ok(1-3) assms(3,4) t] by blast
  let ?c = "c\<lparr>hc_response := r, hc_op := Read_Until_Blank\<rparr>"
  have u: "hc_op ?c = Read_Until_Blank" "(hc_response ?c @ []) @ concat ps = header_lines hs @ CR # LF # body" using 1(1) by simp_all
  obtain q qs where 2: "q @ concat qs = body"
    "receive ps [] ?c = receive qs [] (?c\<lparr>hc_response := [], hc_res := hc_res ?c @ q, hc_op := Read_Some\<rparr>)"
    using receive_headers[OF ok(4) bl u] by blast
  have "receive parts [] c = handle_read_content End_Of_File []
      (c\<lparr>hc_response := [], hc_op := Read_Some, hc_res := hc_res c @ body\<rparr>)"
    unfolding 1(2) 2 by (subst receive_content) (simp_all add: 2(1)[symmetric])
  then show "delivered (receive parts [] c) = delivered c @ [hc_res c @ body]" "printed (receive parts [] c) = printed c"
    "hc_stopped (receive parts [] c)" "hc_op (receive parts [] c) = Idle"
    by (simp_all add: handle_read_content_def)
qed

section \<open>Properties\<close>

text \<open>C28: A response with status 200 and a header is delivered to the callback exactly once, its content
  whole and without any of the status line or the header, however the network cuts it into parts.
  A response without header fields is delivered too, if its content makes up for the blank line.\<close>

theorem response_delivered:
  assumes "response_ok version message hs" "hs \<noteq> [] \<or> contains (CRLF @ CRLF) (CR # LF # body)"
    and "hc_op c = Read_Until_Line" "hc_response c = []"
    and "concat parts = response_text version message hs body"
  shows "delivered (receive parts [] c) = delivered c @ [hc_res c @ body]
    \<and> printed (receive parts [] c) = printed c \<and> hc_stopped (receive parts [] c) \<and> hc_op (receive parts [] c) = Idle"
  using response_received[OF assms] by blast

lemma demo_response:
  "response_ok ''1.0'' '' OK'' [(''A'', ''1'')]" "response_ok ''1.0'' '' OK'' []"
  by (simp_all add: response_ok_def no_space_def is_space_def is_digit_def header_valid_def COLON_def)

theorem response_delivered_witness:
  "delivered (receive [''HT'', ''TP/1.0 200 OK'' @ [CR], LF # ''A: 1'' @ CRLF @ [CR], LF # ''a'', ''bc''] []
      (handle_write_request False ((http_client_ctor ''s'' ''/p'') :: nat http_client))) = [''abc'']"
proof -
  let ?c = "handle_write_request False ((http_client_ctor ''s'' ''/p'') :: nat http_client)"
  let ?parts = "[''HT'', ''TP/1.0 200 OK'' @ [CR], LF # ''A: 1'' @ CRLF @ [CR], LF # ''a'', ''bc'']"
  have c: "hc_op ?c = Read_Until_Line" "hc_response ?c = []" "delivered ?c = []" "hc_res ?c = []"
    by (simp_all add: handle_write_request_def http_client_ctor_def)
  have "concat ?parts = response_text ''1.0'' '' OK'' [(''A'', ''1'')] ''abc''"
    by (simp add: response_text_def status_line_def header_lines_def header_line_def COLON_def CRLF_def)
  from response_delivered[OF demo_response(1) _ c(1,2) this] c(3,4) show ?thesis by simp
qed

text \<open>C29: A response with status 200 but without header fields is not delivered, however it is cut, unless
  its content completes a blank line: the client waits for two line ends in a row behind a status
  line that has taken the first, and the end of the stream is then reported as an error.\<close>

theorem headerless_response_lost:
  assumes "response_ok version message []" "\<not> contains (CRLF @ CRLF) (CR # LF # body)"
    and "hc_op c = Read_Until_Line" "hc_response c = []"
    and "concat parts = response_text version message [] body"
  shows "delivered (receive parts [] c) = delivered c \<and> hc_op (receive parts [] c) = Idle
    \<and> printed (receive parts [] c) = printed c + 1 \<and> hc_stopped (receive parts [] c) = hc_stopped c"
proof -
  have ok: "no_space version" "LF \<notin> set message" "message = [] \<or> \<not> is_digit (hd message)"
    using assms(1) by (simp_all add: response_ok_def)
  have t: "[] @ concat parts = status_line version message @ LF # CR # LF # body"
    using assms(5) by (simp add: response_text_def header_lines_def)
  obtain r ps where r: "r @ concat ps = CR # LF # body"
    "receive parts [] c = receive ps [] (c\<lparr>hc_response := r, hc_op := Read_Until_Blank\<rparr>)"
    using receive_status_line[OF ok assms(3,4) t] by blast
  let ?c = "c\<lparr>hc_response := r, hc_op := Read_Until_Blank\<rparr>"
  obtain rest where "receive ps [] ?c = report (?c\<lparr>hc_response := rest\<rparr>)"
    using receive_no_blank[of ?c "[]" ps] assms(2) r(1) by auto
  then show ?thesis by (simp add: r(2) report_def)
qed

theorem headerless_response_lost_witness:
  "delivered (receive [''HTTP/1.0 200 OK'' @ [CR], LF # CRLF @ ''{'', ''}''] []
      (handle_write_request False ((http_client_ctor ''s'' ''/p'') :: nat http_client))) = []"
proof -
  let ?c = "handle_write_request False ((http_client_ctor ''s'' ''/p'') :: nat http_client)"
  have c: "hc_op ?c = Read_Until_Line" "hc_response ?c = []" "delivered ?c = []"
    by (simp_all add: handle_write_request_def http_client_ctor_def)
  have "concat [''HTTP/1.0 200 OK'' @ [CR], LF # CRLF @ ''{'', ''}''] = response_text ''1.0'' '' OK'' [] ''{}''"
    by (simp add: response_text_def status_line_def header_lines_def CRLF_def)
  moreover have "\<not> contains (CRLF @ CRLF) (CR # LF # ''{}'')" by (simp add: CRLF_def)
  ultimately show ?thesis using headerless_response_lost[OF demo_response(2) _ c(1,2)] c(3) by metis
qed

text \<open>C35: The endpoints of the server are tried one after the other: the request is written exactly
  when one of them accepts, and when none does one error is reported and nothing is left to do.
  The loop over the endpoints ends.\<close>

theorem endpoints_tried:
  assumes "endpoints \<noteq> []"
  shows "\<exists>c1. handle_resolve False endpoints (http_client_ctor server path) = Inr c1
    \<and> (if \<exists>e \<in> set endpoints. up e
       then hc_op (connect_run up c1) = Write_Request \<and> hc_request (connect_run up c1)
         = ''GET '' @ path @ '' HTTP/1.0'' @ CRLF @ ''Host: '' @ server @ CRLF @ ''Accept: */*'' @ CRLF
           @ ''Connection: close'' @ CRLF @ CRLF
       else hc_op (connect_run up c1) = Idle \<and> printed (connect_run up c1) = 1)"
proof -
  obtain e es where es: "endpoints = e # es" using assms by (cases endpoints) auto
  let ?c = "(http_client_ctor server path)\<lparr>hc_op := Connect_To e es\<rparr>"
  have "handle_resolve False endpoints (http_client_ctor server path) = Inr ?c"
    by (simp add: handle_resolve_def es)
  moreover have "hc_op ?c = Connect_To e es" by simp
  note connect_run_all[OF this, of up]
  ultimately show ?thesis by (simp add: es http_client_ctor_def)
qed

theorem endpoints_tried_witness:
  "\<exists>c1. handle_resolve False [1, 2] ((http_client_ctor ''s'' ''/p'') :: nat http_client) = Inr c1
    \<and> hc_op (connect_run (\<lambda>e. e = 2) c1) = Write_Request"
  using endpoints_tried[of "[1, 2]" "''s''" "''/p''" "\<lambda>e. e = (2::nat)"] by auto
end
