(* ===== verification/Sqlite_Api.thy ===== *)
theory Sqlite_Api
  imports Prelude
begin

text \<open>
  What \<^verbatim>\<open>sqlite3/sqlite3.h\<close> defines itself: the numeric constants of the interface, as tables
  in source order, and the structures exchanged with the library, as layouts. The functions
  the header only declares are not part of the repository. The lemmas show that the codes
  and flags can be told apart the way their users do, and how the structures lie in memory.
\<close>

section \<open>Result codes\<close>

text \<open>The primary result codes.\<close>

definition SQLITE_OK :: nat where "SQLITE_OK = 0"
definition SQLITE_ERROR :: nat where "SQLITE_ERROR = 1"
definition SQLITE_INTERNAL :: nat where "SQLITE_INTERNAL = 2"
definition SQLITE_PERM :: nat where "SQLITE_PERM = 3"
definition SQLITE_ABORT :: nat where "SQLITE_ABORT = 4"
definition SQLITE_BUSY :: nat where "SQLITE_BUSY = 5"
definition SQLITE_LOCKED :: nat where "SQLITE_LOCKED = 6"
definition SQLITE_NOMEM :: nat where "SQLITE_NOMEM = 7"
definition SQLITE_READONLY :: nat where "SQLITE_READONLY = 8"
definition SQLITE_INTERRUPT :: nat where "SQLITE_INTERRUPT = 9"
definition SQLITE_IOERR :: nat where "SQLITE_IOERR = 10"
definition SQLITE_CORRUPT :: nat where "SQLITE_CORRUPT = 11"
definition SQLITE_NOTFOUND :: nat where "SQLITE_NOTFOUND = 12"
definition SQLITE_FULL :: nat where "SQLITE_FULL = 13"
definition SQLITE_CANTOPEN :: nat where "SQLITE_CANTOPEN = 14"
definition SQLITE_PROTOCOL :: nat where "SQLITE_PROTOCOL = 15"
definition SQLITE_EMPTY :: nat where "SQLITE_EMPTY = 16"
definition SQLITE_SCHEMA :: nat where "SQLITE_SCHEMA = 17"
definition SQLITE_TOOBIG :: nat where "SQLITE_TOOBIG = 18"
definition SQLITE_CONSTRAINT :: nat where "SQLITE_CONSTRAINT = 19"
definition SQLITE_MISMATCH :: nat where "SQLITE_MISMATCH = 20"
definition SQLITE_MISUSE :: nat where "SQLITE_MISUSE = 21"
definition SQLITE_NOLFS :: nat where "SQLITE_NOLFS = 22"
definition SQLITE_AUTH :: nat where "SQLITE_AUTH = 23"
definition SQLITE_FORMAT :: nat where "SQLITE_FORMAT = 24"
definition SQLITE_RANGE :: nat where "SQLITE_RANGE = 25"
definition SQLITE_NOTADB :: nat where "SQLITE_NOTADB = 26"
definition SQLITE_NOTICE :: nat where "SQLITE_NOTICE = 27"
definition SQLITE_WARNING :: nat where "SQLITE_WARNING = 28"
definition SQLITE_ROW :: nat where "SQLITE_ROW = 100"
definition SQLITE_DONE :: nat where "SQLITE_DONE = 101"

definition sqlite_result_codes :: "nat list" where
  "sqlite_result_codes = [
    SQLITE_OK, SQLITE_ERROR, SQLITE_INTERNAL, SQLITE_PERM, SQLITE_ABORT, SQLITE_BUSY,
    SQLITE_LOCKED, SQLITE_NOMEM, SQLITE_READONLY, SQLITE_INTERRUPT, SQLITE_IOERR,
    SQLITE_CORRUPT, SQLITE_NOTFOUND, SQLITE_FULL, SQLITE_CANTOPEN, SQLITE_PROTOCOL,
    SQLITE_EMPTY, SQLITE_SCHEMA, SQLITE_TOOBIG, SQLITE_CONSTRAINT, SQLITE_MISMATCH,
    SQLITE_MISUSE, SQLITE_NOLFS, SQLITE_AUTH, SQLITE_FORMAT, SQLITE_RANGE, SQLITE_NOTADB,
    SQLITE_NOTICE, SQLITE_WARNING, SQLITE_ROW, SQLITE_DONE]"

lemmas result_code_defs =
    SQLITE_OK_def SQLITE_ERROR_def SQLITE_INTERNAL_def SQLITE_PERM_def SQLITE_ABORT_def
    SQLITE_BUSY_def SQLITE_LOCKED_def SQLITE_NOMEM_def SQLITE_READONLY_def
    SQLITE_INTERRUPT_def SQLITE_IOERR_def SQLITE_CORRUPT_def SQLITE_NOTFOUND_def
    SQLITE_FULL_def SQLITE_CANTOPEN_def SQLITE_PROTOCOL_def SQLITE_EMPTY_def
    SQLITE_SCHEMA_def SQLITE_TOOBIG_def SQLITE_CONSTRAINT_def SQLITE_MISMATCH_def
    SQLITE_MISUSE_def SQLITE_NOLFS_def SQLITE_AUTH_def SQLITE_FORMAT_def SQLITE_RANGE_def
    SQLITE_NOTADB_def SQLITE_NOTICE_def SQLITE_WARNING_def SQLITE_ROW_def SQLITE_DONE_def

text \<open>The extended ones: a primary code and a number shifted into the second byte.\<close>

definition sqlite_extended_codes :: "(string \<times> nat \<times> nat) list" where
  "sqlite_extended_codes = [
    (''SQLITE_IOERR_READ'', SQLITE_IOERR, 1), (''SQLITE_IOERR_SHORT_READ'', SQLITE_IOERR, 2),
    (''SQLITE_IOERR_WRITE'', SQLITE_IOERR, 3), (''SQLITE_IOERR_FSYNC'', SQLITE_IOERR, 4),
    (''SQLITE_IOERR_DIR_FSYNC'', SQLITE_IOERR, 5), (''SQLITE_IOERR_TRUNCATE'', SQLITE_IOERR, 6),
    (''SQLITE_IOERR_FSTAT'', SQLITE_IOERR, 7), (''SQLITE_IOERR_UNLOCK'', SQLITE_IOERR, 8),
    (''SQLITE_IOERR_RDLOCK'', SQLITE_IOERR, 9), (''SQLITE_IOERR_DELETE'', SQLITE_IOERR, 10),
    (''SQLITE_IOERR_BLOCKED'', SQLITE_IOERR, 11), (''SQLITE_IOERR_NOMEM'', SQLITE_IOERR, 12),
    (''SQLITE_IOERR_ACCESS'', SQLITE_IOERR, 13),
    (''SQLITE_IOERR_CHECKRESERVEDLOCK'', SQLITE_IOERR, 14),
    (''SQLITE_IOERR_LOCK'', SQLITE_IOERR, 15), (''SQLITE_IOERR_CLOSE'', SQLITE_IOERR, 16),
    (''SQLITE_IOERR_DIR_CLOSE'', SQLITE_IOERR, 17),
    (''SQLITE_IOERR_SHMOPEN'', SQLITE_IOERR, 18), (''SQLITE_IOERR_SHMSIZE'', SQLITE_IOERR, 19),
    (''SQLITE_IOERR_SHMLOCK'', SQLITE_IOERR, 20), (''SQLITE_IOERR_SHMMAP'', SQLITE_IOERR, 21),
    (''SQLITE_IOERR_SEEK'', SQLITE_IOERR, 22),
    (''SQLITE_IOERR_DELETE_NOENT'', SQLITE_IOERR, 23),
    (''SQLITE_IOERR_MMAP'', SQLITE_IOERR, 24), (''SQLITE_IOERR_GETTEMPPATH'', SQLITE_IOERR, 25),
    (''SQLITE_IOERR_CONVPATH'', SQLITE_IOERR, 26), (''SQLITE_IOERR_VNODE'', SQLITE_IOERR, 27),
    (''SQLITE_IOERR_AUTH'', SQLITE_IOERR, 28),
    (''SQLITE_LOCKED_SHAREDCACHE'', SQLITE_LOCKED, 1),
    (''SQLITE_BUSY_RECOVERY'', SQLITE_BUSY, 1), (''SQLITE_BUSY_SNAPSHOT'', SQLITE_BUSY, 2),
    (''SQLITE_CANTOPEN_NOTEMPDIR'', SQLITE_CANTOPEN, 1),
    (''SQLITE_CANTOPEN_ISDIR'', SQLITE_CANTOPEN, 2),
    (''SQLITE_CANTOPEN_FULLPATH'', SQLITE_CANTOPEN, 3),
    (''SQLITE_CANTOPEN_CONVPATH'', SQLITE_CANTOPEN, 4),
    (''SQLITE_CORRUPT_VTAB'', SQLITE_CORRUPT, 1),
    (''SQLITE_READONLY_RECOVERY'', SQLITE_READONLY, 1),
    (''SQLITE_READONLY_CANTLOCK'', SQLITE_READONLY, 2),
    (''SQLITE_READONLY_ROLLBACK'', SQLITE_READONLY, 3),
    (''SQLITE_READONLY_DBMOVED'', SQLITE_READONLY, 4),
    (''SQLITE_ABORT_ROLLBACK'', SQLITE_ABORT, 2),
    (''SQLITE_CONSTRAINT_CHECK'', SQLITE_CONSTRAINT, 1),
    (''SQLITE_CONSTRAINT_COMMITHOOK'', SQLITE_CONSTRAINT, 2),
    (''SQLITE_CONSTRAINT_FOREIGNKEY'', SQLITE_CONSTRAINT, 3),
    (''SQLITE_CONSTRAINT_FUNCTION'', SQLITE_CONSTRAINT, 4),
    (''SQLITE_CONSTRAINT_NOTNULL'', SQLITE_CONSTRAINT, 5),
    (''SQLITE_CONSTRAINT_PRIMARYKEY'', SQLITE_CONSTRAINT, 6),
    (''SQLITE_CONSTRAINT_TRIGGER'', SQLITE_CONSTRAINT, 7),
    (''SQLITE_CONSTRAINT_UNIQUE'', SQLITE_CONSTRAINT, 8),
    (''SQLITE_CONSTRAINT_VTAB'', SQLITE_CONSTRAINT, 9),
    (''SQLITE_CONSTRAINT_ROWID'', SQLITE_CONSTRAINT, 10),
    (''SQLITE_NOTICE_RECOVER_WAL'', SQLITE_NOTICE, 1),
    (''SQLITE_NOTICE_RECOVER_ROLLBACK'', SQLITE_NOTICE, 2),
    (''SQLITE_WARNING_AUTOINDEX'', SQLITE_WARNING, 1), (''SQLITE_AUTH_USER'', SQLITE_AUTH, 1)]"

section \<open>Flags\<close>

text \<open>Flags for opening files.\<close>

definition sqlite_open_flags :: "(string \<times> nat) list" where
  "sqlite_open_flags = [
    (''SQLITE_OPEN_READONLY'', 0x1), (''SQLITE_OPEN_READWRITE'', 0x2),
    (''SQLITE_OPEN_CREATE'', 0x4), (''SQLITE_OPEN_DELETEONCLOSE'', 0x8),
    (''SQLITE_OPEN_EXCLUSIVE'', 0x10), (''SQLITE_OPEN_AUTOPROXY'', 0x20),
    (''SQLITE_OPEN_URI'', 0x40), (''SQLITE_OPEN_MEMORY'', 0x80),
    (''SQLITE_OPEN_MAIN_DB'', 0x100), (''SQLITE_OPEN_TEMP_DB'', 0x200),
    (''SQLITE_OPEN_TRANSIENT_DB'', 0x400), (''SQLITE_OPEN_MAIN_JOURNAL'', 0x800),
    (''SQLITE_OPEN_TEMP_JOURNAL'', 0x1000), (''SQLITE_OPEN_SUBJOURNAL'', 0x2000),
    (''SQLITE_OPEN_MASTER_JOURNAL'', 0x4000), (''SQLITE_OPEN_NOMUTEX'', 0x8000),
    (''SQLITE_OPEN_FULLMUTEX'', 0x10000), (''SQLITE_OPEN_SHAREDCACHE'', 0x20000),
    (''SQLITE_OPEN_PRIVATECACHE'', 0x40000), (''SQLITE_OPEN_WAL'', 0x80000)]"

text \<open>Device characteristics.\<close>

definition sqlite_iocap :: "(string \<times> nat) list" where
  "sqlite_iocap = [
    (''SQLITE_IOCAP_ATOMIC'', 0x1), (''SQLITE_IOCAP_ATOMIC512'', 0x2),
    (''SQLITE_IOCAP_ATOMIC1K'', 0x4), (''SQLITE_IOCAP_ATOMIC2K'', 0x8),
    (''SQLITE_IOCAP_ATOMIC4K'', 0x10), (''SQLITE_IOCAP_ATOMIC8K'', 0x20),
    (''SQLITE_IOCAP_ATOMIC16K'', 0x40), (''SQLITE_IOCAP_ATOMIC32K'', 0x80),
    (''SQLITE_IOCAP_ATOMIC64K'', 0x100), (''SQLITE_IOCAP_SAFE_APPEND'', 0x200),
    (''SQLITE_IOCAP_SEQUENTIAL'', 0x400), (''SQLITE_IOCAP_UNDELETABLE_WHEN_OPEN'', 0x800),
    (''SQLITE_IOCAP_POWERSAFE_OVERWRITE'', 0x1000), (''SQLITE_IOCAP_IMMUTABLE'', 0x2000)]"

text \<open>How to synchronise.\<close>

definition sqlite_sync_flags :: "(string \<times> nat) list" where
  "sqlite_sync_flags = [
    (''SQLITE_SYNC_NORMAL'', 0x2), (''SQLITE_SYNC_FULL'', 0x3), (''SQLITE_SYNC_DATAONLY'', 0x10)]"

text \<open>Flags of a shared-memory lock.\<close>

definition sqlite_shm_flags :: "(string \<times> nat) list" where
  "sqlite_shm_flags = [
    (''SQLITE_SHM_UNLOCK'', 1), (''SQLITE_SHM_LOCK'', 2), (''SQLITE_SHM_SHARED'', 4),
    (''SQLITE_SHM_EXCLUSIVE'', 8)]"

text \<open>Reasons for tokenizing.\<close>

definition sqlite_fts5_tokenize :: "(string \<times> nat) list" where
  "sqlite_fts5_tokenize = [
    (''FTS5_TOKENIZE_QUERY'', 0x1), (''FTS5_TOKENIZE_PREFIX'', 0x2),
    (''FTS5_TOKENIZE_DOCUMENT'', 0x4), (''FTS5_TOKENIZE_AUX'', 0x8)]"

section \<open>Numbered options\<close>

text \<open>Lock levels of a file.\<close>

definition sqlite_lock_levels :: "(string \<times> nat) list" where
  "sqlite_lock_levels = [
    (''SQLITE_LOCK_NONE'', 0), (''SQLITE_LOCK_SHARED'', 1), (''SQLITE_LOCK_RESERVED'', 2),
    (''SQLITE_LOCK_PENDING'', 3), (''SQLITE_LOCK_EXCLUSIVE'', 4)]"

text \<open>Opcodes of the file control.\<close>

definition sqlite_fcntl :: "(string \<times> nat) list" where
  "sqlite_fcntl = [
    (''SQLITE_FCNTL_LOCKSTATE'', 1), (''SQLITE_FCNTL_GET_LOCKPROXYFILE'', 2),
    (''SQLITE_FCNTL_SET_LOCKPROXYFILE'', 3), (''SQLITE_FCNTL_LAST_ERRNO'', 4),
    (''SQLITE_FCNTL_SIZE_HINT'', 5), (''SQLITE_FCNTL_CHUNK_SIZE'', 6),
    (''SQLITE_FCNTL_FILE_POINTER'', 7), (''SQLITE_FCNTL_SYNC_OMITTED'', 8),
    (''SQLITE_FCNTL_WIN32_AV_RETRY'', 9), (''SQLITE_FCNTL_PERSIST_WAL'', 10),
    (''SQLITE_FCNTL_OVERWRITE'', 11), (''SQLITE_FCNTL_VFSNAME'', 12),
    (''SQLITE_FCNTL_POWERSAFE_OVERWRITE'', 13), (''SQLITE_FCNTL_PRAGMA'', 14),
    (''SQLITE_FCNTL_BUSYHANDLER'', 15), (''SQLITE_FCNTL_TEMPFILENAME'', 16),
    (''SQLITE_FCNTL_MMAP_SIZE'', 18), (''SQLITE_FCNTL_TRACE'', 19),
    (''SQLITE_FCNTL_HAS_MOVED'', 20), (''SQLITE_FCNTL_SYNC'', 21),
    (''SQLITE_FCNTL_COMMIT_PHASETWO'', 22), (''SQLITE_FCNTL_WIN32_SET_HANDLE'', 23),
    (''SQLITE_FCNTL_WAL_BLOCK'', 24), (''SQLITE_FCNTL_ZIPVFS'', 25), (''SQLITE_FCNTL_RBU'', 26),
    (''SQLITE_FCNTL_VFS_POINTER'', 27), (''SQLITE_FCNTL_JOURNAL_POINTER'', 28)]"

text \<open>Questions of the access method.\<close>

definition sqlite_access :: "(string \<times> nat) list" where
  "sqlite_access = [
    (''SQLITE_ACCESS_EXISTS'', 0), (''SQLITE_ACCESS_READWRITE'', 1), (''SQLITE_ACCESS_READ'', 2)]"

text \<open>Options of the library.\<close>

definition sqlite_config :: "(string \<times> nat) list" where
  "sqlite_config = [
    (''SQLITE_CONFIG_SINGLETHREAD'', 1), (''SQLITE_CONFIG_MULTITHREAD'', 2),
    (''SQLITE_CONFIG_SERIALIZED'', 3), (''SQLITE_CONFIG_MALLOC'', 4),
    (''SQLITE_CONFIG_GETMALLOC'', 5), (''SQLITE_CONFIG_SCRATCH'', 6),
    (''SQLITE_CONFIG_PAGECACHE'', 7), (''SQLITE_CONFIG_HEAP'', 8),
    (''SQLITE_CONFIG_MEMSTATUS'', 9), (''SQLITE_CONFIG_MUTEX'', 10),
    (''SQLITE_CONFIG_GETMUTEX'', 11), (''SQLITE_CONFIG_LOOKASIDE'', 13),
    (''SQLITE_CONFIG_PCACHE'', 14), (''SQLITE_CONFIG_GETPCACHE'', 15),
    (''SQLITE_CONFIG_LOG'', 16), (''SQLITE_CONFIG_URI'', 17), (''SQLITE_CONFIG_PCACHE2'', 18),
    (''SQLITE_CONFIG_GETPCACHE2'', 19), (''SQLITE_CONFIG_COVERING_INDEX_SCAN'', 20),
    (''SQLITE_CONFIG_SQLLOG'', 21), (''SQLITE_CONFIG_MMAP_SIZE'', 22),
    (''SQLITE_CONFIG_WIN32_HEAPSIZE'', 23), (''SQLITE_CONFIG_PCACHE_HDRSZ'', 24),
    (''SQLITE_CONFIG_PMASZ'', 25), (''SQLITE_CONFIG_STMTJRNL_SPILL'', 26)]"

text \<open>Options of a connection.\<close>

definition sqlite_dbconfig :: "(string \<times> nat) list" where
  "sqlite_dbconfig = [
    (''SQLITE_DBCONFIG_LOOKASIDE'', 1001), (''SQLITE_DBCONFIG_ENABLE_FKEY'', 1002),
    (''SQLITE_DBCONFIG_ENABLE_TRIGGER'', 1003),
    (''SQLITE_DBCONFIG_ENABLE_FTS3_TOKENIZER'', 1004),
    (''SQLITE_DBCONFIG_ENABLE_LOAD_EXTENSION'', 1005)]"

text \<open>Run-time limits.\<close>

definition sqlite_limits :: "(string \<times> nat) list" where
  "sqlite_limits = [
    (''SQLITE_LIMIT_LENGTH'', 0), (''SQLITE_LIMIT_SQL_LENGTH'', 1),
    (''SQLITE_LIMIT_COLUMN'', 2), (''SQLITE_LIMIT_EXPR_DEPTH'', 3),
    (''SQLITE_LIMIT_COMPOUND_SELECT'', 4), (''SQLITE_LIMIT_VDBE_OP'', 5),
    (''SQLITE_LIMIT_FUNCTION_ARG'', 6), (''SQLITE_LIMIT_ATTACHED'', 7),
    (''SQLITE_LIMIT_LIKE_PATTERN_LENGTH'', 8), (''SQLITE_LIMIT_VARIABLE_NUMBER'', 9),
    (''SQLITE_LIMIT_TRIGGER_DEPTH'', 10), (''SQLITE_LIMIT_WORKER_THREADS'', 11)]"

text \<open>Fundamental types of a value. The older name of text is an alias.\<close>

definition sqlite_datatypes :: "(string \<times> nat) list" where
  "sqlite_datatypes = [
    (''SQLITE_INTEGER'', 1), (''SQLITE_FLOAT'', 2), (''SQLITE_BLOB'', 4), (''SQLITE_NULL'', 5),
    (''SQLITE_TEXT'', 3), (''SQLITE3_TEXT'', 3)]"

text \<open>Text encodings.\<close>

definition sqlite_encodings :: "(string \<times> nat) list" where
  "sqlite_encodings = [
    (''SQLITE_UTF8'', 1), (''SQLITE_UTF16LE'', 2), (''SQLITE_UTF16BE'', 3),
    (''SQLITE_UTF16'', 4), (''SQLITE_ANY'', 5), (''SQLITE_UTF16_ALIGNED'', 8)]"

text \<open>Operators of a virtual table constraint.\<close>

definition sqlite_constraint_ops :: "(string \<times> nat) list" where
  "sqlite_constraint_ops = [
    (''SQLITE_INDEX_CONSTRAINT_EQ'', 2), (''SQLITE_INDEX_CONSTRAINT_GT'', 4),
    (''SQLITE_INDEX_CONSTRAINT_LE'', 8), (''SQLITE_INDEX_CONSTRAINT_LT'', 16),
    (''SQLITE_INDEX_CONSTRAINT_GE'', 32), (''SQLITE_INDEX_CONSTRAINT_MATCH'', 64),
    (''SQLITE_INDEX_CONSTRAINT_LIKE'', 65), (''SQLITE_INDEX_CONSTRAINT_GLOB'', 66),
    (''SQLITE_INDEX_CONSTRAINT_REGEXP'', 67)]"

text \<open>Kinds of mutex; the unused names share a number with a used one.\<close>

definition sqlite_mutex_ids :: "(string \<times> nat) list" where
  "sqlite_mutex_ids = [
    (''SQLITE_MUTEX_FAST'', 0), (''SQLITE_MUTEX_RECURSIVE'', 1),
    (''SQLITE_MUTEX_STATIC_MASTER'', 2), (''SQLITE_MUTEX_STATIC_MEM'', 3),
    (''SQLITE_MUTEX_STATIC_MEM2'', 4), (''SQLITE_MUTEX_STATIC_OPEN'', 4),
    (''SQLITE_MUTEX_STATIC_PRNG'', 5), (''SQLITE_MUTEX_STATIC_LRU'', 6),
    (''SQLITE_MUTEX_STATIC_LRU2'', 7), (''SQLITE_MUTEX_STATIC_PMEM'', 7),
    (''SQLITE_MUTEX_STATIC_APP1'', 8), (''SQLITE_MUTEX_STATIC_APP2'', 9),
    (''SQLITE_MUTEX_STATIC_APP3'', 10), (''SQLITE_MUTEX_STATIC_VFS1'', 11),
    (''SQLITE_MUTEX_STATIC_VFS2'', 12), (''SQLITE_MUTEX_STATIC_VFS3'', 13)]"

text \<open>Test control operations, with the bounds of their range.\<close>

definition sqlite_testctrl :: "(string \<times> nat) list" where
  "sqlite_testctrl = [
    (''SQLITE_TESTCTRL_FIRST'', 5), (''SQLITE_TESTCTRL_PRNG_SAVE'', 5),
    (''SQLITE_TESTCTRL_PRNG_RESTORE'', 6), (''SQLITE_TESTCTRL_PRNG_RESET'', 7),
    (''SQLITE_TESTCTRL_BITVEC_TEST'', 8), (''SQLITE_TESTCTRL_FAULT_INSTALL'', 9),
    (''SQLITE_TESTCTRL_BENIGN_MALLOC_HOOKS'', 10), (''SQLITE_TESTCTRL_PENDING_BYTE'', 11),
    (''SQLITE_TESTCTRL_ASSERT'', 12), (''SQLITE_TESTCTRL_ALWAYS'', 13),
    (''SQLITE_TESTCTRL_RESERVE'', 14), (''SQLITE_TESTCTRL_OPTIMIZATIONS'', 15),
    (''SQLITE_TESTCTRL_ISKEYWORD'', 16), (''SQLITE_TESTCTRL_SCRATCHMALLOC'', 17),
    (''SQLITE_TESTCTRL_LOCALTIME_FAULT'', 18), (''SQLITE_TESTCTRL_EXPLAIN_STMT'', 19),
    (''SQLITE_TESTCTRL_NEVER_CORRUPT'', 20), (''SQLITE_TESTCTRL_VDBE_COVERAGE'', 21),
    (''SQLITE_TESTCTRL_BYTEORDER'', 22), (''SQLITE_TESTCTRL_ISINIT'', 23),
    (''SQLITE_TESTCTRL_SORTER_MMAP'', 24), (''SQLITE_TESTCTRL_IMPOSTER'', 25),
    (''SQLITE_TESTCTRL_LAST'', 25)]"

text \<open>Status counters of the library.\<close>

definition sqlite_status :: "(string \<times> nat) list" where
  "sqlite_status = [
    (''SQLITE_STATUS_MEMORY_USED'', 0), (''SQLITE_STATUS_PAGECACHE_USED'', 1),
    (''SQLITE_STATUS_PAGECACHE_OVERFLOW'', 2), (''SQLITE_STATUS_SCRATCH_USED'', 3),
    (''SQLITE_STATUS_SCRATCH_OVERFLOW'', 4), (''SQLITE_STATUS_MALLOC_SIZE'', 5),
    (''SQLITE_STATUS_PARSER_STACK'', 6), (''SQLITE_STATUS_PAGECACHE_SIZE'', 7),
    (''SQLITE_STATUS_SCRATCH_SIZE'', 8), (''SQLITE_STATUS_MALLOC_COUNT'', 9)]"

text \<open>Status counters of a connection, with the largest.\<close>

definition sqlite_dbstatus :: "(string \<times> nat) list" where
  "sqlite_dbstatus = [
    (''SQLITE_DBSTATUS_LOOKASIDE_USED'', 0), (''SQLITE_DBSTATUS_CACHE_USED'', 1),
    (''SQLITE_DBSTATUS_SCHEMA_USED'', 2), (''SQLITE_DBSTATUS_STMT_USED'', 3),
    (''SQLITE_DBSTATUS_LOOKASIDE_HIT'', 4), (''SQLITE_DBSTATUS_LOOKASIDE_MISS_SIZE'', 5),
    (''SQLITE_DBSTATUS_LOOKASIDE_MISS_FULL'', 6), (''SQLITE_DBSTATUS_CACHE_HIT'', 7),
    (''SQLITE_DBSTATUS_CACHE_MISS'', 8), (''SQLITE_DBSTATUS_CACHE_WRITE'', 9),
    (''SQLITE_DBSTATUS_DEFERRED_FKS'', 10), (''SQLITE_DBSTATUS_MAX'', 10)]"

text \<open>Status counters of a statement.\<close>

definition sqlite_stmtstatus :: "(string \<times> nat) list" where
  "sqlite_stmtstatus = [
    (''SQLITE_STMTSTATUS_FULLSCAN_STEP'', 1), (''SQLITE_STMTSTATUS_SORT'', 2),
    (''SQLITE_STMTSTATUS_AUTOINDEX'', 3), (''SQLITE_STMTSTATUS_VM_STEP'', 4)]"

text \<open>Checkpoint modes.\<close>

definition sqlite_checkpoint :: "(string \<times> nat) list" where
  "sqlite_checkpoint = [
    (''SQLITE_CHECKPOINT_PASSIVE'', 0), (''SQLITE_CHECKPOINT_FULL'', 1),
    (''SQLITE_CHECKPOINT_RESTART'', 2), (''SQLITE_CHECKPOINT_TRUNCATE'', 3)]"

text \<open>Conflict resolution modes that have a name of their own.\<close>

definition sqlite_conflict_modes :: "(string \<times> nat) list" where
  "sqlite_conflict_modes = [
    (''SQLITE_ROLLBACK'', 1), (''SQLITE_FAIL'', 3), (''SQLITE_REPLACE'', 5)]"

text \<open>Counters of a scan.\<close>

definition sqlite_scanstat :: "(string \<times> nat) list" where
  "sqlite_scanstat = [
    (''SQLITE_SCANSTAT_NLOOP'', 0), (''SQLITE_SCANSTAT_NVISIT'', 1),
    (''SQLITE_SCANSTAT_EST'', 2), (''SQLITE_SCANSTAT_NAME'', 3),
    (''SQLITE_SCANSTAT_EXPLAIN'', 4), (''SQLITE_SCANSTAT_SELECTID'', 5)]"

text \<open>Answers of an r-tree query.\<close>

definition sqlite_rtree_within :: "(string \<times> nat) list" where
  "sqlite_rtree_within = [
    (''NOT_WITHIN'', 0), (''PARTLY_WITHIN'', 1), (''FULLY_WITHIN'', 2)]"

text \<open>Kinds of conflict of a changeset.\<close>

definition sqlite_changeset_conflict :: "(string \<times> nat) list" where
  "sqlite_changeset_conflict = [
    (''SQLITE_CHANGESET_DATA'', 1), (''SQLITE_CHANGESET_NOTFOUND'', 2),
    (''SQLITE_CHANGESET_CONFLICT'', 3), (''SQLITE_CHANGESET_CONSTRAINT'', 4),
    (''SQLITE_CHANGESET_FOREIGN_KEY'', 5)]"

text \<open>Answers of a conflict handler.\<close>

definition sqlite_changeset_action :: "(string \<times> nat) list" where
  "sqlite_changeset_action = [
    (''SQLITE_CHANGESET_OMIT'', 0), (''SQLITE_CHANGESET_REPLACE'', 1),
    (''SQLITE_CHANGESET_ABORT'', 2)]"

text \<open>Authorizer actions with what the third and fourth argument of the callback name.\<close>

definition sqlite_actions :: "(string \<times> nat \<times> string option \<times> string option) list" where
  "sqlite_actions = [
    (''SQLITE_CREATE_INDEX'', 1, Some ''Index Name'', Some ''Table Name''),
    (''SQLITE_CREATE_TABLE'', 2, Some ''Table Name'', None),
    (''SQLITE_CREATE_TEMP_INDEX'', 3, Some ''Index Name'', Some ''Table Name''),
    (''SQLITE_CREATE_TEMP_TABLE'', 4, Some ''Table Name'', None),
    (''SQLITE_CREATE_TEMP_TRIGGER'', 5, Some ''Trigger Name'', Some ''Table Name''),
    (''SQLITE_CREATE_TEMP_VIEW'', 6, Some ''View Name'', None),
    (''SQLITE_CREATE_TRIGGER'', 7, Some ''Trigger Name'', Some ''Table Name''),
    (''SQLITE_CREATE_VIEW'', 8, Some ''View Name'', None),
    (''SQLITE_DELETE'', 9, Some ''Table Name'', None),
    (''SQLITE_DROP_INDEX'', 10, Some ''Index Name'', Some ''Table Name''),
    (''SQLITE_DROP_TABLE'', 11, Some ''Table Name'', None),
    (''SQLITE_DROP_TEMP_INDEX'', 12, Some ''Index Name'', Some ''Table Name''),
    (''SQLITE_DROP_TEMP_TABLE'', 13, Some ''Table Name'', None),
    (''SQLITE_DROP_TEMP_TRIGGER'', 14, Some ''Trigger Name'', Some ''Table Name''),
    (''SQLITE_DROP_TEMP_VIEW'', 15, Some ''View Name'', None),
    (''SQLITE_DROP_TRIGGER'', 16, Some ''Trigger Name'', Some ''Table Name''),
    (''SQLITE_DROP_VIEW'', 17, Some ''View Name'', None),
    (''SQLITE_INSERT'', 18, Some ''Table Name'', None),
    (''SQLITE_PRAGMA'', 19, Some ''Pragma Name'', Some ''1st arg or NULL''),
    (''SQLITE_READ'', 20, Some ''Table Name'', Some ''Column Name''),
    (''SQLITE_SELECT'', 21, None, None), (''SQLITE_TRANSACTION'', 22, Some ''Operation'', None),
    (''SQLITE_UPDATE'', 23, Some ''Table Name'', Some ''Column Name''),
    (''SQLITE_ATTACH'', 24, Some ''Filename'', None),
    (''SQLITE_DETACH'', 25, Some ''Database Name'', None),
    (''SQLITE_ALTER_TABLE'', 26, Some ''Database Name'', Some ''Table Name''),
    (''SQLITE_REINDEX'', 27, Some ''Index Name'', None),
    (''SQLITE_ANALYZE'', 28, Some ''Table Name'', None),
    (''SQLITE_CREATE_VTABLE'', 29, Some ''Table Name'', Some ''Module Name''),
    (''SQLITE_DROP_VTABLE'', 30, Some ''Table Name'', Some ''Module Name''),
    (''SQLITE_FUNCTION'', 31, None, Some ''Function Name''),
    (''SQLITE_SAVEPOINT'', 32, Some ''Operation'', Some ''Savepoint Name''),
    (''SQLITE_COPY'', 0, None, None), (''SQLITE_RECURSIVE'', 33, None, None)]"

text \<open>Answers of the authorizer.\<close>

definition sqlite_auth_returns :: "(string \<times> nat) list" where
  "sqlite_auth_returns = [
    (''SQLITE_DENY'', 1), (''SQLITE_IGNORE'', 2)]"

text \<open>A name in a table, and the value of an extended code.\<close>

definition sq :: "(string \<times> nat) list \<Rightarrow> string \<Rightarrow> nat" where
  "sq tbl n = (case map_of tbl n of Some v \<Rightarrow> v | None \<Rightarrow> 0)"

unbundle bit_operations_syntax

definition extended_code :: "nat \<times> nat \<Rightarrow> nat" where
  "extended_code c = fst c OR push_bit 8 (snd c)"

section \<open>Layouts\<close>

text \<open>
  C types as the header writes them; \<open>const\<close> and \<open>volatile\<close> have no bearing on a layout. A
  function is its result and its parameters.
\<close>

datatype ctype =
    CVoid | CChar | CUChar | CInt | CUInt | CInt64 | CUInt64 | CDouble
  | CStruct string | CPtr ctype | CFun ctype "ctype list"

type_synonym layout = "(string \<times> ctype) list"

definition sqlite3_file_layout :: layout where
  "sqlite3_file_layout = [
    (''pMethods'', CPtr (CStruct ''sqlite3_io_methods''))]"

definition sqlite3_io_methods_layout :: layout where
  "sqlite3_io_methods_layout = [
    (''iVersion'', CInt),
    (''xClose'', CPtr (CFun CInt [CPtr (CStruct ''sqlite3_file'')])),
    (''xRead'', CPtr (CFun CInt [CPtr (CStruct ''sqlite3_file''), CPtr CVoid, CInt, CInt64])),
    (''xWrite'', CPtr (CFun CInt [CPtr (CStruct ''sqlite3_file''), CPtr CVoid, CInt, CInt64])),
    (''xTruncate'', CPtr (CFun CInt [CPtr (CStruct ''sqlite3_file''), CInt64])),
    (''xSync'', CPtr (CFun CInt [CPtr (CStruct ''sqlite3_file''), CInt])),
    (''xFileSize'', CPtr (CFun CInt [CPtr (CStruct ''sqlite3_file''), CPtr CInt64])),
    (''xLock'', CPtr (CFun CInt [CPtr (CStruct ''sqlite3_file''), CInt])),
    (''xUnlock'', CPtr (CFun CInt [CPtr (CStruct ''sqlite3_file''), CInt])),
    (''xCheckReservedLock'', CPtr (CFun CInt [CPtr (CStruct ''sqlite3_file''), CPtr CInt])),
    (''xFileControl'', CPtr (CFun CInt [CPtr (CStruct ''sqlite3_file''), CInt, CPtr CVoid])),
    (''xSectorSize'', CPtr (CFun CInt [CPtr (CStruct ''sqlite3_file'')])),
    (''xDeviceCharacteristics'', CPtr (CFun CInt [CPtr (CStruct ''sqlite3_file'')])),
    (''xShmMap'', CPtr (CFun CInt [CPtr (CStruct ''sqlite3_file''), CInt, CInt, CInt, CPtr (CPtr
        CVoid)])),
    (''xShmLock'', CPtr (CFun CInt [CPtr (CStruct ''sqlite3_file''), CInt, CInt, CInt])),
    (''xShmBarrier'', CPtr (CFun CVoid [CPtr (CStruct ''sqlite3_file'')])),
    (''xShmUnmap'', CPtr (CFun CInt [CPtr (CStruct ''sqlite3_file''), CInt])),
    (''xFetch'', CPtr (CFun CInt [CPtr (CStruct ''sqlite3_file''), CInt64, CInt, CPtr (CPtr CVoid)])),
    (''xUnfetch'', CPtr (CFun CInt [CPtr (CStruct ''sqlite3_file''), CInt64, CPtr CVoid]))]"

definition sqlite3_vfs_layout :: layout where
  "sqlite3_vfs_layout = [
    (''iVersion'', CInt),
    (''szOsFile'', CInt),
    (''mxPathname'', CInt),
    (''pNext'', CPtr (CStruct ''sqlite3_vfs'')),
    (''zName'', CPtr CChar),
    (''pAppData'', CPtr CVoid),
    (''xOpen'', CPtr (CFun CInt [CPtr (CStruct ''sqlite3_vfs''), CPtr CChar, CPtr (CStruct
        ''sqlite3_file''), CInt, CPtr CInt])),
    (''xDelete'', CPtr (CFun CInt [CPtr (CStruct ''sqlite3_vfs''), CPtr CChar, CInt])),
    (''xAccess'', CPtr (CFun CInt [CPtr (CStruct ''sqlite3_vfs''), CPtr CChar, CInt, CPtr CInt])),
    (''xFullPathname'', CPtr (CFun CInt [CPtr (CStruct ''sqlite3_vfs''), CPtr CChar, CInt, CPtr CChar])),
    (''xDlOpen'', CPtr (CFun (CPtr CVoid) [CPtr (CStruct ''sqlite3_vfs''), CPtr CChar])),
    (''xDlError'', CPtr (CFun CVoid [CPtr (CStruct ''sqlite3_vfs''), CInt, CPtr CChar])),
    (''xDlSym'', CPtr (CFun (CPtr (CFun CVoid [])) [CPtr (CStruct ''sqlite3_vfs''), CPtr CVoid, CPtr
        CChar])),
    (''xDlClose'', CPtr (CFun CVoid [CPtr (CStruct ''sqlite3_vfs''), CPtr CVoid])),
    (''xRandomness'', CPtr (CFun CInt [CPtr (CStruct ''sqlite3_vfs''), CInt, CPtr CChar])),
    (''xSleep'', CPtr (CFun CInt [CPtr (CStruct ''sqlite3_vfs''), CInt])),
    (''xCurrentTime'', CPtr (CFun CInt [CPtr (CStruct ''sqlite3_vfs''), CPtr CDouble])),
    (''xGetLastError'', CPtr (CFun CInt [CPtr (CStruct ''sqlite3_vfs''), CInt, CPtr CChar])),
    (''xCurrentTimeInt64'', CPtr (CFun CInt [CPtr (CStruct ''sqlite3_vfs''), CPtr CInt64])),
    (''xSetSystemCall'', CPtr (CFun CInt [CPtr (CStruct ''sqlite3_vfs''), CPtr CChar, CPtr (CFun CVoid
        [])])),
    (''xGetSystemCall'', CPtr (CFun (CPtr (CFun CVoid [])) [CPtr (CStruct ''sqlite3_vfs''), CPtr
        CChar])),
    (''xNextSystemCall'', CPtr (CFun (CPtr CChar) [CPtr (CStruct ''sqlite3_vfs''), CPtr CChar]))]"

definition sqlite3_mem_methods_layout :: layout where
  "sqlite3_mem_methods_layout = [
    (''xMalloc'', CPtr (CFun (CPtr CVoid) [CInt])),
    (''xFree'', CPtr (CFun CVoid [CPtr CVoid])),
    (''xRealloc'', CPtr (CFun (CPtr CVoid) [CPtr CVoid, CInt])),
    (''xSize'', CPtr (CFun CInt [CPtr CVoid])),
    (''xRoundup'', CPtr (CFun CInt [CInt])),
    (''xInit'', CPtr (CFun CInt [CPtr CVoid])),
    (''xShutdown'', CPtr (CFun CVoid [CPtr CVoid])),
    (''pAppData'', CPtr CVoid)]"

definition sqlite3_module_layout :: layout where
  "sqlite3_module_layout = [
    (''iVersion'', CInt),
    (''xCreate'', CPtr (CFun CInt [CPtr (CStruct ''sqlite3''), CPtr CVoid, CInt, CPtr (CPtr CChar), CPtr
        (CPtr (CStruct ''sqlite3_vtab'')), CPtr (CPtr CChar)])),
    (''xConnect'', CPtr (CFun CInt [CPtr (CStruct ''sqlite3''), CPtr CVoid, CInt, CPtr (CPtr CChar),
        CPtr (CPtr (CStruct ''sqlite3_vtab'')), CPtr (CPtr CChar)])),
    (''xBestIndex'', CPtr (CFun CInt [CPtr (CStruct ''sqlite3_vtab''), CPtr (CStruct
        ''sqlite3_index_info'')])),
    (''xDisconnect'', CPtr (CFun CInt [CPtr (CStruct ''sqlite3_vtab'')])),
    (''xDestroy'', CPtr (CFun CInt [CPtr (CStruct ''sqlite3_vtab'')])),
    (''xOpen'', CPtr (CFun CInt [CPtr (CStruct ''sqlite3_vtab''), CPtr (CPtr (CStruct
        ''sqlite3_vtab_cursor''))])),
    (''xClose'', CPtr (CFun CInt [CPtr (CStruct ''sqlite3_vtab_cursor'')])),
    (''xFilter'', CPtr (CFun CInt [CPtr (CStruct ''sqlite3_vtab_cursor''), CInt, CPtr CChar, CInt, CPtr
        (CPtr (CStruct ''sqlite3_value''))])),
    (''xNext'', CPtr (CFun CInt [CPtr (CStruct ''sqlite3_vtab_cursor'')])),
    (''xEof'', CPtr (CFun CInt [CPtr (CStruct ''sqlite3_vtab_cursor'')])),
    (''xColumn'', CPtr (CFun CInt [CPtr (CStruct ''sqlite3_vtab_cursor''), CPtr (CStruct
        ''sqlite3_context''), CInt])),
    (''xRowid'', CPtr (CFun CInt [CPtr (CStruct ''sqlite3_vtab_cursor''), CPtr CInt64])),
    (''xUpdate'', CPtr (CFun CInt [CPtr (CStruct ''sqlite3_vtab''), CInt, CPtr (CPtr (CStruct
        ''sqlite3_value'')), CPtr CInt64])),
    (''xBegin'', CPtr (CFun CInt [CPtr (CStruct ''sqlite3_vtab'')])),
    (''xSync'', CPtr (CFun CInt [CPtr (CStruct ''sqlite3_vtab'')])),
    (''xCommit'', CPtr (CFun CInt [CPtr (CStruct ''sqlite3_vtab'')])),
    (''xRollback'', CPtr (CFun CInt [CPtr (CStruct ''sqlite3_vtab'')])),
    (''xFindFunction'', CPtr (CFun CInt [CPtr (CStruct ''sqlite3_vtab''), CInt, CPtr CChar, CPtr (CPtr
        (CFun CVoid [CPtr (CStruct ''sqlite3_context''), CInt, CPtr (CPtr (CStruct
        ''sqlite3_value''))])), CPtr (CPtr CVoid)])),
    (''xRename'', CPtr (CFun CInt [CPtr (CStruct ''sqlite3_vtab''), CPtr CChar])),
    (''xSavepoint'', CPtr (CFun CInt [CPtr (CStruct ''sqlite3_vtab''), CInt])),
    (''xRelease'', CPtr (CFun CInt [CPtr (CStruct ''sqlite3_vtab''), CInt])),
    (''xRollbackTo'', CPtr (CFun CInt [CPtr (CStruct ''sqlite3_vtab''), CInt]))]"

definition sqlite3_index_info_layout :: layout where
  "sqlite3_index_info_layout = [
    (''nConstraint'', CInt),
    (''aConstraint'', CPtr (CStruct ''sqlite3_index_constraint'')),
    (''nOrderBy'', CInt),
    (''aOrderBy'', CPtr (CStruct ''sqlite3_index_orderby'')),
    (''aConstraintUsage'', CPtr (CStruct ''sqlite3_index_constraint_usage'')),
    (''idxNum'', CInt),
    (''idxStr'', CPtr CChar),
    (''needToFreeIdxStr'', CInt),
    (''orderByConsumed'', CInt),
    (''estimatedCost'', CDouble),
    (''estimatedRows'', CInt64),
    (''idxFlags'', CInt),
    (''colUsed'', CUInt64)]"

definition sqlite3_vtab_layout :: layout where
  "sqlite3_vtab_layout = [
    (''pModule'', CPtr (CStruct ''sqlite3_module'')),
    (''nRef'', CInt),
    (''zErrMsg'', CPtr CChar)]"

definition sqlite3_vtab_cursor_layout :: layout where
  "sqlite3_vtab_cursor_layout = [
    (''pVtab'', CPtr (CStruct ''sqlite3_vtab''))]"

definition sqlite3_mutex_methods_layout :: layout where
  "sqlite3_mutex_methods_layout = [
    (''xMutexInit'', CPtr (CFun CInt [])),
    (''xMutexEnd'', CPtr (CFun CInt [])),
    (''xMutexAlloc'', CPtr (CFun (CPtr (CStruct ''sqlite3_mutex'')) [CInt])),
    (''xMutexFree'', CPtr (CFun CVoid [CPtr (CStruct ''sqlite3_mutex'')])),
    (''xMutexEnter'', CPtr (CFun CVoid [CPtr (CStruct ''sqlite3_mutex'')])),
    (''xMutexTry'', CPtr (CFun CInt [CPtr (CStruct ''sqlite3_mutex'')])),
    (''xMutexLeave'', CPtr (CFun CVoid [CPtr (CStruct ''sqlite3_mutex'')])),
    (''xMutexHeld'', CPtr (CFun CInt [CPtr (CStruct ''sqlite3_mutex'')])),
    (''xMutexNotheld'', CPtr (CFun CInt [CPtr (CStruct ''sqlite3_mutex'')]))]"

definition sqlite3_pcache_page_layout :: layout where
  "sqlite3_pcache_page_layout = [
    (''pBuf'', CPtr CVoid),
    (''pExtra'', CPtr CVoid)]"

definition sqlite3_pcache_methods2_layout :: layout where
  "sqlite3_pcache_methods2_layout = [
    (''iVersion'', CInt),
    (''pArg'', CPtr CVoid),
    (''xInit'', CPtr (CFun CInt [CPtr CVoid])),
    (''xShutdown'', CPtr (CFun CVoid [CPtr CVoid])),
    (''xCreate'', CPtr (CFun (CPtr (CStruct ''sqlite3_pcache'')) [CInt, CInt, CInt])),
    (''xCachesize'', CPtr (CFun CVoid [CPtr (CStruct ''sqlite3_pcache''), CInt])),
    (''xPagecount'', CPtr (CFun CInt [CPtr (CStruct ''sqlite3_pcache'')])),
    (''xFetch'', CPtr (CFun (CPtr (CStruct ''sqlite3_pcache_page'')) [CPtr (CStruct ''sqlite3_pcache''),
        CUInt, CInt])),
    (''xUnpin'', CPtr (CFun CVoid [CPtr (CStruct ''sqlite3_pcache''), CPtr (CStruct
        ''sqlite3_pcache_page''), CInt])),
    (''xRekey'', CPtr (CFun CVoid [CPtr (CStruct ''sqlite3_pcache''), CPtr (CStruct
        ''sqlite3_pcache_page''), CUInt, CUInt])),
    (''xTruncate'', CPtr (CFun CVoid [CPtr (CStruct ''sqlite3_pcache''), CUInt])),
    (''xDestroy'', CPtr (CFun CVoid [CPtr (CStruct ''sqlite3_pcache'')])),
    (''xShrink'', CPtr (CFun CVoid [CPtr (CStruct ''sqlite3_pcache'')]))]"

definition sqlite3_pcache_methods_layout :: layout where
  "sqlite3_pcache_methods_layout = [
    (''pArg'', CPtr CVoid),
    (''xInit'', CPtr (CFun CInt [CPtr CVoid])),
    (''xShutdown'', CPtr (CFun CVoid [CPtr CVoid])),
    (''xCreate'', CPtr (CFun (CPtr (CStruct ''sqlite3_pcache'')) [CInt, CInt])),
    (''xCachesize'', CPtr (CFun CVoid [CPtr (CStruct ''sqlite3_pcache''), CInt])),
    (''xPagecount'', CPtr (CFun CInt [CPtr (CStruct ''sqlite3_pcache'')])),
    (''xFetch'', CPtr (CFun (CPtr CVoid) [CPtr (CStruct ''sqlite3_pcache''), CUInt, CInt])),
    (''xUnpin'', CPtr (CFun CVoid [CPtr (CStruct ''sqlite3_pcache''), CPtr CVoid, CInt])),
    (''xRekey'', CPtr (CFun CVoid [CPtr (CStruct ''sqlite3_pcache''), CPtr CVoid, CUInt, CUInt])),
    (''xTruncate'', CPtr (CFun CVoid [CPtr (CStruct ''sqlite3_pcache''), CUInt])),
    (''xDestroy'', CPtr (CFun CVoid [CPtr (CStruct ''sqlite3_pcache'')]))]"

definition sqlite3_rtree_geometry_layout :: layout where
  "sqlite3_rtree_geometry_layout = [
    (''pContext'', CPtr CVoid),
    (''nParam'', CInt),
    (''aParam'', CPtr CDouble),
    (''pUser'', CPtr CVoid),
    (''xDelUser'', CPtr (CFun CVoid [CPtr CVoid]))]"

definition sqlite3_rtree_query_info_layout :: layout where
  "sqlite3_rtree_query_info_layout = [
    (''pContext'', CPtr CVoid),
    (''nParam'', CInt),
    (''aParam'', CPtr CDouble),
    (''pUser'', CPtr CVoid),
    (''xDelUser'', CPtr (CFun CVoid [CPtr CVoid])),
    (''aCoord'', CPtr CDouble),
    (''anQueue'', CPtr CUInt),
    (''nCoord'', CInt),
    (''iLevel'', CInt),
    (''mxLevel'', CInt),
    (''iRowid'', CInt64),
    (''rParentScore'', CDouble),
    (''eParentWithin'', CInt),
    (''eWithin'', CInt),
    (''rScore'', CDouble),
    (''apSqlParam'', CPtr (CPtr (CStruct ''sqlite3_value'')))]"

definition Fts5PhraseIter_layout :: layout where
  "Fts5PhraseIter_layout = [
    (''a'', CPtr CUChar),
    (''b'', CPtr CUChar)]"

definition Fts5ExtensionApi_layout :: layout where
  "Fts5ExtensionApi_layout = [
    (''iVersion'', CInt),
    (''xUserData'', CPtr (CFun (CPtr CVoid) [CPtr (CStruct ''Fts5Context'')])),
    (''xColumnCount'', CPtr (CFun CInt [CPtr (CStruct ''Fts5Context'')])),
    (''xRowCount'', CPtr (CFun CInt [CPtr (CStruct ''Fts5Context''), CPtr CInt64])),
    (''xColumnTotalSize'', CPtr (CFun CInt [CPtr (CStruct ''Fts5Context''), CInt, CPtr CInt64])),
    (''xTokenize'', CPtr (CFun CInt [CPtr (CStruct ''Fts5Context''), CPtr CChar, CInt, CPtr CVoid, CPtr
        (CFun CInt [CPtr CVoid, CInt, CPtr CChar, CInt, CInt, CInt])])),
    (''xPhraseCount'', CPtr (CFun CInt [CPtr (CStruct ''Fts5Context'')])),
    (''xPhraseSize'', CPtr (CFun CInt [CPtr (CStruct ''Fts5Context''), CInt])),
    (''xInstCount'', CPtr (CFun CInt [CPtr (CStruct ''Fts5Context''), CPtr CInt])),
    (''xInst'', CPtr (CFun CInt [CPtr (CStruct ''Fts5Context''), CInt, CPtr CInt, CPtr CInt, CPtr
        CInt])),
    (''xRowid'', CPtr (CFun CInt64 [CPtr (CStruct ''Fts5Context'')])),
    (''xColumnText'', CPtr (CFun CInt [CPtr (CStruct ''Fts5Context''), CInt, CPtr (CPtr CChar), CPtr
        CInt])),
    (''xColumnSize'', CPtr (CFun CInt [CPtr (CStruct ''Fts5Context''), CInt, CPtr CInt])),
    (''xQueryPhrase'', CPtr (CFun CInt [CPtr (CStruct ''Fts5Context''), CInt, CPtr CVoid, CPtr (CFun
        CInt [CPtr (CStruct ''Fts5ExtensionApi''), CPtr (CStruct ''Fts5Context''), CPtr CVoid])])),
    (''xSetAuxdata'', CPtr (CFun CInt [CPtr (CStruct ''Fts5Context''), CPtr CVoid, CPtr (CFun CVoid
        [CPtr CVoid])])),
    (''xGetAuxdata'', CPtr (CFun (CPtr CVoid) [CPtr (CStruct ''Fts5Context''), CInt])),
    (''xPhraseFirst'', CPtr (CFun CInt [CPtr (CStruct ''Fts5Context''), CInt, CPtr (CStruct
        ''Fts5PhraseIter''), CPtr CInt, CPtr CInt])),
    (''xPhraseNext'', CPtr (CFun CVoid [CPtr (CStruct ''Fts5Context''), CPtr (CStruct
        ''Fts5PhraseIter''), CPtr CInt, CPtr CInt])),
    (''xPhraseFirstColumn'', CPtr (CFun CInt [CPtr (CStruct ''Fts5Context''), CInt, CPtr (CStruct
        ''Fts5PhraseIter''), CPtr CInt])),
    (''xPhraseNextColumn'', CPtr (CFun CVoid [CPtr (CStruct ''Fts5Context''), CPtr (CStruct
        ''Fts5PhraseIter''), CPtr CInt]))]"

definition fts5_tokenizer_layout :: layout where
  "fts5_tokenizer_layout = [
    (''xCreate'', CPtr (CFun CInt [CPtr CVoid, CPtr (CPtr CChar), CInt, CPtr (CPtr (CStruct
        ''Fts5Tokenizer''))])),
    (''xDelete'', CPtr (CFun CVoid [CPtr (CStruct ''Fts5Tokenizer'')])),
    (''xTokenize'', CPtr (CFun CInt [CPtr (CStruct ''Fts5Tokenizer''), CPtr CVoid, CInt, CPtr CChar,
        CInt, CPtr (CFun CInt [CPtr CVoid, CInt, CPtr CChar, CInt, CInt, CInt])]))]"

definition fts5_api_layout :: layout where
  "fts5_api_layout = [
    (''iVersion'', CInt),
    (''xCreateTokenizer'', CPtr (CFun CInt [CPtr (CStruct ''fts5_api''), CPtr CChar, CPtr CVoid, CPtr
        (CStruct ''fts5_tokenizer''), CPtr (CFun CVoid [CPtr CVoid])])),
    (''xFindTokenizer'', CPtr (CFun CInt [CPtr (CStruct ''fts5_api''), CPtr CChar, CPtr (CPtr CVoid),
        CPtr (CStruct ''fts5_tokenizer'')])),
    (''xCreateFunction'', CPtr (CFun CInt [CPtr (CStruct ''fts5_api''), CPtr CChar, CPtr CVoid, CPtr
        (CFun CVoid [CPtr (CStruct ''Fts5ExtensionApi''), CPtr (CStruct ''Fts5Context''), CPtr (CStruct
        ''sqlite3_context''), CInt, CPtr (CPtr (CStruct ''sqlite3_value''))]), CPtr (CFun CVoid [CPtr
        CVoid])]))]"

definition sqlite3_index_constraint_layout :: layout where
  "sqlite3_index_constraint_layout = [
    (''iColumn'', CInt),
    (''op'', CUChar),
    (''usable'', CUChar),
    (''iTermOffset'', CInt)]"

definition sqlite3_index_orderby_layout :: layout where
  "sqlite3_index_orderby_layout = [
    (''iColumn'', CInt),
    (''desc'', CUChar)]"

definition sqlite3_index_constraint_usage_layout :: layout where
  "sqlite3_index_constraint_usage_layout = [
    (''argvIndex'', CInt),
    (''omit'', CUChar)]"


section \<open>Codes\<close>

text \<open>An extended code carries its primary code in its low byte, which is what the
  unextended interface returns, and its own number above it; no two codes, primary or
  extended, are the same.\<close>

theorem extended_codes_decode:
  "list_all (\<lambda>(n, c). extended_code c AND 0xff = fst c \<and> drop_bit 8 (extended_code c) = snd c
       \<and> 0 < snd c \<and> fst c \<in> set sqlite_result_codes) sqlite_extended_codes
   \<and> distinct (sqlite_result_codes @ map (extended_code \<circ> snd) sqlite_extended_codes)"
proof
  show "list_all (\<lambda>(n, c). extended_code c AND 0xff = fst c \<and> drop_bit 8 (extended_code c) = snd c
       \<and> 0 < snd c \<and> fst c \<in> set sqlite_result_codes) sqlite_extended_codes"
    by (simp add: sqlite_extended_codes_def sqlite_result_codes_def extended_code_def result_code_defs
        push_bit_eq_mult drop_bit_eq_div)
  have "map (extended_code \<circ> snd) sqlite_extended_codes = map (\<lambda>(n, p, k). p + 256 * k) sqlite_extended_codes"
    by (simp add: sqlite_extended_codes_def extended_code_def result_code_defs push_bit_eq_mult)
  then show "distinct (sqlite_result_codes @ map (extended_code \<circ> snd) sqlite_extended_codes)"
    by (simp add: sqlite_extended_codes_def sqlite_result_codes_def result_code_defs)
qed

section \<open>Flags\<close>

definition bit_table :: "(string \<times> nat) list \<Rightarrow> bool" where
  "bit_table tbl \<longleftrightarrow> map snd tbl = map (\<lambda>i. 2 ^ i) [0..<length tbl] \<and> distinct (map fst tbl)"

definition combine :: "(string \<times> nat) list \<Rightarrow> string list \<Rightarrow> nat" where
  "combine tbl names = fold (\<lambda>n w. w OR sq tbl n) names 0"

definition flags_in :: "(string \<times> nat) list \<Rightarrow> nat \<Rightarrow> string list" where
  "flags_in tbl w = map fst (filter (\<lambda>(n, v). w AND v \<noteq> 0) tbl)"

lemma bit_tables:
  "bit_table sqlite_open_flags" "bit_table sqlite_iocap" "bit_table sqlite_shm_flags" "bit_table sqlite_fts5_tokenize"
  by (simp_all add: bit_table_def sqlite_open_flags_def sqlite_iocap_def sqlite_shm_flags_def
      sqlite_fts5_tokenize_def upt_conv_Cons)

lemma bit_table_nth: "bit_table tbl \<Longrightarrow> i < length tbl \<Longrightarrow> snd (tbl ! i) = 2 ^ i"
  by (metis (no_types, lifting) add_0 bit_table_def diff_zero length_map length_upt nth_map nth_upt)

lemma sq_nth: "bit_table tbl \<Longrightarrow> i < length tbl \<Longrightarrow> sq tbl (fst (tbl ! i)) = 2 ^ i"
proof -
  assume b: "bit_table tbl" "i < length tbl"
  then have "map_of tbl (fst (tbl ! i)) = Some (snd (tbl ! i))"
    by (intro map_of_is_SomeI) (auto simp: bit_table_def)
  with b show ?thesis by (simp add: sq_def bit_table_nth)
qed

lemma bit_combine: "bit (combine tbl names) i \<longleftrightarrow> (\<exists>n \<in> set names. bit (sq tbl n) i)"
proof -
  have "bit (fold (\<lambda>n w. w OR sq tbl n) names w) i \<longleftrightarrow> bit w i \<or> (\<exists>n \<in> set names. bit (sq tbl n) i)" for w
    by (induction names arbitrary: w) (auto simp: bit_or_iff)
  then show ?thesis by (simp add: combine_def)
qed

lemma and_power_bit: "w AND 2 ^ i \<noteq> 0 \<longleftrightarrow> bit w i" for w :: nat
  by (simp add: bit_iff_and_push_bit_not_eq_0 push_bit_eq_mult)

text \<open>For the tables of single-bit flags, combining any flags with OR and testing each with AND
  gives back exactly these flags: the flags of a table are independent.\<close>

theorem flags_roundtrip:
  assumes "tbl \<in> {sqlite_open_flags, sqlite_iocap, sqlite_shm_flags, sqlite_fts5_tokenize}"
    and "set names \<subseteq> fst ` set tbl"
  shows "flags_in tbl (combine tbl names) = filter (\<lambda>n. n \<in> set names) (map fst tbl)"
proof -
  have b: "bit_table tbl" using assms(1) bit_tables by auto
  have "combine tbl names AND v \<noteq> 0 \<longleftrightarrow> n \<in> set names" if "(n, v) \<in> set tbl" for n v
  proof -
    from that obtain i where i: "i < length tbl" "tbl ! i = (n, v)" by (auto simp: in_set_conv_nth)
    with bit_table_nth[OF b] have v: "v = 2 ^ i" by fastforce
    have "bit (combine tbl names) i \<longleftrightarrow> n \<in> set names"
    proof
      assume "bit (combine tbl names) i"
      then obtain m where m: "m \<in> set names" "bit (sq tbl m) i" by (auto simp: bit_combine)
      then have "m \<in> fst ` set tbl" using assms(2) by blast
      then obtain x where "(m, x) \<in> set tbl" by auto
      then obtain j where j: "j < length tbl" "fst (tbl ! j) = m" by (auto simp: in_set_conv_nth)
      with sq_nth[OF b j(1)] m(2) have "i = j" by (simp add: bit_exp_iff)
      with j i m show "n \<in> set names" by simp
    next
      assume "n \<in> set names"
      moreover have "bit (sq tbl n) i" using sq_nth[OF b i(1)] i(2) by (simp add: bit_exp_iff)
      ultimately show "bit (combine tbl names) i" by (auto simp: bit_combine)
    qed
    then show ?thesis unfolding v and_power_bit .
  qed
  then have "filter (\<lambda>(n, v). combine tbl names AND v \<noteq> 0) tbl = filter (\<lambda>(n, v). n \<in> set names) tbl"
    by (intro filter_cong) auto
  then have "flags_in tbl (combine tbl names) = map fst (filter (\<lambda>(n, v). n \<in> set names) tbl)"
    unfolding flags_in_def by (rule arg_cong)
  also have "\<dots> = filter (\<lambda>n. n \<in> set names) (map fst tbl)"
    by (simp add: filter_map comp_def case_prod_unfold)
  finally show ?thesis .
qed

theorem flags_roundtrip_witness:
  "flags_in sqlite_open_flags (combine sqlite_open_flags [''SQLITE_OPEN_CREATE'', ''SQLITE_OPEN_READWRITE''])
     = [''SQLITE_OPEN_READWRITE'', ''SQLITE_OPEN_CREATE'']"
proof -
  have "set [''SQLITE_OPEN_CREATE'', ''SQLITE_OPEN_READWRITE''] \<subseteq> fst ` set sqlite_open_flags"
    by (simp add: sqlite_open_flags_def)
  note r = flags_roundtrip[OF _ this]
  moreover have "filter (\<lambda>n. n \<in> set [''SQLITE_OPEN_CREATE'', ''SQLITE_OPEN_READWRITE'']) (map fst sqlite_open_flags)
    = [''SQLITE_OPEN_READWRITE'', ''SQLITE_OPEN_CREATE'']"
    by (simp add: sqlite_open_flags_def)
  ultimately show ?thesis by simp
qed

section \<open>Structures in memory\<close>

text \<open>Sizes under the LP64 model; the alignment of a member is its size.\<close>

fun csize :: "ctype \<Rightarrow> nat" where
  "csize CChar = 1"
| "csize CUChar = 1"
| "csize CInt = 4"
| "csize CUInt = 4"
| "csize CInt64 = 8"
| "csize CUInt64 = 8"
| "csize CDouble = 8"
| "csize (CPtr t) = 8"
| "csize _ = 0"

definition align_up :: "nat \<Rightarrow> nat \<Rightarrow> nat" where
  "align_up p a = (p + a - 1) div a * a"

fun offsets :: "nat \<Rightarrow> layout \<Rightarrow> nat list" where
  "offsets p [] = []"
| "offsets p ((n, t) # l) = (let q = align_up p (csize t) in q # offsets (q + csize t) l)"

fun layout_end :: "nat \<Rightarrow> layout \<Rightarrow> nat" where
  "layout_end p [] = p"
| "layout_end p ((n, t) # l) = layout_end (align_up p (csize t) + csize t) l"

definition struct_size :: "layout \<Rightarrow> nat" where
  "struct_size l = align_up (layout_end 0 l) (Max (set (map (csize \<circ> snd) l)))"

definition sqlite_structs :: "layout list" where
  "sqlite_structs = [sqlite3_file_layout, sqlite3_io_methods_layout, sqlite3_vfs_layout, sqlite3_mem_methods_layout,
     sqlite3_module_layout, sqlite3_index_info_layout, sqlite3_vtab_layout, sqlite3_vtab_cursor_layout,
     sqlite3_mutex_methods_layout, sqlite3_pcache_page_layout, sqlite3_pcache_methods2_layout,
     sqlite3_pcache_methods_layout, sqlite3_rtree_geometry_layout, sqlite3_rtree_query_info_layout,
     Fts5PhraseIter_layout, Fts5ExtensionApi_layout, fts5_tokenizer_layout, fts5_api_layout,
     sqlite3_index_constraint_layout, sqlite3_index_orderby_layout, sqlite3_index_constraint_usage_layout]"

lemmas layout_defs = sqlite3_file_layout_def sqlite3_io_methods_layout_def sqlite3_vfs_layout_def
  sqlite3_mem_methods_layout_def sqlite3_module_layout_def sqlite3_index_info_layout_def sqlite3_vtab_layout_def
  sqlite3_vtab_cursor_layout_def sqlite3_mutex_methods_layout_def sqlite3_pcache_page_layout_def
  sqlite3_pcache_methods2_layout_def sqlite3_pcache_methods_layout_def sqlite3_rtree_geometry_layout_def
  sqlite3_rtree_query_info_layout_def Fts5PhraseIter_layout_def Fts5ExtensionApi_layout_def
  fts5_tokenizer_layout_def fts5_api_layout_def sqlite3_index_constraint_layout_def
  sqlite3_index_orderby_layout_def sqlite3_index_constraint_usage_layout_def

lemma align_up: "0 < a \<Longrightarrow> p \<le> align_up p a \<and> align_up p a mod a = 0"
proof -
  assume a: "0 < a"
  have "(p + a - 1) div a * a + (p + a - 1) mod a = p + a - 1" "(p + a - 1) mod a < a" using a by simp_all
  then have "p + a - 1 < (p + a - 1) div a * a + a" by linarith
  then show ?thesis by (simp add: align_up_def)
qed

lemma offsets_take: "offsets p (take k l) = take k (offsets p l)"
  by (induction p l arbitrary: k rule: offsets.induct) (auto simp: take_Cons' Let_def)

lemma length_offsets [simp]: "length (offsets p l) = length l"
  by (induction p l rule: offsets.induct) (auto simp: Let_def)

lemma layout_end_ge: "\<forall>(n, t) \<in> set l. 0 < csize t \<Longrightarrow> p \<le> layout_end p l"
proof (induction p l rule: layout_end.induct)
  case (2 p n t l)
  then show ?case using align_up[of "csize t" p] by fastforce
qed simp

lemma offsets_ok:
  "\<forall>(n, t) \<in> set l. 0 < csize t \<Longrightarrow> i < length l \<Longrightarrow>
   p \<le> offsets p l ! i \<and> offsets p l ! i mod csize (snd (l ! i)) = 0
   \<and> offsets p l ! i + csize (snd (l ! i)) \<le> (if Suc i < length l then offsets p l ! Suc i else layout_end p l)"
proof (induction p l arbitrary: i rule: offsets.induct)
  case (2 p n t l)
  let ?q = "align_up p (csize t)"
  have t: "0 < csize t" "\<forall>(n, t) \<in> set l. 0 < csize t" using "2.prems"(1) by auto
  note a = align_up[OF t(1), of p]
  show ?case
  proof (cases i)
    case 0
    have "?q + csize t \<le> offsets (?q + csize t) l ! 0" if "l \<noteq> []"
      using "2.IH"[OF refl t(2), of 0] that by simp
    with 0 a layout_end_ge[OF t(2), of "?q + csize t"] show ?thesis by (auto simp: Let_def)
  next
    case (Suc j)
    with "2.prems" have "j < length l" by simp
    from "2.IH"[OF refl t(2) this] Suc a show ?thesis by (auto simp: Let_def)
  qed
qed simp

text \<open>In every structure of the interface the members lie one behind the other without
  overlapping, each aligned to its size, inside a structure whose size is a multiple of its
  strictest alignment. The members of an older version, a beginning of the table, lie where
  they lie in the newer one; and, as the header's comment claims, the first five members of
  \<open>sqlite3_rtree_query_info\<close> are those of \<open>sqlite3_rtree_geometry\<close>, at the same places.\<close>

theorem struct_members_apart:
  "list_all (\<lambda>l. \<forall>i < length l.
       offsets 0 l ! i mod csize (snd (l ! i)) = 0
       \<and> offsets 0 l ! i + csize (snd (l ! i)) \<le> (if Suc i < length l then offsets 0 l ! Suc i else struct_size l)
       \<and> offsets 0 (take i l) = take i (offsets 0 l)) sqlite_structs
   \<and> sqlite3_rtree_geometry_layout = take 5 sqlite3_rtree_query_info_layout
   \<and> offsets 0 sqlite3_rtree_geometry_layout = take 5 (offsets 0 sqlite3_rtree_query_info_layout)"
proof (intro conjI)
  have sized: "list_all (\<lambda>l. list_all (\<lambda>(n, t). 0 < csize t) l \<and> l \<noteq> []) sqlite_structs"
    unfolding sqlite_structs_def layout_defs by simp
  show "list_all (\<lambda>l. \<forall>i < length l.
       offsets 0 l ! i mod csize (snd (l ! i)) = 0
       \<and> offsets 0 l ! i + csize (snd (l ! i)) \<le> (if Suc i < length l then offsets 0 l ! Suc i else struct_size l)
       \<and> offsets 0 (take i l) = take i (offsets 0 l)) sqlite_structs"
    unfolding list_all_iff
  proof (intro ballI allI impI)
    fix l i assume l: "l \<in> set sqlite_structs" and i: "i < length l"
    with sized have pos: "\<forall>(n, t) \<in> set l. 0 < csize t" and ne: "l \<noteq> []" by (auto simp: list_all_iff)
    have "0 < Max (set (map (csize \<circ> snd) l))"
      using pos ne by (subst Max_gr_iff) (auto simp: neq_Nil_conv)
    then have "layout_end 0 l \<le> struct_size l" unfolding struct_size_def by (simp add: align_up)
    with offsets_ok[OF pos i, of 0] offsets_take[of 0 i l]
    show "offsets 0 l ! i mod csize (snd (l ! i)) = 0
       \<and> offsets 0 l ! i + csize (snd (l ! i)) \<le> (if Suc i < length l then offsets 0 l ! Suc i else struct_size l)
       \<and> offsets 0 (take i l) = take i (offsets 0 l)"
      by (auto split: if_splits)
  qed
  show sub: "sqlite3_rtree_geometry_layout = take 5 sqlite3_rtree_query_info_layout"
    by (simp add: sqlite3_rtree_geometry_layout_def sqlite3_rtree_query_info_layout_def)
  show "offsets 0 sqlite3_rtree_geometry_layout = take 5 (offsets 0 sqlite3_rtree_query_info_layout)"
    unfolding sub by (rule offsets_take)
qed


theorem struct_members_apart_witness:
  "offsets 0 sqlite3_rtree_geometry_layout ! 1 + 4 \<le> offsets 0 sqlite3_rtree_geometry_layout ! 2"
proof -
  let ?l = sqlite3_rtree_geometry_layout
  have "\<forall>l \<in> set sqlite_structs. \<forall>i < length l.
       offsets 0 l ! i mod csize (snd (l ! i)) = 0
       \<and> offsets 0 l ! i + csize (snd (l ! i)) \<le> (if Suc i < length l then offsets 0 l ! Suc i else struct_size l)
       \<and> offsets 0 (take i l) = take i (offsets 0 l)"
    using struct_members_apart[unfolded list_all_iff] by (rule conjunct1)
  moreover have "?l \<in> set sqlite_structs" by (simp add: sqlite_structs_def)
  ultimately have all: "\<forall>i < length ?l.
       offsets 0 ?l ! i mod csize (snd (?l ! i)) = 0
       \<and> offsets 0 ?l ! i + csize (snd (?l ! i)) \<le> (if Suc i < length ?l then offsets 0 ?l ! Suc i else struct_size ?l)
       \<and> offsets 0 (take i ?l) = take i (offsets 0 ?l)" by (rule bspec)
  have n: "1 < length ?l" "Suc 1 < length ?l" "csize (snd (?l ! 1)) = 4" "Suc 1 = 2"
    by (simp_all add: sqlite3_rtree_geometry_layout_def)
  from all[rule_format, OF n(1)] n(2-4) show ?thesis by (simp only: if_True)
qed
end
