(* ===== verification/Sqlite_Prototypes.thy ===== *)
theory Sqlite_Prototypes
  imports Sqlite_Api "HOL-Library.Sublist"
begin

text \<open>
  The functions \<^verbatim>\<open>sqlite3/sqlite3.h\<close> declares, one definition for each run of declarations
  behind one comment, in the order of the header: name, calling convention, result and parameter
  types; \<open>const\<close> and the names of parameters are left out. The lemmas relate the variants of a
  function to each other: UTF-16, extended and streaming.
\<close>

section \<open>Prototypes\<close>

text \<open>The macros before the name, \<open>Default\<close> where there is none, and whether \<open>...\<close> ends the parameters.\<close>

datatype convention = Stdcall | Cdecl | Default

datatype prototype =
  Prototype (p_name: string) (p_convention: convention) (p_result: ctype) (p_params: "ctype list") (p_variadic: bool)

definition proto_sqlite3_libversion :: "prototype list" where
  "proto_sqlite3_libversion = [
    Prototype ''sqlite3_libversion'' Stdcall (CPtr CChar) [] False,
    Prototype ''sqlite3_sourceid'' Stdcall (CPtr CChar) [] False,
    Prototype ''sqlite3_libversion_number'' Stdcall CInt [] False]"

definition proto_sqlite3_compileoption_used :: "prototype list" where
  "proto_sqlite3_compileoption_used = [
    Prototype ''sqlite3_compileoption_used'' Stdcall CInt [CPtr CChar] False,
    Prototype ''sqlite3_compileoption_get'' Stdcall (CPtr CChar) [CInt] False]"

definition proto_sqlite3_threadsafe :: "prototype list" where
  "proto_sqlite3_threadsafe = [
    Prototype ''sqlite3_threadsafe'' Stdcall CInt [] False]"

definition proto_sqlite3_close :: "prototype list" where
  "proto_sqlite3_close = [
    Prototype ''sqlite3_close'' Stdcall CInt [CPtr (CStruct ''sqlite3'')] False,
    Prototype ''sqlite3_close_v2'' Stdcall CInt [CPtr (CStruct ''sqlite3'')] False]"

definition proto_sqlite3_exec :: "prototype list" where
  "proto_sqlite3_exec = [
    Prototype ''sqlite3_exec'' Stdcall CInt [CPtr (CStruct ''sqlite3''), CPtr CChar, CPtr (CFun CInt
        [CPtr CVoid, CInt, CPtr (CPtr CChar), CPtr (CPtr CChar)]), CPtr CVoid, CPtr (CPtr CChar)] False]"

definition proto_sqlite3_initialize :: "prototype list" where
  "proto_sqlite3_initialize = [
    Prototype ''sqlite3_initialize'' Stdcall CInt [] False,
    Prototype ''sqlite3_shutdown'' Stdcall CInt [] False,
    Prototype ''sqlite3_os_init'' Stdcall CInt [] False,
    Prototype ''sqlite3_os_end'' Stdcall CInt [] False]"

definition proto_sqlite3_config :: "prototype list" where
  "proto_sqlite3_config = [
    Prototype ''sqlite3_config'' Cdecl CInt [CInt] True]"

definition proto_sqlite3_db_config :: "prototype list" where
  "proto_sqlite3_db_config = [
    Prototype ''sqlite3_db_config'' Cdecl CInt [CPtr (CStruct ''sqlite3''), CInt] True]"

definition proto_sqlite3_extended_result_codes :: "prototype list" where
  "proto_sqlite3_extended_result_codes = [
    Prototype ''sqlite3_extended_result_codes'' Stdcall CInt [CPtr (CStruct ''sqlite3''), CInt] False]"

definition proto_sqlite3_last_insert_rowid :: "prototype list" where
  "proto_sqlite3_last_insert_rowid = [
    Prototype ''sqlite3_last_insert_rowid'' Stdcall CInt64 [CPtr (CStruct ''sqlite3'')] False]"

definition proto_sqlite3_changes :: "prototype list" where
  "proto_sqlite3_changes = [
    Prototype ''sqlite3_changes'' Stdcall CInt [CPtr (CStruct ''sqlite3'')] False]"

definition proto_sqlite3_total_changes :: "prototype list" where
  "proto_sqlite3_total_changes = [
    Prototype ''sqlite3_total_changes'' Stdcall CInt [CPtr (CStruct ''sqlite3'')] False]"

definition proto_sqlite3_interrupt :: "prototype list" where
  "proto_sqlite3_interrupt = [
    Prototype ''sqlite3_interrupt'' Stdcall CVoid [CPtr (CStruct ''sqlite3'')] False]"

definition proto_sqlite3_complete :: "prototype list" where
  "proto_sqlite3_complete = [
    Prototype ''sqlite3_complete'' Stdcall CInt [CPtr CChar] False,
    Prototype ''sqlite3_complete16'' Stdcall CInt [CPtr CVoid] False]"

definition proto_sqlite3_busy_handler :: "prototype list" where
  "proto_sqlite3_busy_handler = [
    Prototype ''sqlite3_busy_handler'' Stdcall CInt [CPtr (CStruct ''sqlite3''), CPtr (CFun CInt [CPtr
        CVoid, CInt]), CPtr CVoid] False]"

definition proto_sqlite3_busy_timeout :: "prototype list" where
  "proto_sqlite3_busy_timeout = [
    Prototype ''sqlite3_busy_timeout'' Stdcall CInt [CPtr (CStruct ''sqlite3''), CInt] False]"

definition proto_sqlite3_get_table :: "prototype list" where
  "proto_sqlite3_get_table = [
    Prototype ''sqlite3_get_table'' Stdcall CInt [CPtr (CStruct ''sqlite3''), CPtr CChar, CPtr (CPtr
        (CPtr CChar)), CPtr CInt, CPtr CInt, CPtr (CPtr CChar)] False,
    Prototype ''sqlite3_free_table'' Stdcall CVoid [CPtr (CPtr CChar)] False]"

definition proto_sqlite3_mprintf :: "prototype list" where
  "proto_sqlite3_mprintf = [
    Prototype ''sqlite3_mprintf'' Cdecl (CPtr CChar) [CPtr CChar] True,
    Prototype ''sqlite3_vmprintf'' Stdcall (CPtr CChar) [CPtr CChar, CStruct ''va_list''] False,
    Prototype ''sqlite3_snprintf'' Cdecl (CPtr CChar) [CInt, CPtr CChar, CPtr CChar] True,
    Prototype ''sqlite3_vsnprintf'' Stdcall (CPtr CChar) [CInt, CPtr CChar, CPtr CChar, CStruct
        ''va_list''] False]"

definition proto_sqlite3_malloc :: "prototype list" where
  "proto_sqlite3_malloc = [
    Prototype ''sqlite3_malloc'' Stdcall (CPtr CVoid) [CInt] False,
    Prototype ''sqlite3_malloc64'' Stdcall (CPtr CVoid) [CUInt64] False,
    Prototype ''sqlite3_realloc'' Stdcall (CPtr CVoid) [CPtr CVoid, CInt] False,
    Prototype ''sqlite3_realloc64'' Stdcall (CPtr CVoid) [CPtr CVoid, CUInt64] False,
    Prototype ''sqlite3_free'' Stdcall CVoid [CPtr CVoid] False,
    Prototype ''sqlite3_msize'' Stdcall CUInt64 [CPtr CVoid] False]"

definition proto_sqlite3_memory_used :: "prototype list" where
  "proto_sqlite3_memory_used = [
    Prototype ''sqlite3_memory_used'' Stdcall CInt64 [] False,
    Prototype ''sqlite3_memory_highwater'' Stdcall CInt64 [CInt] False]"

definition proto_sqlite3_randomness :: "prototype list" where
  "proto_sqlite3_randomness = [
    Prototype ''sqlite3_randomness'' Stdcall CVoid [CInt, CPtr CVoid] False]"

definition proto_sqlite3_set_authorizer :: "prototype list" where
  "proto_sqlite3_set_authorizer = [
    Prototype ''sqlite3_set_authorizer'' Stdcall CInt [CPtr (CStruct ''sqlite3''), CPtr (CFun CInt [CPtr
        CVoid, CInt, CPtr CChar, CPtr CChar, CPtr CChar, CPtr CChar]), CPtr CVoid] False]"

definition proto_sqlite3_trace :: "prototype list" where
  "proto_sqlite3_trace = [
    Prototype ''sqlite3_trace'' Stdcall (CPtr CVoid) [CPtr (CStruct ''sqlite3''), CPtr (CFun CVoid [CPtr
        CVoid, CPtr CChar]), CPtr CVoid] False,
    Prototype ''sqlite3_profile'' Stdcall (CPtr CVoid) [CPtr (CStruct ''sqlite3''), CPtr (CFun CVoid
        [CPtr CVoid, CPtr CChar, CUInt64]), CPtr CVoid] False]"

definition proto_sqlite3_progress_handler :: "prototype list" where
  "proto_sqlite3_progress_handler = [
    Prototype ''sqlite3_progress_handler'' Stdcall CVoid [CPtr (CStruct ''sqlite3''), CInt, CPtr (CFun
        CInt [CPtr CVoid]), CPtr CVoid] False]"

definition proto_sqlite3_open :: "prototype list" where
  "proto_sqlite3_open = [
    Prototype ''sqlite3_open'' Stdcall CInt [CPtr CChar, CPtr (CPtr (CStruct ''sqlite3''))] False,
    Prototype ''sqlite3_open16'' Stdcall CInt [CPtr CVoid, CPtr (CPtr (CStruct ''sqlite3''))] False,
    Prototype ''sqlite3_open_v2'' Stdcall CInt [CPtr CChar, CPtr (CPtr (CStruct ''sqlite3'')), CInt,
        CPtr CChar] False]"

definition proto_sqlite3_uri_parameter :: "prototype list" where
  "proto_sqlite3_uri_parameter = [
    Prototype ''sqlite3_uri_parameter'' Stdcall (CPtr CChar) [CPtr CChar, CPtr CChar] False,
    Prototype ''sqlite3_uri_boolean'' Stdcall CInt [CPtr CChar, CPtr CChar, CInt] False,
    Prototype ''sqlite3_uri_int64'' Stdcall CInt64 [CPtr CChar, CPtr CChar, CInt64] False]"

definition proto_sqlite3_errcode :: "prototype list" where
  "proto_sqlite3_errcode = [
    Prototype ''sqlite3_errcode'' Stdcall CInt [CPtr (CStruct ''sqlite3'')] False,
    Prototype ''sqlite3_extended_errcode'' Stdcall CInt [CPtr (CStruct ''sqlite3'')] False,
    Prototype ''sqlite3_errmsg'' Stdcall (CPtr CChar) [CPtr (CStruct ''sqlite3'')] False,
    Prototype ''sqlite3_errmsg16'' Stdcall (CPtr CVoid) [CPtr (CStruct ''sqlite3'')] False,
    Prototype ''sqlite3_errstr'' Stdcall (CPtr CChar) [CInt] False]"

definition proto_sqlite3_limit :: "prototype list" where
  "proto_sqlite3_limit = [
    Prototype ''sqlite3_limit'' Stdcall CInt [CPtr (CStruct ''sqlite3''), CInt, CInt] False]"

definition proto_sqlite3_prepare :: "prototype list" where
  "proto_sqlite3_prepare = [
    Prototype ''sqlite3_prepare'' Stdcall CInt [CPtr (CStruct ''sqlite3''), CPtr CChar, CInt, CPtr (CPtr
        (CStruct ''sqlite3_stmt'')), CPtr (CPtr CChar)] False,
    Prototype ''sqlite3_prepare_v2'' Stdcall CInt [CPtr (CStruct ''sqlite3''), CPtr CChar, CInt, CPtr
        (CPtr (CStruct ''sqlite3_stmt'')), CPtr (CPtr CChar)] False,
    Prototype ''sqlite3_prepare16'' Stdcall CInt [CPtr (CStruct ''sqlite3''), CPtr CVoid, CInt, CPtr
        (CPtr (CStruct ''sqlite3_stmt'')), CPtr (CPtr CVoid)] False,
    Prototype ''sqlite3_prepare16_v2'' Stdcall CInt [CPtr (CStruct ''sqlite3''), CPtr CVoid, CInt, CPtr
        (CPtr (CStruct ''sqlite3_stmt'')), CPtr (CPtr CVoid)] False]"

definition proto_sqlite3_sql :: "prototype list" where
  "proto_sqlite3_sql = [
    Prototype ''sqlite3_sql'' Stdcall (CPtr CChar) [CPtr (CStruct ''sqlite3_stmt'')] False]"

definition proto_sqlite3_stmt_readonly :: "prototype list" where
  "proto_sqlite3_stmt_readonly = [
    Prototype ''sqlite3_stmt_readonly'' Stdcall CInt [CPtr (CStruct ''sqlite3_stmt'')] False]"

definition proto_sqlite3_stmt_busy :: "prototype list" where
  "proto_sqlite3_stmt_busy = [
    Prototype ''sqlite3_stmt_busy'' Stdcall CInt [CPtr (CStruct ''sqlite3_stmt'')] False]"

definition proto_sqlite3_bind_blob :: "prototype list" where
  "proto_sqlite3_bind_blob = [
    Prototype ''sqlite3_bind_blob'' Stdcall CInt [CPtr (CStruct ''sqlite3_stmt''), CInt, CPtr CVoid,
        CInt, CPtr (CFun CVoid [CPtr CVoid])] False,
    Prototype ''sqlite3_bind_blob64'' Stdcall CInt [CPtr (CStruct ''sqlite3_stmt''), CInt, CPtr CVoid,
        CUInt64, CPtr (CFun CVoid [CPtr CVoid])] False,
    Prototype ''sqlite3_bind_double'' Stdcall CInt [CPtr (CStruct ''sqlite3_stmt''), CInt, CDouble]
        False,
    Prototype ''sqlite3_bind_int'' Stdcall CInt [CPtr (CStruct ''sqlite3_stmt''), CInt, CInt] False,
    Prototype ''sqlite3_bind_int64'' Stdcall CInt [CPtr (CStruct ''sqlite3_stmt''), CInt, CInt64] False,
    Prototype ''sqlite3_bind_null'' Stdcall CInt [CPtr (CStruct ''sqlite3_stmt''), CInt] False,
    Prototype ''sqlite3_bind_text'' Stdcall CInt [CPtr (CStruct ''sqlite3_stmt''), CInt, CPtr CChar,
        CInt, CPtr (CFun CVoid [CPtr CVoid])] False,
    Prototype ''sqlite3_bind_text16'' Stdcall CInt [CPtr (CStruct ''sqlite3_stmt''), CInt, CPtr CVoid,
        CInt, CPtr (CFun CVoid [CPtr CVoid])] False,
    Prototype ''sqlite3_bind_text64'' Stdcall CInt [CPtr (CStruct ''sqlite3_stmt''), CInt, CPtr CChar,
        CUInt64, CPtr (CFun CVoid [CPtr CVoid]), CUChar] False,
    Prototype ''sqlite3_bind_value'' Stdcall CInt [CPtr (CStruct ''sqlite3_stmt''), CInt, CPtr (CStruct
        ''sqlite3_value'')] False,
    Prototype ''sqlite3_bind_zeroblob'' Stdcall CInt [CPtr (CStruct ''sqlite3_stmt''), CInt, CInt] False,
    Prototype ''sqlite3_bind_zeroblob64'' Stdcall CInt [CPtr (CStruct ''sqlite3_stmt''), CInt, CUInt64]
        False]"

definition proto_sqlite3_bind_parameter_count :: "prototype list" where
  "proto_sqlite3_bind_parameter_count = [
    Prototype ''sqlite3_bind_parameter_count'' Stdcall CInt [CPtr (CStruct ''sqlite3_stmt'')] False]"

definition proto_sqlite3_bind_parameter_name :: "prototype list" where
  "proto_sqlite3_bind_parameter_name = [
    Prototype ''sqlite3_bind_parameter_name'' Stdcall (CPtr CChar) [CPtr (CStruct ''sqlite3_stmt''),
        CInt] False]"

definition proto_sqlite3_bind_parameter_index :: "prototype list" where
  "proto_sqlite3_bind_parameter_index = [
    Prototype ''sqlite3_bind_parameter_index'' Stdcall CInt [CPtr (CStruct ''sqlite3_stmt''), CPtr
        CChar] False]"

definition proto_sqlite3_clear_bindings :: "prototype list" where
  "proto_sqlite3_clear_bindings = [
    Prototype ''sqlite3_clear_bindings'' Stdcall CInt [CPtr (CStruct ''sqlite3_stmt'')] False]"

definition proto_sqlite3_column_count :: "prototype list" where
  "proto_sqlite3_column_count = [
    Prototype ''sqlite3_column_count'' Stdcall CInt [CPtr (CStruct ''sqlite3_stmt'')] False]"

definition proto_sqlite3_column_name :: "prototype list" where
  "proto_sqlite3_column_name = [
    Prototype ''sqlite3_column_name'' Stdcall (CPtr CChar) [CPtr (CStruct ''sqlite3_stmt''), CInt] False,
    Prototype ''sqlite3_column_name16'' Stdcall (CPtr CVoid) [CPtr (CStruct ''sqlite3_stmt''), CInt]
        False]"

definition proto_sqlite3_column_database_name :: "prototype list" where
  "proto_sqlite3_column_database_name = [
    Prototype ''sqlite3_column_database_name'' Stdcall (CPtr CChar) [CPtr (CStruct ''sqlite3_stmt''),
        CInt] False,
    Prototype ''sqlite3_column_database_name16'' Stdcall (CPtr CVoid) [CPtr (CStruct ''sqlite3_stmt''),
        CInt] False,
    Prototype ''sqlite3_column_table_name'' Stdcall (CPtr CChar) [CPtr (CStruct ''sqlite3_stmt''), CInt]
        False,
    Prototype ''sqlite3_column_table_name16'' Stdcall (CPtr CVoid) [CPtr (CStruct ''sqlite3_stmt''),
        CInt] False,
    Prototype ''sqlite3_column_origin_name'' Stdcall (CPtr CChar) [CPtr (CStruct ''sqlite3_stmt''),
        CInt] False,
    Prototype ''sqlite3_column_origin_name16'' Stdcall (CPtr CVoid) [CPtr (CStruct ''sqlite3_stmt''),
        CInt] False]"

definition proto_sqlite3_column_decltype :: "prototype list" where
  "proto_sqlite3_column_decltype = [
    Prototype ''sqlite3_column_decltype'' Stdcall (CPtr CChar) [CPtr (CStruct ''sqlite3_stmt''), CInt]
        False,
    Prototype ''sqlite3_column_decltype16'' Stdcall (CPtr CVoid) [CPtr (CStruct ''sqlite3_stmt''), CInt]
        False]"

definition proto_sqlite3_step :: "prototype list" where
  "proto_sqlite3_step = [
    Prototype ''sqlite3_step'' Stdcall CInt [CPtr (CStruct ''sqlite3_stmt'')] False]"

definition proto_sqlite3_data_count :: "prototype list" where
  "proto_sqlite3_data_count = [
    Prototype ''sqlite3_data_count'' Stdcall CInt [CPtr (CStruct ''sqlite3_stmt'')] False]"

definition proto_sqlite3_column_blob :: "prototype list" where
  "proto_sqlite3_column_blob = [
    Prototype ''sqlite3_column_blob'' Stdcall (CPtr CVoid) [CPtr (CStruct ''sqlite3_stmt''), CInt] False,
    Prototype ''sqlite3_column_bytes'' Stdcall CInt [CPtr (CStruct ''sqlite3_stmt''), CInt] False,
    Prototype ''sqlite3_column_bytes16'' Stdcall CInt [CPtr (CStruct ''sqlite3_stmt''), CInt] False,
    Prototype ''sqlite3_column_double'' Stdcall CDouble [CPtr (CStruct ''sqlite3_stmt''), CInt] False,
    Prototype ''sqlite3_column_int'' Stdcall CInt [CPtr (CStruct ''sqlite3_stmt''), CInt] False,
    Prototype ''sqlite3_column_int64'' Stdcall CInt64 [CPtr (CStruct ''sqlite3_stmt''), CInt] False,
    Prototype ''sqlite3_column_text'' Stdcall (CPtr CUChar) [CPtr (CStruct ''sqlite3_stmt''), CInt]
        False,
    Prototype ''sqlite3_column_text16'' Stdcall (CPtr CVoid) [CPtr (CStruct ''sqlite3_stmt''), CInt]
        False,
    Prototype ''sqlite3_column_type'' Stdcall CInt [CPtr (CStruct ''sqlite3_stmt''), CInt] False,
    Prototype ''sqlite3_column_value'' Stdcall (CPtr (CStruct ''sqlite3_value'')) [CPtr (CStruct
        ''sqlite3_stmt''), CInt] False]"

definition proto_sqlite3_finalize :: "prototype list" where
  "proto_sqlite3_finalize = [
    Prototype ''sqlite3_finalize'' Stdcall CInt [CPtr (CStruct ''sqlite3_stmt'')] False]"

definition proto_sqlite3_reset :: "prototype list" where
  "proto_sqlite3_reset = [
    Prototype ''sqlite3_reset'' Stdcall CInt [CPtr (CStruct ''sqlite3_stmt'')] False]"

definition proto_sqlite3_create_function :: "prototype list" where
  "proto_sqlite3_create_function = [
    Prototype ''sqlite3_create_function'' Stdcall CInt [CPtr (CStruct ''sqlite3''), CPtr CChar, CInt,
        CInt, CPtr CVoid, CPtr (CFun CVoid [CPtr (CStruct ''sqlite3_context''), CInt, CPtr (CPtr
        (CStruct ''sqlite3_value''))]), CPtr (CFun CVoid [CPtr (CStruct ''sqlite3_context''), CInt, CPtr
        (CPtr (CStruct ''sqlite3_value''))]), CPtr (CFun CVoid [CPtr (CStruct ''sqlite3_context'')])]
        False,
    Prototype ''sqlite3_create_function16'' Stdcall CInt [CPtr (CStruct ''sqlite3''), CPtr CVoid, CInt,
        CInt, CPtr CVoid, CPtr (CFun CVoid [CPtr (CStruct ''sqlite3_context''), CInt, CPtr (CPtr
        (CStruct ''sqlite3_value''))]), CPtr (CFun CVoid [CPtr (CStruct ''sqlite3_context''), CInt, CPtr
        (CPtr (CStruct ''sqlite3_value''))]), CPtr (CFun CVoid [CPtr (CStruct ''sqlite3_context'')])]
        False,
    Prototype ''sqlite3_create_function_v2'' Stdcall CInt [CPtr (CStruct ''sqlite3''), CPtr CChar, CInt,
        CInt, CPtr CVoid, CPtr (CFun CVoid [CPtr (CStruct ''sqlite3_context''), CInt, CPtr (CPtr
        (CStruct ''sqlite3_value''))]), CPtr (CFun CVoid [CPtr (CStruct ''sqlite3_context''), CInt, CPtr
        (CPtr (CStruct ''sqlite3_value''))]), CPtr (CFun CVoid [CPtr (CStruct ''sqlite3_context'')]),
        CPtr (CFun CVoid [CPtr CVoid])] False]"

definition proto_sqlite3_aggregate_count :: "prototype list" where
  "proto_sqlite3_aggregate_count = [
    Prototype ''sqlite3_aggregate_count'' Stdcall CInt [CPtr (CStruct ''sqlite3_context'')] False,
    Prototype ''sqlite3_expired'' Stdcall CInt [CPtr (CStruct ''sqlite3_stmt'')] False,
    Prototype ''sqlite3_transfer_bindings'' Stdcall CInt [CPtr (CStruct ''sqlite3_stmt''), CPtr (CStruct
        ''sqlite3_stmt'')] False,
    Prototype ''sqlite3_global_recover'' Stdcall CInt [] False,
    Prototype ''sqlite3_thread_cleanup'' Stdcall CVoid [] False,
    Prototype ''sqlite3_memory_alarm'' Stdcall CInt [CPtr (CFun CVoid [CPtr CVoid, CInt64, CInt]), CPtr
        CVoid, CInt64] False]"

definition proto_sqlite3_value_blob :: "prototype list" where
  "proto_sqlite3_value_blob = [
    Prototype ''sqlite3_value_blob'' Stdcall (CPtr CVoid) [CPtr (CStruct ''sqlite3_value'')] False,
    Prototype ''sqlite3_value_bytes'' Stdcall CInt [CPtr (CStruct ''sqlite3_value'')] False,
    Prototype ''sqlite3_value_bytes16'' Stdcall CInt [CPtr (CStruct ''sqlite3_value'')] False,
    Prototype ''sqlite3_value_double'' Stdcall CDouble [CPtr (CStruct ''sqlite3_value'')] False,
    Prototype ''sqlite3_value_int'' Stdcall CInt [CPtr (CStruct ''sqlite3_value'')] False,
    Prototype ''sqlite3_value_int64'' Stdcall CInt64 [CPtr (CStruct ''sqlite3_value'')] False,
    Prototype ''sqlite3_value_text'' Stdcall (CPtr CUChar) [CPtr (CStruct ''sqlite3_value'')] False,
    Prototype ''sqlite3_value_text16'' Stdcall (CPtr CVoid) [CPtr (CStruct ''sqlite3_value'')] False,
    Prototype ''sqlite3_value_text16le'' Stdcall (CPtr CVoid) [CPtr (CStruct ''sqlite3_value'')] False,
    Prototype ''sqlite3_value_text16be'' Stdcall (CPtr CVoid) [CPtr (CStruct ''sqlite3_value'')] False,
    Prototype ''sqlite3_value_type'' Stdcall CInt [CPtr (CStruct ''sqlite3_value'')] False,
    Prototype ''sqlite3_value_numeric_type'' Stdcall CInt [CPtr (CStruct ''sqlite3_value'')] False]"

definition proto_sqlite3_value_subtype :: "prototype list" where
  "proto_sqlite3_value_subtype = [
    Prototype ''sqlite3_value_subtype'' Stdcall CUInt [CPtr (CStruct ''sqlite3_value'')] False]"

definition proto_sqlite3_value_dup :: "prototype list" where
  "proto_sqlite3_value_dup = [
    Prototype ''sqlite3_value_dup'' Stdcall (CPtr (CStruct ''sqlite3_value'')) [CPtr (CStruct
        ''sqlite3_value'')] False,
    Prototype ''sqlite3_value_free'' Stdcall CVoid [CPtr (CStruct ''sqlite3_value'')] False]"

definition proto_sqlite3_aggregate_context :: "prototype list" where
  "proto_sqlite3_aggregate_context = [
    Prototype ''sqlite3_aggregate_context'' Stdcall (CPtr CVoid) [CPtr (CStruct ''sqlite3_context''),
        CInt] False]"

definition proto_sqlite3_user_data :: "prototype list" where
  "proto_sqlite3_user_data = [
    Prototype ''sqlite3_user_data'' Stdcall (CPtr CVoid) [CPtr (CStruct ''sqlite3_context'')] False]"

definition proto_sqlite3_context_db_handle :: "prototype list" where
  "proto_sqlite3_context_db_handle = [
    Prototype ''sqlite3_context_db_handle'' Stdcall (CPtr (CStruct ''sqlite3'')) [CPtr (CStruct
        ''sqlite3_context'')] False]"

definition proto_sqlite3_get_auxdata :: "prototype list" where
  "proto_sqlite3_get_auxdata = [
    Prototype ''sqlite3_get_auxdata'' Stdcall (CPtr CVoid) [CPtr (CStruct ''sqlite3_context''), CInt]
        False,
    Prototype ''sqlite3_set_auxdata'' Stdcall CVoid [CPtr (CStruct ''sqlite3_context''), CInt, CPtr
        CVoid, CPtr (CFun CVoid [CPtr CVoid])] False]"

definition proto_sqlite3_result_blob :: "prototype list" where
  "proto_sqlite3_result_blob = [
    Prototype ''sqlite3_result_blob'' Stdcall CVoid [CPtr (CStruct ''sqlite3_context''), CPtr CVoid,
        CInt, CPtr (CFun CVoid [CPtr CVoid])] False,
    Prototype ''sqlite3_result_blob64'' Stdcall CVoid [CPtr (CStruct ''sqlite3_context''), CPtr CVoid,
        CUInt64, CPtr (CFun CVoid [CPtr CVoid])] False,
    Prototype ''sqlite3_result_double'' Stdcall CVoid [CPtr (CStruct ''sqlite3_context''), CDouble]
        False,
    Prototype ''sqlite3_result_error'' Stdcall CVoid [CPtr (CStruct ''sqlite3_context''), CPtr CChar,
        CInt] False,
    Prototype ''sqlite3_result_error16'' Stdcall CVoid [CPtr (CStruct ''sqlite3_context''), CPtr CVoid,
        CInt] False,
    Prototype ''sqlite3_result_error_toobig'' Stdcall CVoid [CPtr (CStruct ''sqlite3_context'')] False,
    Prototype ''sqlite3_result_error_nomem'' Stdcall CVoid [CPtr (CStruct ''sqlite3_context'')] False,
    Prototype ''sqlite3_result_error_code'' Stdcall CVoid [CPtr (CStruct ''sqlite3_context''), CInt]
        False,
    Prototype ''sqlite3_result_int'' Stdcall CVoid [CPtr (CStruct ''sqlite3_context''), CInt] False,
    Prototype ''sqlite3_result_int64'' Stdcall CVoid [CPtr (CStruct ''sqlite3_context''), CInt64] False,
    Prototype ''sqlite3_result_null'' Stdcall CVoid [CPtr (CStruct ''sqlite3_context'')] False,
    Prototype ''sqlite3_result_text'' Stdcall CVoid [CPtr (CStruct ''sqlite3_context''), CPtr CChar,
        CInt, CPtr (CFun CVoid [CPtr CVoid])] False,
    Prototype ''sqlite3_result_text64'' Stdcall CVoid [CPtr (CStruct ''sqlite3_context''), CPtr CChar,
        CUInt64, CPtr (CFun CVoid [CPtr CVoid]), CUChar] False,
    Prototype ''sqlite3_result_text16'' Stdcall CVoid [CPtr (CStruct ''sqlite3_context''), CPtr CVoid,
        CInt, CPtr (CFun CVoid [CPtr CVoid])] False,
    Prototype ''sqlite3_result_text16le'' Stdcall CVoid [CPtr (CStruct ''sqlite3_context''), CPtr CVoid,
        CInt, CPtr (CFun CVoid [CPtr CVoid])] False,
    Prototype ''sqlite3_result_text16be'' Stdcall CVoid [CPtr (CStruct ''sqlite3_context''), CPtr CVoid,
        CInt, CPtr (CFun CVoid [CPtr CVoid])] False,
    Prototype ''sqlite3_result_value'' Stdcall CVoid [CPtr (CStruct ''sqlite3_context''), CPtr (CStruct
        ''sqlite3_value'')] False,
    Prototype ''sqlite3_result_zeroblob'' Stdcall CVoid [CPtr (CStruct ''sqlite3_context''), CInt] False,
    Prototype ''sqlite3_result_zeroblob64'' Stdcall CInt [CPtr (CStruct ''sqlite3_context''), CUInt64]
        False]"

definition proto_sqlite3_result_subtype :: "prototype list" where
  "proto_sqlite3_result_subtype = [
    Prototype ''sqlite3_result_subtype'' Stdcall CVoid [CPtr (CStruct ''sqlite3_context''), CUInt] False]"

definition proto_sqlite3_create_collation :: "prototype list" where
  "proto_sqlite3_create_collation = [
    Prototype ''sqlite3_create_collation'' Stdcall CInt [CPtr (CStruct ''sqlite3''), CPtr CChar, CInt,
        CPtr CVoid, CPtr (CFun CInt [CPtr CVoid, CInt, CPtr CVoid, CInt, CPtr CVoid])] False,
    Prototype ''sqlite3_create_collation_v2'' Stdcall CInt [CPtr (CStruct ''sqlite3''), CPtr CChar,
        CInt, CPtr CVoid, CPtr (CFun CInt [CPtr CVoid, CInt, CPtr CVoid, CInt, CPtr CVoid]), CPtr (CFun
        CVoid [CPtr CVoid])] False,
    Prototype ''sqlite3_create_collation16'' Stdcall CInt [CPtr (CStruct ''sqlite3''), CPtr CVoid, CInt,
        CPtr CVoid, CPtr (CFun CInt [CPtr CVoid, CInt, CPtr CVoid, CInt, CPtr CVoid])] False]"

definition proto_sqlite3_collation_needed :: "prototype list" where
  "proto_sqlite3_collation_needed = [
    Prototype ''sqlite3_collation_needed'' Stdcall CInt [CPtr (CStruct ''sqlite3''), CPtr CVoid, CPtr
        (CFun CVoid [CPtr CVoid, CPtr (CStruct ''sqlite3''), CInt, CPtr CChar])] False,
    Prototype ''sqlite3_collation_needed16'' Stdcall CInt [CPtr (CStruct ''sqlite3''), CPtr CVoid, CPtr
        (CFun CVoid [CPtr CVoid, CPtr (CStruct ''sqlite3''), CInt, CPtr CVoid])] False]"

definition proto_sqlite3_key :: "prototype list" where
  "proto_sqlite3_key = [
    Prototype ''sqlite3_key'' Stdcall CInt [CPtr (CStruct ''sqlite3''), CPtr CVoid, CInt] False,
    Prototype ''sqlite3_key_v2'' Stdcall CInt [CPtr (CStruct ''sqlite3''), CPtr CChar, CPtr CVoid, CInt]
        False]"

definition proto_sqlite3_rekey :: "prototype list" where
  "proto_sqlite3_rekey = [
    Prototype ''sqlite3_rekey'' Stdcall CInt [CPtr (CStruct ''sqlite3''), CPtr CVoid, CInt] False,
    Prototype ''sqlite3_rekey_v2'' Stdcall CInt [CPtr (CStruct ''sqlite3''), CPtr CChar, CPtr CVoid,
        CInt] False]"

definition proto_sqlite3_activate_see :: "prototype list" where
  "proto_sqlite3_activate_see = [
    Prototype ''sqlite3_activate_see'' Stdcall CVoid [CPtr CChar] False]"

definition proto_sqlite3_activate_cerod :: "prototype list" where
  "proto_sqlite3_activate_cerod = [
    Prototype ''sqlite3_activate_cerod'' Stdcall CVoid [CPtr CChar] False]"

definition proto_sqlite3_sleep :: "prototype list" where
  "proto_sqlite3_sleep = [
    Prototype ''sqlite3_sleep'' Stdcall CInt [CInt] False]"

definition proto_sqlite3_get_autocommit :: "prototype list" where
  "proto_sqlite3_get_autocommit = [
    Prototype ''sqlite3_get_autocommit'' Stdcall CInt [CPtr (CStruct ''sqlite3'')] False]"

definition proto_sqlite3_db_handle :: "prototype list" where
  "proto_sqlite3_db_handle = [
    Prototype ''sqlite3_db_handle'' Stdcall (CPtr (CStruct ''sqlite3'')) [CPtr (CStruct
        ''sqlite3_stmt'')] False]"

definition proto_sqlite3_db_filename :: "prototype list" where
  "proto_sqlite3_db_filename = [
    Prototype ''sqlite3_db_filename'' Stdcall (CPtr CChar) [CPtr (CStruct ''sqlite3''), CPtr CChar]
        False]"

definition proto_sqlite3_db_readonly :: "prototype list" where
  "proto_sqlite3_db_readonly = [
    Prototype ''sqlite3_db_readonly'' Stdcall CInt [CPtr (CStruct ''sqlite3''), CPtr CChar] False]"

definition proto_sqlite3_next_stmt :: "prototype list" where
  "proto_sqlite3_next_stmt = [
    Prototype ''sqlite3_next_stmt'' Stdcall (CPtr (CStruct ''sqlite3_stmt'')) [CPtr (CStruct
        ''sqlite3''), CPtr (CStruct ''sqlite3_stmt'')] False]"

definition proto_sqlite3_commit_hook :: "prototype list" where
  "proto_sqlite3_commit_hook = [
    Prototype ''sqlite3_commit_hook'' Stdcall (CPtr CVoid) [CPtr (CStruct ''sqlite3''), CPtr (CFun CInt
        [CPtr CVoid]), CPtr CVoid] False,
    Prototype ''sqlite3_rollback_hook'' Stdcall (CPtr CVoid) [CPtr (CStruct ''sqlite3''), CPtr (CFun
        CVoid [CPtr CVoid]), CPtr CVoid] False]"

definition proto_sqlite3_update_hook :: "prototype list" where
  "proto_sqlite3_update_hook = [
    Prototype ''sqlite3_update_hook'' Stdcall (CPtr CVoid) [CPtr (CStruct ''sqlite3''), CPtr (CFun CVoid
        [CPtr CVoid, CInt, CPtr CChar, CPtr CChar, CInt64]), CPtr CVoid] False]"

definition proto_sqlite3_enable_shared_cache :: "prototype list" where
  "proto_sqlite3_enable_shared_cache = [
    Prototype ''sqlite3_enable_shared_cache'' Stdcall CInt [CInt] False]"

definition proto_sqlite3_release_memory :: "prototype list" where
  "proto_sqlite3_release_memory = [
    Prototype ''sqlite3_release_memory'' Stdcall CInt [CInt] False]"

definition proto_sqlite3_db_release_memory :: "prototype list" where
  "proto_sqlite3_db_release_memory = [
    Prototype ''sqlite3_db_release_memory'' Stdcall CInt [CPtr (CStruct ''sqlite3'')] False]"

definition proto_sqlite3_soft_heap_limit64 :: "prototype list" where
  "proto_sqlite3_soft_heap_limit64 = [
    Prototype ''sqlite3_soft_heap_limit64'' Stdcall CInt64 [CInt64] False]"

definition proto_sqlite3_soft_heap_limit :: "prototype list" where
  "proto_sqlite3_soft_heap_limit = [
    Prototype ''sqlite3_soft_heap_limit'' Stdcall CVoid [CInt] False]"

definition proto_sqlite3_table_column_metadata :: "prototype list" where
  "proto_sqlite3_table_column_metadata = [
    Prototype ''sqlite3_table_column_metadata'' Stdcall CInt [CPtr (CStruct ''sqlite3''), CPtr CChar,
        CPtr CChar, CPtr CChar, CPtr (CPtr CChar), CPtr (CPtr CChar), CPtr CInt, CPtr CInt, CPtr CInt]
        False]"

definition proto_sqlite3_load_extension :: "prototype list" where
  "proto_sqlite3_load_extension = [
    Prototype ''sqlite3_load_extension'' Stdcall CInt [CPtr (CStruct ''sqlite3''), CPtr CChar, CPtr
        CChar, CPtr (CPtr CChar)] False]"

definition proto_sqlite3_enable_load_extension :: "prototype list" where
  "proto_sqlite3_enable_load_extension = [
    Prototype ''sqlite3_enable_load_extension'' Stdcall CInt [CPtr (CStruct ''sqlite3''), CInt] False]"

definition proto_sqlite3_auto_extension :: "prototype list" where
  "proto_sqlite3_auto_extension = [
    Prototype ''sqlite3_auto_extension'' Stdcall CInt [CPtr (CFun CVoid [])] False]"

definition proto_sqlite3_cancel_auto_extension :: "prototype list" where
  "proto_sqlite3_cancel_auto_extension = [
    Prototype ''sqlite3_cancel_auto_extension'' Stdcall CInt [CPtr (CFun CVoid [])] False]"

definition proto_sqlite3_reset_auto_extension :: "prototype list" where
  "proto_sqlite3_reset_auto_extension = [
    Prototype ''sqlite3_reset_auto_extension'' Stdcall CVoid [] False]"

definition proto_sqlite3_create_module :: "prototype list" where
  "proto_sqlite3_create_module = [
    Prototype ''sqlite3_create_module'' Stdcall CInt [CPtr (CStruct ''sqlite3''), CPtr CChar, CPtr
        (CStruct ''sqlite3_module''), CPtr CVoid] False,
    Prototype ''sqlite3_create_module_v2'' Stdcall CInt [CPtr (CStruct ''sqlite3''), CPtr CChar, CPtr
        (CStruct ''sqlite3_module''), CPtr CVoid, CPtr (CFun CVoid [CPtr CVoid])] False]"

definition proto_sqlite3_declare_vtab :: "prototype list" where
  "proto_sqlite3_declare_vtab = [
    Prototype ''sqlite3_declare_vtab'' Stdcall CInt [CPtr (CStruct ''sqlite3''), CPtr CChar] False]"

definition proto_sqlite3_overload_function :: "prototype list" where
  "proto_sqlite3_overload_function = [
    Prototype ''sqlite3_overload_function'' Stdcall CInt [CPtr (CStruct ''sqlite3''), CPtr CChar, CInt]
        False]"

definition proto_sqlite3_blob_open :: "prototype list" where
  "proto_sqlite3_blob_open = [
    Prototype ''sqlite3_blob_open'' Stdcall CInt [CPtr (CStruct ''sqlite3''), CPtr CChar, CPtr CChar,
        CPtr CChar, CInt64, CInt, CPtr (CPtr (CStruct ''sqlite3_blob''))] False]"

definition proto_sqlite3_blob_reopen :: "prototype list" where
  "proto_sqlite3_blob_reopen = [
    Prototype ''sqlite3_blob_reopen'' Stdcall CInt [CPtr (CStruct ''sqlite3_blob''), CInt64] False]"

definition proto_sqlite3_blob_close :: "prototype list" where
  "proto_sqlite3_blob_close = [
    Prototype ''sqlite3_blob_close'' Stdcall CInt [CPtr (CStruct ''sqlite3_blob'')] False]"

definition proto_sqlite3_blob_bytes :: "prototype list" where
  "proto_sqlite3_blob_bytes = [
    Prototype ''sqlite3_blob_bytes'' Stdcall CInt [CPtr (CStruct ''sqlite3_blob'')] False]"

definition proto_sqlite3_blob_read :: "prototype list" where
  "proto_sqlite3_blob_read = [
    Prototype ''sqlite3_blob_read'' Stdcall CInt [CPtr (CStruct ''sqlite3_blob''), CPtr CVoid, CInt,
        CInt] False]"

definition proto_sqlite3_blob_write :: "prototype list" where
  "proto_sqlite3_blob_write = [
    Prototype ''sqlite3_blob_write'' Stdcall CInt [CPtr (CStruct ''sqlite3_blob''), CPtr CVoid, CInt,
        CInt] False]"

definition proto_sqlite3_vfs_find :: "prototype list" where
  "proto_sqlite3_vfs_find = [
    Prototype ''sqlite3_vfs_find'' Stdcall (CPtr (CStruct ''sqlite3_vfs'')) [CPtr CChar] False,
    Prototype ''sqlite3_vfs_register'' Stdcall CInt [CPtr (CStruct ''sqlite3_vfs''), CInt] False,
    Prototype ''sqlite3_vfs_unregister'' Stdcall CInt [CPtr (CStruct ''sqlite3_vfs'')] False]"

definition proto_sqlite3_mutex_alloc :: "prototype list" where
  "proto_sqlite3_mutex_alloc = [
    Prototype ''sqlite3_mutex_alloc'' Stdcall (CPtr (CStruct ''sqlite3_mutex'')) [CInt] False,
    Prototype ''sqlite3_mutex_free'' Stdcall CVoid [CPtr (CStruct ''sqlite3_mutex'')] False,
    Prototype ''sqlite3_mutex_enter'' Stdcall CVoid [CPtr (CStruct ''sqlite3_mutex'')] False,
    Prototype ''sqlite3_mutex_try'' Stdcall CInt [CPtr (CStruct ''sqlite3_mutex'')] False,
    Prototype ''sqlite3_mutex_leave'' Stdcall CVoid [CPtr (CStruct ''sqlite3_mutex'')] False]"

definition proto_sqlite3_mutex_held :: "prototype list" where
  "proto_sqlite3_mutex_held = [
    Prototype ''sqlite3_mutex_held'' Stdcall CInt [CPtr (CStruct ''sqlite3_mutex'')] False,
    Prototype ''sqlite3_mutex_notheld'' Stdcall CInt [CPtr (CStruct ''sqlite3_mutex'')] False]"

definition proto_sqlite3_db_mutex :: "prototype list" where
  "proto_sqlite3_db_mutex = [
    Prototype ''sqlite3_db_mutex'' Stdcall (CPtr (CStruct ''sqlite3_mutex'')) [CPtr (CStruct
        ''sqlite3'')] False]"

definition proto_sqlite3_file_control :: "prototype list" where
  "proto_sqlite3_file_control = [
    Prototype ''sqlite3_file_control'' Stdcall CInt [CPtr (CStruct ''sqlite3''), CPtr CChar, CInt, CPtr
        CVoid] False]"

definition proto_sqlite3_test_control :: "prototype list" where
  "proto_sqlite3_test_control = [
    Prototype ''sqlite3_test_control'' Cdecl CInt [CInt] True]"

definition proto_sqlite3_status :: "prototype list" where
  "proto_sqlite3_status = [
    Prototype ''sqlite3_status'' Stdcall CInt [CInt, CPtr CInt, CPtr CInt, CInt] False,
    Prototype ''sqlite3_status64'' Stdcall CInt [CInt, CPtr CInt64, CPtr CInt64, CInt] False]"

definition proto_sqlite3_db_status :: "prototype list" where
  "proto_sqlite3_db_status = [
    Prototype ''sqlite3_db_status'' Stdcall CInt [CPtr (CStruct ''sqlite3''), CInt, CPtr CInt, CPtr
        CInt, CInt] False]"

definition proto_sqlite3_stmt_status :: "prototype list" where
  "proto_sqlite3_stmt_status = [
    Prototype ''sqlite3_stmt_status'' Stdcall CInt [CPtr (CStruct ''sqlite3_stmt''), CInt, CInt] False]"

definition proto_sqlite3_backup_init :: "prototype list" where
  "proto_sqlite3_backup_init = [
    Prototype ''sqlite3_backup_init'' Stdcall (CPtr (CStruct ''sqlite3_backup'')) [CPtr (CStruct
        ''sqlite3''), CPtr CChar, CPtr (CStruct ''sqlite3''), CPtr CChar] False,
    Prototype ''sqlite3_backup_step'' Stdcall CInt [CPtr (CStruct ''sqlite3_backup''), CInt] False,
    Prototype ''sqlite3_backup_finish'' Stdcall CInt [CPtr (CStruct ''sqlite3_backup'')] False,
    Prototype ''sqlite3_backup_remaining'' Stdcall CInt [CPtr (CStruct ''sqlite3_backup'')] False,
    Prototype ''sqlite3_backup_pagecount'' Stdcall CInt [CPtr (CStruct ''sqlite3_backup'')] False]"

definition proto_sqlite3_unlock_notify :: "prototype list" where
  "proto_sqlite3_unlock_notify = [
    Prototype ''sqlite3_unlock_notify'' Stdcall CInt [CPtr (CStruct ''sqlite3''), CPtr (CFun CVoid [CPtr
        (CPtr CVoid), CInt]), CPtr CVoid] False]"

definition proto_sqlite3_stricmp :: "prototype list" where
  "proto_sqlite3_stricmp = [
    Prototype ''sqlite3_stricmp'' Stdcall CInt [CPtr CChar, CPtr CChar] False,
    Prototype ''sqlite3_strnicmp'' Stdcall CInt [CPtr CChar, CPtr CChar, CInt] False]"

definition proto_sqlite3_strglob :: "prototype list" where
  "proto_sqlite3_strglob = [
    Prototype ''sqlite3_strglob'' Stdcall CInt [CPtr CChar, CPtr CChar] False]"

definition proto_sqlite3_strlike :: "prototype list" where
  "proto_sqlite3_strlike = [
    Prototype ''sqlite3_strlike'' Stdcall CInt [CPtr CChar, CPtr CChar, CUInt] False]"

definition proto_sqlite3_log :: "prototype list" where
  "proto_sqlite3_log = [
    Prototype ''sqlite3_log'' Cdecl CVoid [CInt, CPtr CChar] True]"

definition proto_sqlite3_wal_hook :: "prototype list" where
  "proto_sqlite3_wal_hook = [
    Prototype ''sqlite3_wal_hook'' Stdcall (CPtr CVoid) [CPtr (CStruct ''sqlite3''), CPtr (CFun CInt
        [CPtr CVoid, CPtr (CStruct ''sqlite3''), CPtr CChar, CInt]), CPtr CVoid] False]"

definition proto_sqlite3_wal_autocheckpoint :: "prototype list" where
  "proto_sqlite3_wal_autocheckpoint = [
    Prototype ''sqlite3_wal_autocheckpoint'' Stdcall CInt [CPtr (CStruct ''sqlite3''), CInt] False]"

definition proto_sqlite3_wal_checkpoint :: "prototype list" where
  "proto_sqlite3_wal_checkpoint = [
    Prototype ''sqlite3_wal_checkpoint'' Stdcall CInt [CPtr (CStruct ''sqlite3''), CPtr CChar] False]"

definition proto_sqlite3_wal_checkpoint_v2 :: "prototype list" where
  "proto_sqlite3_wal_checkpoint_v2 = [
    Prototype ''sqlite3_wal_checkpoint_v2'' Stdcall CInt [CPtr (CStruct ''sqlite3''), CPtr CChar, CInt,
        CPtr CInt, CPtr CInt] False]"

definition proto_sqlite3_vtab_config :: "prototype list" where
  "proto_sqlite3_vtab_config = [
    Prototype ''sqlite3_vtab_config'' Cdecl CInt [CPtr (CStruct ''sqlite3''), CInt] True]"

definition proto_sqlite3_vtab_on_conflict :: "prototype list" where
  "proto_sqlite3_vtab_on_conflict = [
    Prototype ''sqlite3_vtab_on_conflict'' Stdcall CInt [CPtr (CStruct ''sqlite3'')] False]"

definition proto_sqlite3_stmt_scanstatus :: "prototype list" where
  "proto_sqlite3_stmt_scanstatus = [
    Prototype ''sqlite3_stmt_scanstatus'' Stdcall CInt [CPtr (CStruct ''sqlite3_stmt''), CInt, CInt,
        CPtr CVoid] False]"

definition proto_sqlite3_stmt_scanstatus_reset :: "prototype list" where
  "proto_sqlite3_stmt_scanstatus_reset = [
    Prototype ''sqlite3_stmt_scanstatus_reset'' Stdcall CVoid [CPtr (CStruct ''sqlite3_stmt'')] False]"

definition proto_sqlite3_db_cacheflush :: "prototype list" where
  "proto_sqlite3_db_cacheflush = [
    Prototype ''sqlite3_db_cacheflush'' Stdcall CInt [CPtr (CStruct ''sqlite3'')] False]"

definition proto_sqlite3_preupdate_hook :: "prototype list" where
  "proto_sqlite3_preupdate_hook = [
    Prototype ''sqlite3_preupdate_hook'' Stdcall (CPtr CVoid) [CPtr (CStruct ''sqlite3''), CPtr (CFun
        CVoid [CPtr CVoid, CPtr (CStruct ''sqlite3''), CInt, CPtr CChar, CPtr CChar, CInt64, CInt64]),
        CPtr CVoid] False,
    Prototype ''sqlite3_preupdate_old'' Stdcall CInt [CPtr (CStruct ''sqlite3''), CInt, CPtr (CPtr
        (CStruct ''sqlite3_value''))] False,
    Prototype ''sqlite3_preupdate_count'' Stdcall CInt [CPtr (CStruct ''sqlite3'')] False,
    Prototype ''sqlite3_preupdate_depth'' Stdcall CInt [CPtr (CStruct ''sqlite3'')] False,
    Prototype ''sqlite3_preupdate_new'' Stdcall CInt [CPtr (CStruct ''sqlite3''), CInt, CPtr (CPtr
        (CStruct ''sqlite3_value''))] False]"

definition proto_sqlite3_system_errno :: "prototype list" where
  "proto_sqlite3_system_errno = [
    Prototype ''sqlite3_system_errno'' Stdcall CInt [CPtr (CStruct ''sqlite3'')] False]"

definition proto_sqlite3_snapshot_get :: "prototype list" where
  "proto_sqlite3_snapshot_get = [
    Prototype ''sqlite3_snapshot_get'' Stdcall CInt [CPtr (CStruct ''sqlite3''), CPtr CChar, CPtr (CPtr
        (CStruct ''sqlite3_snapshot''))] False]"

definition proto_sqlite3_snapshot_open :: "prototype list" where
  "proto_sqlite3_snapshot_open = [
    Prototype ''sqlite3_snapshot_open'' Stdcall CInt [CPtr (CStruct ''sqlite3''), CPtr CChar, CPtr
        (CStruct ''sqlite3_snapshot'')] False]"

definition proto_sqlite3_snapshot_free :: "prototype list" where
  "proto_sqlite3_snapshot_free = [
    Prototype ''sqlite3_snapshot_free'' Stdcall CVoid [CPtr (CStruct ''sqlite3_snapshot'')] False]"

definition proto_sqlite3_snapshot_cmp :: "prototype list" where
  "proto_sqlite3_snapshot_cmp = [
    Prototype ''sqlite3_snapshot_cmp'' Stdcall CInt [CPtr (CStruct ''sqlite3_snapshot''), CPtr (CStruct
        ''sqlite3_snapshot'')] False]"

definition proto_sqlite3_rtree_geometry_callback :: "prototype list" where
  "proto_sqlite3_rtree_geometry_callback = [
    Prototype ''sqlite3_rtree_geometry_callback'' Stdcall CInt [CPtr (CStruct ''sqlite3''), CPtr CChar,
        CPtr (CFun CInt [CPtr (CStruct ''sqlite3_rtree_geometry''), CInt, CPtr CDouble, CPtr CInt]),
        CPtr CVoid] False]"

definition proto_sqlite3_rtree_query_callback :: "prototype list" where
  "proto_sqlite3_rtree_query_callback = [
    Prototype ''sqlite3_rtree_query_callback'' Stdcall CInt [CPtr (CStruct ''sqlite3''), CPtr CChar,
        CPtr (CFun CInt [CPtr (CStruct ''sqlite3_rtree_query_info'')]), CPtr CVoid, CPtr (CFun CVoid
        [CPtr CVoid])] False]"

definition proto_sqlite3session_create :: "prototype list" where
  "proto_sqlite3session_create = [
    Prototype ''sqlite3session_create'' Default CInt [CPtr (CStruct ''sqlite3''), CPtr CChar, CPtr (CPtr
        (CStruct ''sqlite3_session''))] False]"

definition proto_sqlite3session_delete :: "prototype list" where
  "proto_sqlite3session_delete = [
    Prototype ''sqlite3session_delete'' Default CVoid [CPtr (CStruct ''sqlite3_session'')] False]"

definition proto_sqlite3session_enable :: "prototype list" where
  "proto_sqlite3session_enable = [
    Prototype ''sqlite3session_enable'' Default CInt [CPtr (CStruct ''sqlite3_session''), CInt] False]"

definition proto_sqlite3session_indirect :: "prototype list" where
  "proto_sqlite3session_indirect = [
    Prototype ''sqlite3session_indirect'' Default CInt [CPtr (CStruct ''sqlite3_session''), CInt] False]"

definition proto_sqlite3session_attach :: "prototype list" where
  "proto_sqlite3session_attach = [
    Prototype ''sqlite3session_attach'' Default CInt [CPtr (CStruct ''sqlite3_session''), CPtr CChar]
        False]"

definition proto_sqlite3session_table_filter :: "prototype list" where
  "proto_sqlite3session_table_filter = [
    Prototype ''sqlite3session_table_filter'' Default CVoid [CPtr (CStruct ''sqlite3_session''), CPtr
        (CFun CInt [CPtr CVoid, CPtr CChar]), CPtr CVoid] False]"

definition proto_sqlite3session_changeset :: "prototype list" where
  "proto_sqlite3session_changeset = [
    Prototype ''sqlite3session_changeset'' Default CInt [CPtr (CStruct ''sqlite3_session''), CPtr CInt,
        CPtr (CPtr CVoid)] False]"

definition proto_sqlite3session_diff :: "prototype list" where
  "proto_sqlite3session_diff = [
    Prototype ''sqlite3session_diff'' Default CInt [CPtr (CStruct ''sqlite3_session''), CPtr CChar, CPtr
        CChar, CPtr (CPtr CChar)] False]"

definition proto_sqlite3session_patchset :: "prototype list" where
  "proto_sqlite3session_patchset = [
    Prototype ''sqlite3session_patchset'' Default CInt [CPtr (CStruct ''sqlite3_session''), CPtr CInt,
        CPtr (CPtr CVoid)] False]"

definition proto_sqlite3session_isempty :: "prototype list" where
  "proto_sqlite3session_isempty = [
    Prototype ''sqlite3session_isempty'' Default CInt [CPtr (CStruct ''sqlite3_session'')] False]"

definition proto_sqlite3changeset_start :: "prototype list" where
  "proto_sqlite3changeset_start = [
    Prototype ''sqlite3changeset_start'' Default CInt [CPtr (CPtr (CStruct ''sqlite3_changeset_iter'')),
        CInt, CPtr CVoid] False]"

definition proto_sqlite3changeset_next :: "prototype list" where
  "proto_sqlite3changeset_next = [
    Prototype ''sqlite3changeset_next'' Default CInt [CPtr (CStruct ''sqlite3_changeset_iter'')] False]"

definition proto_sqlite3changeset_op :: "prototype list" where
  "proto_sqlite3changeset_op = [
    Prototype ''sqlite3changeset_op'' Default CInt [CPtr (CStruct ''sqlite3_changeset_iter''), CPtr
        (CPtr CChar), CPtr CInt, CPtr CInt, CPtr CInt] False]"

definition proto_sqlite3changeset_pk :: "prototype list" where
  "proto_sqlite3changeset_pk = [
    Prototype ''sqlite3changeset_pk'' Default CInt [CPtr (CStruct ''sqlite3_changeset_iter''), CPtr
        (CPtr CUChar), CPtr CInt] False]"

definition proto_sqlite3changeset_old :: "prototype list" where
  "proto_sqlite3changeset_old = [
    Prototype ''sqlite3changeset_old'' Default CInt [CPtr (CStruct ''sqlite3_changeset_iter''), CInt,
        CPtr (CPtr (CStruct ''sqlite3_value''))] False]"

definition proto_sqlite3changeset_new :: "prototype list" where
  "proto_sqlite3changeset_new = [
    Prototype ''sqlite3changeset_new'' Default CInt [CPtr (CStruct ''sqlite3_changeset_iter''), CInt,
        CPtr (CPtr (CStruct ''sqlite3_value''))] False]"

definition proto_sqlite3changeset_conflict :: "prototype list" where
  "proto_sqlite3changeset_conflict = [
    Prototype ''sqlite3changeset_conflict'' Default CInt [CPtr (CStruct ''sqlite3_changeset_iter''),
        CInt, CPtr (CPtr (CStruct ''sqlite3_value''))] False]"

definition proto_sqlite3changeset_fk_conflicts :: "prototype list" where
  "proto_sqlite3changeset_fk_conflicts = [
    Prototype ''sqlite3changeset_fk_conflicts'' Default CInt [CPtr (CStruct ''sqlite3_changeset_iter''),
        CPtr CInt] False]"

definition proto_sqlite3changeset_finalize :: "prototype list" where
  "proto_sqlite3changeset_finalize = [
    Prototype ''sqlite3changeset_finalize'' Default CInt [CPtr (CStruct ''sqlite3_changeset_iter'')]
        False]"

definition proto_sqlite3changeset_invert :: "prototype list" where
  "proto_sqlite3changeset_invert = [
    Prototype ''sqlite3changeset_invert'' Default CInt [CInt, CPtr CVoid, CPtr CInt, CPtr (CPtr CVoid)]
        False]"

definition proto_sqlite3changeset_concat :: "prototype list" where
  "proto_sqlite3changeset_concat = [
    Prototype ''sqlite3changeset_concat'' Default CInt [CInt, CPtr CVoid, CInt, CPtr CVoid, CPtr CInt,
        CPtr (CPtr CVoid)] False]"

definition proto_sqlite3changegroup_new :: "prototype list" where
  "proto_sqlite3changegroup_new = [
    Prototype ''sqlite3changegroup_new'' Default CInt [CPtr (CPtr (CStruct ''sqlite3_changegroup''))]
        False]"

definition proto_sqlite3changegroup_add :: "prototype list" where
  "proto_sqlite3changegroup_add = [
    Prototype ''sqlite3changegroup_add'' Default CInt [CPtr (CStruct ''sqlite3_changegroup''), CInt,
        CPtr CVoid] False]"

definition proto_sqlite3changegroup_output :: "prototype list" where
  "proto_sqlite3changegroup_output = [
    Prototype ''sqlite3changegroup_output'' Default CInt [CPtr (CStruct ''sqlite3_changegroup''), CPtr
        CInt, CPtr (CPtr CVoid)] False]"

definition proto_sqlite3changegroup_delete :: "prototype list" where
  "proto_sqlite3changegroup_delete = [
    Prototype ''sqlite3changegroup_delete'' Default CVoid [CPtr (CStruct ''sqlite3_changegroup'')] False]"

definition proto_sqlite3changeset_apply :: "prototype list" where
  "proto_sqlite3changeset_apply = [
    Prototype ''sqlite3changeset_apply'' Default CInt [CPtr (CStruct ''sqlite3''), CInt, CPtr CVoid,
        CPtr (CFun CInt [CPtr CVoid, CPtr CChar]), CPtr (CFun CInt [CPtr CVoid, CInt, CPtr (CStruct
        ''sqlite3_changeset_iter'')]), CPtr CVoid] False]"

definition proto_sqlite3changeset_apply_strm :: "prototype list" where
  "proto_sqlite3changeset_apply_strm = [
    Prototype ''sqlite3changeset_apply_strm'' Default CInt [CPtr (CStruct ''sqlite3''), CPtr (CFun CInt
        [CPtr CVoid, CPtr CVoid, CPtr CInt]), CPtr CVoid, CPtr (CFun CInt [CPtr CVoid, CPtr CChar]),
        CPtr (CFun CInt [CPtr CVoid, CInt, CPtr (CStruct ''sqlite3_changeset_iter'')]), CPtr CVoid]
        False,
    Prototype ''sqlite3changeset_concat_strm'' Default CInt [CPtr (CFun CInt [CPtr CVoid, CPtr CVoid,
        CPtr CInt]), CPtr CVoid, CPtr (CFun CInt [CPtr CVoid, CPtr CVoid, CPtr CInt]), CPtr CVoid, CPtr
        (CFun CInt [CPtr CVoid, CPtr CVoid, CInt]), CPtr CVoid] False,
    Prototype ''sqlite3changeset_invert_strm'' Default CInt [CPtr (CFun CInt [CPtr CVoid, CPtr CVoid,
        CPtr CInt]), CPtr CVoid, CPtr (CFun CInt [CPtr CVoid, CPtr CVoid, CInt]), CPtr CVoid] False,
    Prototype ''sqlite3changeset_start_strm'' Default CInt [CPtr (CPtr (CStruct
        ''sqlite3_changeset_iter'')), CPtr (CFun CInt [CPtr CVoid, CPtr CVoid, CPtr CInt]), CPtr CVoid]
        False,
    Prototype ''sqlite3session_changeset_strm'' Default CInt [CPtr (CStruct ''sqlite3_session''), CPtr
        (CFun CInt [CPtr CVoid, CPtr CVoid, CInt]), CPtr CVoid] False,
    Prototype ''sqlite3session_patchset_strm'' Default CInt [CPtr (CStruct ''sqlite3_session''), CPtr
        (CFun CInt [CPtr CVoid, CPtr CVoid, CInt]), CPtr CVoid] False,
    Prototype ''sqlite3changegroup_add_strm'' Default CInt [CPtr (CStruct ''sqlite3_changegroup''), CPtr
        (CFun CInt [CPtr CVoid, CPtr CVoid, CPtr CInt]), CPtr CVoid] False,
    Prototype ''sqlite3changegroup_output_strm'' Default CInt [CPtr (CStruct ''sqlite3_changegroup''),
        CPtr (CFun CInt [CPtr CVoid, CPtr CVoid, CInt]), CPtr CVoid] False]"

definition sqlite_functions :: "prototype list list" where
  "sqlite_functions = [
     proto_sqlite3_libversion, proto_sqlite3_compileoption_used, proto_sqlite3_threadsafe,
     proto_sqlite3_close, proto_sqlite3_exec, proto_sqlite3_initialize, proto_sqlite3_config,
     proto_sqlite3_db_config, proto_sqlite3_extended_result_codes, proto_sqlite3_last_insert_rowid,
     proto_sqlite3_changes, proto_sqlite3_total_changes, proto_sqlite3_interrupt,
     proto_sqlite3_complete, proto_sqlite3_busy_handler, proto_sqlite3_busy_timeout,
     proto_sqlite3_get_table, proto_sqlite3_mprintf, proto_sqlite3_malloc,
     proto_sqlite3_memory_used, proto_sqlite3_randomness, proto_sqlite3_set_authorizer,
     proto_sqlite3_trace, proto_sqlite3_progress_handler, proto_sqlite3_open,
     proto_sqlite3_uri_parameter, proto_sqlite3_errcode, proto_sqlite3_limit, proto_sqlite3_prepare,
     proto_sqlite3_sql, proto_sqlite3_stmt_readonly, proto_sqlite3_stmt_busy,
     proto_sqlite3_bind_blob, proto_sqlite3_bind_parameter_count, proto_sqlite3_bind_parameter_name,
     proto_sqlite3_bind_parameter_index, proto_sqlite3_clear_bindings, proto_sqlite3_column_count,
     proto_sqlite3_column_name, proto_sqlite3_column_database_name, proto_sqlite3_column_decltype,
     proto_sqlite3_step, proto_sqlite3_data_count, proto_sqlite3_column_blob,
     proto_sqlite3_finalize, proto_sqlite3_reset, proto_sqlite3_create_function,
     proto_sqlite3_aggregate_count, proto_sqlite3_value_blob, proto_sqlite3_value_subtype,
     proto_sqlite3_value_dup, proto_sqlite3_aggregate_context, proto_sqlite3_user_data,
     proto_sqlite3_context_db_handle, proto_sqlite3_get_auxdata, proto_sqlite3_result_blob,
     proto_sqlite3_result_subtype, proto_sqlite3_create_collation, proto_sqlite3_collation_needed,
     proto_sqlite3_key, proto_sqlite3_rekey, proto_sqlite3_activate_see,
     proto_sqlite3_activate_cerod, proto_sqlite3_sleep, proto_sqlite3_get_autocommit,
     proto_sqlite3_db_handle, proto_sqlite3_db_filename, proto_sqlite3_db_readonly,
     proto_sqlite3_next_stmt, proto_sqlite3_commit_hook, proto_sqlite3_update_hook,
     proto_sqlite3_enable_shared_cache, proto_sqlite3_release_memory,
     proto_sqlite3_db_release_memory, proto_sqlite3_soft_heap_limit64,
     proto_sqlite3_soft_heap_limit, proto_sqlite3_table_column_metadata,
     proto_sqlite3_load_extension, proto_sqlite3_enable_load_extension,
     proto_sqlite3_auto_extension, proto_sqlite3_cancel_auto_extension,
     proto_sqlite3_reset_auto_extension, proto_sqlite3_create_module, proto_sqlite3_declare_vtab,
     proto_sqlite3_overload_function, proto_sqlite3_blob_open, proto_sqlite3_blob_reopen,
     proto_sqlite3_blob_close, proto_sqlite3_blob_bytes, proto_sqlite3_blob_read,
     proto_sqlite3_blob_write, proto_sqlite3_vfs_find, proto_sqlite3_mutex_alloc,
     proto_sqlite3_mutex_held, proto_sqlite3_db_mutex, proto_sqlite3_file_control,
     proto_sqlite3_test_control, proto_sqlite3_status, proto_sqlite3_db_status,
     proto_sqlite3_stmt_status, proto_sqlite3_backup_init, proto_sqlite3_unlock_notify,
     proto_sqlite3_stricmp, proto_sqlite3_strglob, proto_sqlite3_strlike, proto_sqlite3_log,
     proto_sqlite3_wal_hook, proto_sqlite3_wal_autocheckpoint, proto_sqlite3_wal_checkpoint,
     proto_sqlite3_wal_checkpoint_v2, proto_sqlite3_vtab_config, proto_sqlite3_vtab_on_conflict,
     proto_sqlite3_stmt_scanstatus, proto_sqlite3_stmt_scanstatus_reset,
     proto_sqlite3_db_cacheflush, proto_sqlite3_preupdate_hook, proto_sqlite3_system_errno,
     proto_sqlite3_snapshot_get, proto_sqlite3_snapshot_open, proto_sqlite3_snapshot_free,
     proto_sqlite3_snapshot_cmp, proto_sqlite3_rtree_geometry_callback,
     proto_sqlite3_rtree_query_callback, proto_sqlite3session_create, proto_sqlite3session_delete,
     proto_sqlite3session_enable, proto_sqlite3session_indirect, proto_sqlite3session_attach,
     proto_sqlite3session_table_filter, proto_sqlite3session_changeset, proto_sqlite3session_diff,
     proto_sqlite3session_patchset, proto_sqlite3session_isempty, proto_sqlite3changeset_start,
     proto_sqlite3changeset_next, proto_sqlite3changeset_op, proto_sqlite3changeset_pk,
     proto_sqlite3changeset_old, proto_sqlite3changeset_new, proto_sqlite3changeset_conflict,
     proto_sqlite3changeset_fk_conflicts, proto_sqlite3changeset_finalize,
     proto_sqlite3changeset_invert, proto_sqlite3changeset_concat, proto_sqlite3changegroup_new,
     proto_sqlite3changegroup_add, proto_sqlite3changegroup_output, proto_sqlite3changegroup_delete,
     proto_sqlite3changeset_apply, proto_sqlite3changeset_apply_strm]"

lemmas proto_defs =
  proto_sqlite3_libversion_def proto_sqlite3_compileoption_used_def proto_sqlite3_threadsafe_def
  proto_sqlite3_close_def proto_sqlite3_exec_def proto_sqlite3_initialize_def
  proto_sqlite3_config_def proto_sqlite3_db_config_def proto_sqlite3_extended_result_codes_def
  proto_sqlite3_last_insert_rowid_def proto_sqlite3_changes_def proto_sqlite3_total_changes_def
  proto_sqlite3_interrupt_def proto_sqlite3_complete_def proto_sqlite3_busy_handler_def
  proto_sqlite3_busy_timeout_def proto_sqlite3_get_table_def proto_sqlite3_mprintf_def
  proto_sqlite3_malloc_def proto_sqlite3_memory_used_def proto_sqlite3_randomness_def
  proto_sqlite3_set_authorizer_def proto_sqlite3_trace_def proto_sqlite3_progress_handler_def
  proto_sqlite3_open_def proto_sqlite3_uri_parameter_def proto_sqlite3_errcode_def
  proto_sqlite3_limit_def proto_sqlite3_prepare_def proto_sqlite3_sql_def
  proto_sqlite3_stmt_readonly_def proto_sqlite3_stmt_busy_def proto_sqlite3_bind_blob_def
  proto_sqlite3_bind_parameter_count_def proto_sqlite3_bind_parameter_name_def
  proto_sqlite3_bind_parameter_index_def proto_sqlite3_clear_bindings_def
  proto_sqlite3_column_count_def proto_sqlite3_column_name_def
  proto_sqlite3_column_database_name_def proto_sqlite3_column_decltype_def proto_sqlite3_step_def
  proto_sqlite3_data_count_def proto_sqlite3_column_blob_def proto_sqlite3_finalize_def
  proto_sqlite3_reset_def proto_sqlite3_create_function_def proto_sqlite3_aggregate_count_def
  proto_sqlite3_value_blob_def proto_sqlite3_value_subtype_def proto_sqlite3_value_dup_def
  proto_sqlite3_aggregate_context_def proto_sqlite3_user_data_def
  proto_sqlite3_context_db_handle_def proto_sqlite3_get_auxdata_def proto_sqlite3_result_blob_def
  proto_sqlite3_result_subtype_def proto_sqlite3_create_collation_def
  proto_sqlite3_collation_needed_def proto_sqlite3_key_def proto_sqlite3_rekey_def
  proto_sqlite3_activate_see_def proto_sqlite3_activate_cerod_def proto_sqlite3_sleep_def
  proto_sqlite3_get_autocommit_def proto_sqlite3_db_handle_def proto_sqlite3_db_filename_def
  proto_sqlite3_db_readonly_def proto_sqlite3_next_stmt_def proto_sqlite3_commit_hook_def
  proto_sqlite3_update_hook_def proto_sqlite3_enable_shared_cache_def
  proto_sqlite3_release_memory_def proto_sqlite3_db_release_memory_def
  proto_sqlite3_soft_heap_limit64_def proto_sqlite3_soft_heap_limit_def
  proto_sqlite3_table_column_metadata_def proto_sqlite3_load_extension_def
  proto_sqlite3_enable_load_extension_def proto_sqlite3_auto_extension_def
  proto_sqlite3_cancel_auto_extension_def proto_sqlite3_reset_auto_extension_def
  proto_sqlite3_create_module_def proto_sqlite3_declare_vtab_def proto_sqlite3_overload_function_def
  proto_sqlite3_blob_open_def proto_sqlite3_blob_reopen_def proto_sqlite3_blob_close_def
  proto_sqlite3_blob_bytes_def proto_sqlite3_blob_read_def proto_sqlite3_blob_write_def
  proto_sqlite3_vfs_find_def proto_sqlite3_mutex_alloc_def proto_sqlite3_mutex_held_def
  proto_sqlite3_db_mutex_def proto_sqlite3_file_control_def proto_sqlite3_test_control_def
  proto_sqlite3_status_def proto_sqlite3_db_status_def proto_sqlite3_stmt_status_def
  proto_sqlite3_backup_init_def proto_sqlite3_unlock_notify_def proto_sqlite3_stricmp_def
  proto_sqlite3_strglob_def proto_sqlite3_strlike_def proto_sqlite3_log_def
  proto_sqlite3_wal_hook_def proto_sqlite3_wal_autocheckpoint_def proto_sqlite3_wal_checkpoint_def
  proto_sqlite3_wal_checkpoint_v2_def proto_sqlite3_vtab_config_def
  proto_sqlite3_vtab_on_conflict_def proto_sqlite3_stmt_scanstatus_def
  proto_sqlite3_stmt_scanstatus_reset_def proto_sqlite3_db_cacheflush_def
  proto_sqlite3_preupdate_hook_def proto_sqlite3_system_errno_def proto_sqlite3_snapshot_get_def
  proto_sqlite3_snapshot_open_def proto_sqlite3_snapshot_free_def proto_sqlite3_snapshot_cmp_def
  proto_sqlite3_rtree_geometry_callback_def proto_sqlite3_rtree_query_callback_def
  proto_sqlite3session_create_def proto_sqlite3session_delete_def proto_sqlite3session_enable_def
  proto_sqlite3session_indirect_def proto_sqlite3session_attach_def
  proto_sqlite3session_table_filter_def proto_sqlite3session_changeset_def
  proto_sqlite3session_diff_def proto_sqlite3session_patchset_def proto_sqlite3session_isempty_def
  proto_sqlite3changeset_start_def proto_sqlite3changeset_next_def proto_sqlite3changeset_op_def
  proto_sqlite3changeset_pk_def proto_sqlite3changeset_old_def proto_sqlite3changeset_new_def
  proto_sqlite3changeset_conflict_def proto_sqlite3changeset_fk_conflicts_def
  proto_sqlite3changeset_finalize_def proto_sqlite3changeset_invert_def
  proto_sqlite3changeset_concat_def proto_sqlite3changegroup_new_def
  proto_sqlite3changegroup_add_def proto_sqlite3changegroup_output_def
  proto_sqlite3changegroup_delete_def proto_sqlite3changeset_apply_def
  proto_sqlite3changeset_apply_strm_def


section \<open>Variants\<close>

text \<open>The function of the same group whose name with the suffix is \<open>p\<close>'s name.\<close>

definition base_of :: "string \<Rightarrow> prototype list \<Rightarrow> prototype \<Rightarrow> prototype option" where
  "base_of ending grp p = find (\<lambda>q. p_name q @ ending = p_name p) grp"

text \<open>Text in UTF-16 is passed as untyped bytes.\<close>

fun utf16 :: "ctype \<Rightarrow> ctype" where
  "utf16 CChar = CVoid"
| "utf16 CUChar = CVoid"
| "utf16 (CPtr t) = CPtr (utf16 t)"
| "utf16 (CFun r ps) = CFun (utf16 r) (map utf16 ps)"
| "utf16 t = t"

definition utf16_variant :: "prototype list \<Rightarrow> prototype \<Rightarrow> bool" where
  "utf16_variant grp p = (case base_of ''16'' grp p of None \<Rightarrow> True
     | Some q \<Rightarrow> p_result p = utf16 (p_result q) \<and> p_params p = map utf16 (p_params q)
         \<and> p_convention p = p_convention q)"

text \<open>A second version keeps the parameters and may add some.\<close>

definition v2_variant :: "prototype list \<Rightarrow> prototype \<Rightarrow> bool" where
  "v2_variant grp p = (case base_of ''_v2'' grp p of None \<Rightarrow> True
     | Some q \<Rightarrow> p_result p = p_result q \<and> subseq (p_params q) (p_params p)
         \<and> p_convention p = p_convention q)"

text \<open>
  A streaming version takes a function that delivers the bytes and its context in the place of a
  length and a pointer, and a function that takes bytes in the place of two output pointers.
\<close>

definition x_input :: ctype where
  "x_input = CPtr (CFun CInt [CPtr CVoid, CPtr CVoid, CPtr CInt])"

definition x_output :: ctype where
  "x_output = CPtr (CFun CInt [CPtr CVoid, CPtr CVoid, CInt])"

fun streamed :: "ctype list \<Rightarrow> ctype list" where
  "streamed (CInt # CPtr CVoid # ps) = x_input # CPtr CVoid # streamed ps"
| "streamed (CPtr CInt # CPtr (CPtr CVoid) # ps) = x_output # CPtr CVoid # streamed ps"
| "streamed (t # ps) = t # streamed ps"
| "streamed [] = []"

definition streaming_pairs :: "(prototype list \<times> string) list" where
  "streaming_pairs = [(proto_sqlite3changeset_apply, ''sqlite3changeset_apply''),
     (proto_sqlite3changeset_concat, ''sqlite3changeset_concat''),
     (proto_sqlite3changeset_invert, ''sqlite3changeset_invert''),
     (proto_sqlite3changeset_start, ''sqlite3changeset_start''),
     (proto_sqlite3session_changeset, ''sqlite3session_changeset''),
     (proto_sqlite3session_patchset, ''sqlite3session_patchset''),
     (proto_sqlite3changegroup_add, ''sqlite3changegroup_add''),
     (proto_sqlite3changegroup_output, ''sqlite3changegroup_output'')]"

definition streaming_variant :: "prototype list \<Rightarrow> string \<Rightarrow> bool" where
  "streaming_variant grp n = (case (find (\<lambda>p. p_name p = n) grp,
       find (\<lambda>p. p_name p = n @ ''_strm'') proto_sqlite3changeset_apply_strm) of
     (Some p, Some q) \<Rightarrow> p_result q = p_result p \<and> p_params q = streamed (p_params p)
   | _ \<Rightarrow> False)"

lemma conventions: "list_all (list_all (\<lambda>p. (p_convention p = Cdecl) = p_variadic p)) sqlite_functions"
  unfolding sqlite_functions_def proto_defs by simp

lemma utf16_variants: "list_all (\<lambda>grp. list_all (utf16_variant grp) grp) sqlite_functions"
  unfolding sqlite_functions_def proto_defs by (simp add: utf16_variant_def base_of_def)

lemma v2_variants: "list_all (\<lambda>grp. list_all (v2_variant grp) grp) sqlite_functions"
  unfolding sqlite_functions_def proto_defs by (simp add: v2_variant_def base_of_def)

lemma streaming_variants: "list_all (\<lambda>(grp, n). streaming_variant grp n) streaming_pairs"
  unfolding streaming_pairs_def proto_defs by (simp add: streaming_variant_def x_input_def x_output_def proto_defs)

definition variants :: "string \<Rightarrow> nat" where
  "variants ending = sum_list (map (\<lambda>grp. length (filter (\<lambda>p. base_of ending grp p \<noteq> None) grp)) sqlite_functions)"

lemma variants_16: "variants ''16'' = 19"
  unfolding variants_def sqlite_functions_def proto_defs by (simp add: base_of_def)

lemma variants_v2: "variants ''_v2'' = 9"
  unfolding variants_def sqlite_functions_def proto_defs by (simp add: base_of_def)

section \<open>Property\<close>

text \<open>The declarations fit together: the functions with a variable number of arguments, and no others,
  have the C calling convention; each of the nineteen UTF-16 functions has the signature of its
  UTF-8 one with untyped bytes for characters; each of the nine second versions keeps the
  parameters of the first in order; and the eight streaming functions of the session extension
  replace each buffer by a function and its context, and nothing else.\<close>

theorem function_variants:
  "list_all (list_all (\<lambda>p. (p_convention p = Cdecl) = p_variadic p)) sqlite_functions
   \<and> list_all (\<lambda>grp. list_all (utf16_variant grp) grp) sqlite_functions \<and> variants ''16'' = 19
   \<and> list_all (\<lambda>grp. list_all (v2_variant grp) grp) sqlite_functions \<and> variants ''_v2'' = 9
   \<and> list_all (\<lambda>(grp, n). streaming_variant grp n) streaming_pairs"
  by (intro conjI conventions utf16_variants variants_16 v2_variants variants_v2 streaming_variants)
end
