(* ===== verification/Server_Loop.thy ===== *)
theory Server_Loop
  imports Http_Server
begin

text \<open>
  What the servers do around a connection: configuration, \<open>start\<close> and \<open>stop\<close>, the loop of
  accepts, the timers armed for each operation on a socket, and for the HTTP servers the whole
  life of a socket from the accept to the last response. The four servers (\<^verbatim>\<open>server_http.hpp\<close>,
  \<^verbatim>\<open>server_https.hpp\<close>, \<^verbatim>\<open>server_ws.hpp\<close>, \<^verbatim>\<open>server_wss.hpp\<close>) differ in the handler of an accept; the
  locale \<open>accept_loop\<close> states what they share.
\<close>

section \<open>Configuration\<close>

record config =
  num_threads :: nat
  port :: "16 word"
  address :: string
  reuse_address :: bool

definition config_ctor :: "16 word \<Rightarrow> nat \<Rightarrow> config" where
  "config_ctor p n = \<lparr>num_threads = n, port = p, address = [], reuse_address = True\<rparr>"

section \<open>State\<close>

text \<open>
  Sockets are numbered in the order they are created. A socket's stage says which operation it
  waits for, in the end \<open>Done\<close>: none. A timer belongs to a socket; once its time is over its
  handler is queued, after which \<open>cancel\<close> has no effect on it.
\<close>

datatype acceptor = Acceptor_Closed | Listening string "16 word"

datatype stage = Unused | Accepting | Tls_Handshake | Reading_Request
  | Reading_Content request string | Writing_Response request string | Done

datatype timer_state = Armed | Queued

record server =
  cfg :: config
  timeout_request :: int
  timeout_content :: int
  stopped :: bool
  acceptor :: acceptor
  threads :: nat
  next_socket :: nat
  accepting :: "nat list"
  stage :: "nat \<Rightarrow> stage"
  is_open :: "nat \<Rightarrow> bool"
  timers :: "(nat \<times> int \<times> timer_state) list"

definition server_ctor :: "16 word \<Rightarrow> nat \<Rightarrow> int \<Rightarrow> int \<Rightarrow> server" where
  "server_ctor p n t_request t_content =
     \<lparr>cfg = config_ctor p n, timeout_request = t_request, timeout_content = t_content, stopped = False,
      acceptor = Acceptor_Closed, threads = 0, next_socket = 0, accepting = [],
      stage = (\<lambda>k. Unused), is_open = (\<lambda>k. False), timers = []\<rparr>"

section \<open>Timers\<close>

definition set_timeout :: "nat \<Rightarrow> int \<Rightarrow> 'a server_scheme \<Rightarrow> 'a server_scheme" where
  "set_timeout k seconds s = s\<lparr>timers := timers s @ [(k, seconds, Armed)]\<rparr>"

text \<open>Each operation cancels the timer it armed for its socket, guarded like its arming.\<close>

definition cancel_timer :: "nat \<Rightarrow> 'a server_scheme \<Rightarrow> 'a server_scheme" where
  "cancel_timer k s = s\<lparr>timers := filter (\<lambda>(j, sec, st). \<not> (j = k \<and> st = Armed)) (timers s)\<rparr>"

text \<open>The time of the \<open>i\<close>-th timer is over; then its handler runs and closes the socket.\<close>

definition timer_expires :: "nat \<Rightarrow> 'a server_scheme \<Rightarrow> 'a server_scheme" where
  "timer_expires i s =
     (if i < length (timers s)
      then (case timers s ! i of (k, sec, st) \<Rightarrow> s\<lparr>timers := (timers s)[i := (k, sec, Queued)]\<rparr>) else s)"

definition timeout_on_socket :: "nat \<Rightarrow> 'a server_scheme \<Rightarrow> 'a server_scheme" where
  "timeout_on_socket i s =
     (if i < length (timers s) then
        (case timers s ! i of (k, sec, st) \<Rightarrow>
           s\<lparr>timers := take i (timers s) @ drop (Suc i) (timers s), is_open := (is_open s)(k := False)\<rparr>)
      else s)"

text \<open>
  The WebSocket server's handler calls \<open>shutdown\<close> without an error code, so it throws when the
  peer is no longer connected.
\<close>

definition timeout_on_connection :: "bool \<Rightarrow> nat \<Rightarrow> 'a server_scheme \<Rightarrow> 'a server_scheme result" where
  "timeout_on_connection peer_connected i s =
     (if i < length (timers s) \<and> \<not> peer_connected then Inl System_Error else Inr (timeout_on_socket i s))"

section \<open>Accepting\<close>

text \<open>A new socket, and an \<open>async_accept\<close> into it.\<close>

definition new_accept :: "'a server_scheme \<Rightarrow> 'a server_scheme" where
  "new_accept s = s\<lparr>accepting := accepting s @ [next_socket s],
     stage := (stage s)(next_socket s := Accepting), next_socket := Suc (next_socket s)\<rparr>"

text \<open>The handler of an accept runs: its socket is no longer accepting, open unless it failed.\<close>

definition take_accept :: "bool \<Rightarrow> nat \<Rightarrow> 'a server_scheme \<Rightarrow> 'a server_scheme" where
  "take_accept ec k s = s\<lparr>accepting := remove1 k (accepting s), stage := (stage s)(k := Done),
     is_open := (is_open s)(k := \<not> ec)\<rparr>"

definition read_request_and_content :: "nat \<Rightarrow> 'a server_scheme \<Rightarrow> 'a server_scheme" where
  "read_request_and_content k s =
     (let s = (if 0 < timeout_request s then set_timeout k (timeout_request s) s else s)
      in s\<lparr>stage := (stage s)(k := Reading_Request)\<rparr>)"

definition read_handshake :: "nat \<Rightarrow> 'a server_scheme \<Rightarrow> 'a server_scheme" where
  "read_handshake k s =
     (let s = (if 0 < timeout_request s then set_timeout k (timeout_request s) s else s)
      in s\<lparr>stage := (stage s)(k := Reading_Request)\<rparr>)"

definition http_accept :: "'a server_scheme \<Rightarrow> 'a server_scheme" where
  "http_accept s = new_accept s"

text \<open>The handler: accept the next connection, set \<open>no_delay\<close>, which may throw, and read.\<close>

definition http_accepted :: "bool \<Rightarrow> bool \<Rightarrow> nat \<Rightarrow> 'a server_scheme \<Rightarrow> 'a server_scheme result" where
  "http_accepted ec option_ok k s =
     (let s = http_accept (take_accept ec k s)
      in if \<not> ec then
           (if option_ok then Inr (read_request_and_content k s) else Inl System_Error)
         else Inr s)"

definition tls_start :: "nat \<Rightarrow> 'a server_scheme \<Rightarrow> 'a server_scheme" where
  "tls_start k s =
     (let s = (if 0 < timeout_request s then set_timeout k (timeout_request s) s else s)
      in s\<lparr>stage := (stage s)(k := Tls_Handshake)\<rparr>)"

definition https_accepted :: "bool \<Rightarrow> bool \<Rightarrow> nat \<Rightarrow> 'a server_scheme \<Rightarrow> 'a server_scheme result" where
  "https_accepted ec option_ok k s =
     (let s = new_accept (take_accept ec k s)
      in if \<not> ec then (if option_ok then Inr (tls_start k s) else Inl System_Error) else Inr s)"

definition https_handshake_done :: "bool \<Rightarrow> nat \<Rightarrow> 'a server_scheme \<Rightarrow> 'a server_scheme" where
  "https_handshake_done ec k s =
     (let s = (if 0 < timeout_request s then cancel_timer k s else s)
      in if \<not> ec then read_request_and_content k s else s\<lparr>stage := (stage s)(k := Done)\<rparr>)"

definition ws_accepted :: "bool \<Rightarrow> bool \<Rightarrow> nat \<Rightarrow> 'a server_scheme \<Rightarrow> 'a server_scheme result" where
  "ws_accepted ec option_ok k s =
     (let s = new_accept (take_accept ec k s)
      in if \<not> ec then Inr (read_handshake k s) else Inr s)"

definition wss_accepted :: "bool \<Rightarrow> bool \<Rightarrow> nat \<Rightarrow> 'a server_scheme \<Rightarrow> 'a server_scheme result" where
  "wss_accepted ec option_ok k s =
     (let s = new_accept (take_accept ec k s)
      in if \<not> ec then Inr (tls_start k s) else Inr s)"

definition wss_handshake_done :: "bool \<Rightarrow> nat \<Rightarrow> 'a server_scheme \<Rightarrow> 'a server_scheme" where
  "wss_handshake_done ec k s =
     (let s = (if 0 < timeout_request s then cancel_timer k s else s)
      in if \<not> ec then read_handshake k s else s\<lparr>stage := (stage s)(k := Done)\<rparr>)"


section \<open>Start and stop\<close>

text \<open>The operating system and the resolver of addresses are parameters.\<close>

record net =
  parse_address :: "string \<Rightarrow> string option"
  can_bind :: "string \<Rightarrow> 16 word \<Rightarrow> bool \<Rightarrow> bool"

text \<open>Opening an acceptor that is open already throws, and so does a bind that fails.\<close>

definition listen :: "net \<Rightarrow> 'a server_scheme \<Rightarrow> 'a server_scheme result" where
  "listen N s =
     (let s = (if stopped s then s\<lparr>stopped := False\<rparr> else s)
      in bind_result
           (if 0 < length (address (cfg s))
            then (case parse_address N (address (cfg s)) of None \<Rightarrow> Inl System_Error | Some a \<Rightarrow> Inr a)
            else Inr ''0.0.0.0'')
           (\<lambda>a. if acceptor s \<noteq> Acceptor_Closed then Inl System_Error
                else if can_bind N a (port (cfg s)) (reuse_address (cfg s))
                then Inr (s\<lparr>acceptor := Listening a (port (cfg s))\<rparr>)
                else Inl System_Error))"

text \<open>One thread for each number from 1 below \<open>num_threads\<close>, besides the caller's own.\<close>

definition spawn_threads :: "'a server_scheme \<Rightarrow> 'a server_scheme" where
  "spawn_threads s = s\<lparr>threads := length [1..<num_threads (cfg s)]\<rparr>"

record 'f http_server = server +
  opt_resource :: "'f opt_resource"

definition http_start :: "net \<Rightarrow> 'f resource_table \<Rightarrow> 'f http_server \<Rightarrow> 'f http_server result" where
  "http_start N resource s =
     bind_result (listen N (s\<lparr>opt_resource := start_resources resource\<rparr>)) (\<lambda>s.
       Inr (spawn_threads (http_accept s)))"

definition http_stop :: "'a server_scheme \<Rightarrow> 'a server_scheme" where
  "http_stop s = s\<lparr>acceptor := Acceptor_Closed, stopped := True\<rparr>"

text \<open>
  The WebSocket server: its endpoints in the order of the map with their connections, and the
  copies of the patterns that \<open>start\<close> makes. The timeouts of its constructor are the same two.
\<close>

record ws_server = server +
  endpoint_table :: "(string \<times> nat set) list"
  opt_endpoint :: "string list"

definition ws_start :: "net \<Rightarrow> ws_server \<Rightarrow> ws_server result" where
  "ws_start N s =
     bind_result (listen N (s\<lparr>opt_endpoint := map fst (endpoint_table s)\<rparr>)) (\<lambda>s.
       Inr (spawn_threads (new_accept s)))"

definition ws_stop :: "ws_server \<Rightarrow> ws_server" where
  "ws_stop s = (let s = s\<lparr>acceptor := Acceptor_Closed, stopped := True\<rparr>
     in s\<lparr>endpoint_table := map (\<lambda>(pat, connections). (pat, {})) (endpoint_table s)\<rparr>)"

definition get_connections :: "'a ws_server_scheme \<Rightarrow> nat set" where
  "get_connections s = fold (\<lambda>(pat, connections) all. all \<union> connections) (endpoint_table s) {}"

section \<open>A socket of the HTTP server\<close>

text \<open>
  \<open>run\<close> runs a resource's handler and gives what it wrote to the response; whether it throws
  makes no difference, as the response is sent when its last reference goes.
\<close>

type_synonym 'f runner = "'f \<Rightarrow> request \<Rightarrow> captures option \<Rightarrow> string \<Rightarrow> string"

definition arm_content :: "nat \<Rightarrow> 'a server_scheme \<Rightarrow> 'a server_scheme" where
  "arm_content k s = (if 0 < timeout_content s then set_timeout k (timeout_content s) s else s)"

definition write_response :: "'f runner \<Rightarrow> 'f \<Rightarrow> request \<Rightarrow> captures option \<Rightarrow> string \<Rightarrow> nat \<Rightarrow> 'a server_scheme \<Rightarrow> 'a server_scheme" where
  "write_response run f rq sm content k s =
     (let s = arm_content k s
      in s\<lparr>stage := (stage s)(k := Writing_Response rq (run f rq sm content))\<rparr>)"

text \<open>A declared length: none, one that cannot be read, or a number.\<close>

definition declared_length :: "boost_lib \<Rightarrow> string \<Rightarrow> nat result option" where
  "declared_length L buffer =
     (case parse_request (istream_of buffer) request_ctor of
        Some (Inr (True, rq, st)) \<Rightarrow> map_option stoull (multimap_find L ''Content-Length'' (rq_header rq))
      | _ \<Rightarrow> None)"

text \<open>
  The handler of the request's read with its timers: one is armed as soon as a length is declared,
  and cancelled again if the content is there already, but not if the length cannot be read.
\<close>

definition http_request_read ::
  "boost_lib \<Rightarrow> 'f runner \<Rightarrow> 'f opt_resource \<Rightarrow> (string \<rightharpoonup> 'f) \<Rightarrow> bool \<Rightarrow> string \<Rightarrow> nat \<Rightarrow> nat
    \<Rightarrow> 'a server_scheme \<Rightarrow> 'a server_scheme result option"
where
  "http_request_read L run opt default_resource ec buffer bytes_transferred k s =
     (let s = (if 0 < timeout_request s then cancel_timer k s else s);
          len = (if ec then None else declared_length L buffer);
          t = (case len of None \<Rightarrow> s | Some n \<Rightarrow> arm_content k s);
          u = (case len of Some (Inr n) \<Rightarrow> (if 0 < timeout_content t then cancel_timer k t else t) | _ \<Rightarrow> t)
      in map_option (\<lambda>r. bind_result r (\<lambda>a. Inr (case a of
           Drop \<Rightarrow> u\<lparr>stage := (stage u)(k := Done)\<rparr>
         | Await_Content n rq buf \<Rightarrow> t\<lparr>stage := (stage t)(k := Reading_Content rq buf)\<rparr>
         | Respond f rq sm content \<Rightarrow> write_response run f rq sm content k u)))
         (request_read L opt default_resource ec buffer bytes_transferred))"

definition http_content_read ::
  "boost_lib \<Rightarrow> 'f runner \<Rightarrow> 'f opt_resource \<Rightarrow> (string \<rightharpoonup> 'f) \<Rightarrow> bool \<Rightarrow> string \<Rightarrow> nat
    \<Rightarrow> 'a server_scheme \<Rightarrow> 'a server_scheme"
where
  "http_content_read L run opt default_resource ec bytes k s =
     (let s = (if 0 < timeout_content s then cancel_timer k s else s)
      in case stage s k of
           Reading_Content rq buffer \<Rightarrow>
             (case content_read L opt default_resource ec rq buffer bytes of
                Respond f rq sm content \<Rightarrow> write_response run f rq sm content k s
              | _ \<Rightarrow> s\<lparr>stage := (stage s)(k := Done)\<rparr>)
         | _ \<Rightarrow> s)"

text \<open>The handler of the response's write.\<close>

definition response_written :: "boost_lib \<Rightarrow> (string \<Rightarrow> rat result) \<Rightarrow> bool \<Rightarrow> nat \<Rightarrow> 'a server_scheme \<Rightarrow> 'a server_scheme" where
  "response_written L stof ec k s =
     (let s' = (if \<not> ec \<and> 0 < timeout_content s then cancel_timer k s else s)
      in case stage s k of
           Writing_Response rq text \<Rightarrow>
             if keep_alive L stof ec rq then read_request_and_content k s'
             else s'\<lparr>stage := (stage s')(k := Done)\<rparr>
         | _ \<Rightarrow> s)"

text \<open>
  One step of the server while it runs: an accept, a timer, or the end of an operation on a
  socket. An operation on a socket that a timer has closed ends with an error.
\<close>

inductive http_step ::
  "boost_lib \<Rightarrow> 'f runner \<Rightarrow> (string \<Rightarrow> rat result) \<Rightarrow> (string \<rightharpoonup> 'f) \<Rightarrow> 'f http_server \<Rightarrow> 'f http_server \<Rightarrow> bool"
  for L run stof dflt
where
  hs_accept: "k \<in> set (accepting s) \<Longrightarrow> http_accepted ec ok k s = Inr s' \<Longrightarrow> http_step L run stof dflt s s'"
| hs_expire: "http_step L run stof dflt s (timer_expires i s)"
| hs_timeout: "i < length (timers s) \<Longrightarrow> timers s ! i = (k, sec, Queued) \<Longrightarrow>
    http_step L run stof dflt s (timeout_on_socket i s)"
| hs_request: "stage s k = Reading_Request \<Longrightarrow> is_open s k \<or> ec \<Longrightarrow>
    http_request_read L run (opt_resource s) dflt ec buffer n k s = Some (Inr s') \<Longrightarrow> http_step L run stof dflt s s'"
| hs_content: "stage s k = Reading_Content rq buf \<Longrightarrow> is_open s k \<or> ec \<Longrightarrow>
    http_step L run stof dflt s (http_content_read L run (opt_resource s) dflt ec bytes k s)"
| hs_written: "stage s k = Writing_Response rq text \<Longrightarrow> is_open s k \<or> ec \<Longrightarrow>
    http_step L run stof dflt s (response_written L stof ec k s)"

inductive http_runs ::
  "boost_lib \<Rightarrow> 'f runner \<Rightarrow> (string \<Rightarrow> rat result) \<Rightarrow> (string \<rightharpoonup> 'f) \<Rightarrow> 'f http_server \<Rightarrow> 'f http_server \<Rightarrow> bool"
  for L run stof dflt s
where
  hr_start: "http_runs L run stof dflt s s"
| hr_step: "http_runs L run stof dflt s t \<Longrightarrow> http_step L run stof dflt t u \<Longrightarrow> http_runs L run stof dflt s u"

section \<open>One accept pending, and a timer for each wait\<close>

definition has_timer_on :: "nat \<Rightarrow> 'a server_scheme \<Rightarrow> bool" where
  "has_timer_on k s \<longleftrightarrow> (\<exists>e \<in> set (timers s). fst e = k)"

text \<open>The operations that are limited in time, if the server has the timeout.\<close>

fun limited :: "int \<Rightarrow> int \<Rightarrow> stage \<Rightarrow> bool" where
  "limited t_request t_content Tls_Handshake = (0 < t_request)"
| "limited t_request t_content Reading_Request = (0 < t_request)"
| "limited t_request t_content (Reading_Content rq buf) = (0 < t_content)"
| "limited t_request t_content (Writing_Response rq text) = (0 < t_content)"
| "limited t_request t_content _ = False"

definition timed :: "nat \<Rightarrow> 'a server_scheme \<Rightarrow> bool" where
  "timed k s \<longleftrightarrow> limited (timeout_request s) (timeout_content s) (stage s k)"

definition timers_ok :: "'a server_scheme \<Rightarrow> bool" where
  "timers_ok s \<longleftrightarrow> (\<forall>k. timed k s \<and> is_open s k \<longrightarrow> has_timer_on k s)"

text \<open>A step for socket \<open>k\<close> leaves the other sockets alone and does not open one.\<close>

definition only_socket :: "nat \<Rightarrow> 'a server_scheme \<Rightarrow> 'a server_scheme \<Rightarrow> bool" where
  "only_socket k s s' \<longleftrightarrow> timeout_request s' = timeout_request s \<and> timeout_content s' = timeout_content s
     \<and> accepting s' = accepting s \<and> next_socket s' = next_socket s
     \<and> (\<forall>j. j \<noteq> k \<longrightarrow> stage s' j = stage s j \<and> is_open s' j = is_open s j
          \<and> (has_timer_on j s \<longrightarrow> has_timer_on j s'))"

lemma only_socket_refl [simp]: "only_socket k s s"
  by (simp add: only_socket_def)

lemma only_socket_trans: "only_socket k s t \<Longrightarrow> only_socket k t u \<Longrightarrow> only_socket k s u"
  by (simp add: only_socket_def)

lemma timers_ok_only: "timers_ok s \<Longrightarrow> only_socket k s s' \<Longrightarrow> (timed k s' \<Longrightarrow> has_timer_on k s') \<Longrightarrow> timers_ok s'"
  unfolding timers_ok_def only_socket_def timed_def by metis

lemma only_set_timeout [simp]: "only_socket k s (set_timeout k sec s)"
  by (simp add: only_socket_def set_timeout_def has_timer_on_def)

lemma only_cancel_timer [simp]: "only_socket k s (cancel_timer k s)"
  by (fastforce simp: only_socket_def cancel_timer_def has_timer_on_def)

lemma only_stage: "only_socket k s t \<Longrightarrow> only_socket k s (t\<lparr>stage := (stage t)(k := st)\<rparr>)"
  by (simp add: only_socket_def has_timer_on_def)

lemma only_arm_content [simp]: "only_socket k s (arm_content k s)"
  by (simp add: arm_content_def)

lemma has_set_timeout [simp]: "has_timer_on k (set_timeout k sec s)"
  by (simp add: has_timer_on_def set_timeout_def)

lemma has_timer_stage [simp]: "has_timer_on k (s\<lparr>stage := st\<rparr>) = has_timer_on k s"
  by (simp add: has_timer_on_def)

lemma timed_stage [simp]: "timed k (s\<lparr>stage := (stage s)(k := st)\<rparr>) = limited (timeout_request s) (timeout_content s) st"
  by (simp add: timed_def)

lemma set_timeout_fields [simp]: "timeout_request (set_timeout k sec s) = timeout_request s"
  "timeout_content (set_timeout k sec s) = timeout_content s"
  by (simp_all add: set_timeout_def)

text \<open>What starts a wait: only its socket is changed, and a timer is there if there is a timeout.\<close>

definition starts_wait :: "nat \<Rightarrow> 'a server_scheme \<Rightarrow> 'a server_scheme \<Rightarrow> bool" where
  "starts_wait k s s' \<longleftrightarrow> only_socket k s s' \<and> (timed k s' \<longrightarrow> has_timer_on k s')"

lemma starts_wait_ok: "starts_wait k s s' \<Longrightarrow> timers_ok s \<Longrightarrow> timers_ok s'"
  unfolding starts_wait_def using timers_ok_only by blast

lemma starts_after: "only_socket k s t \<Longrightarrow> starts_wait k t u \<Longrightarrow> starts_wait k s u"
  unfolding starts_wait_def using only_socket_trans by blast

lemma starts_read: "starts_wait k s (read_request_and_content k s)"
  by (simp add: starts_wait_def read_request_and_content_def only_stage Let_def)

lemma starts_handshake: "starts_wait k s (read_handshake k s)"
  using starts_read[of k s] by (simp add: read_handshake_def read_request_and_content_def)

lemma starts_tls: "starts_wait k s (tls_start k s)"
  by (simp add: starts_wait_def tls_start_def only_stage Let_def)

lemma starts_done: "starts_wait k s (s\<lparr>stage := (stage s)(k := Done)\<rparr>)"
  by (simp add: starts_wait_def only_stage)

lemma arm_content_fields [simp]: "timeout_content (arm_content k s) = timeout_content s"
  "0 < timeout_content s \<Longrightarrow> has_timer_on k (arm_content k s)"
  by (simp_all add: arm_content_def set_timeout_def has_timer_on_def)

lemma starts_content: "starts_wait k s ((arm_content k s)\<lparr>stage := (stage (arm_content k s))(k := Reading_Content rq buf)\<rparr>)"
  by (simp add: starts_wait_def only_stage)

lemma starts_response: "starts_wait k s (write_response run f rq sm content k s)"
  by (simp add: starts_wait_def write_response_def only_stage Let_def)

section \<open>The interface of an accept loop\<close>

text \<open>
  What the servers promise of the handler of an accept: it puts the next socket in the place of the
  accepted one, and starts at most a wait that is limited in time.
\<close>

locale accept_loop =
  fixes accepted :: "bool \<Rightarrow> bool \<Rightarrow> nat \<Rightarrow> 'a server_scheme \<Rightarrow> 'a server_scheme result"
  assumes accepted_waits: "accepted ec ok k s = Inr s' \<Longrightarrow> starts_wait k (new_accept (take_accept ec k s)) s'"

text \<open>The sockets accepting are the last one created, and only it.\<close>

definition one_accept :: "'a server_scheme \<Rightarrow> bool" where
  "one_accept s \<longleftrightarrow> (\<exists>k. next_socket s = Suc k \<and> accepting s = [k] \<and> stage s k = Accepting)"

text \<open>The accepts of a run, each with its error flag and whether the socket's option can be set.\<close>

fun accept_all ::
  "(bool \<Rightarrow> bool \<Rightarrow> nat \<Rightarrow> 'a server_scheme \<Rightarrow> 'a server_scheme result) \<Rightarrow> (bool \<times> bool) list
    \<Rightarrow> 'a server_scheme \<Rightarrow> 'a server_scheme result"
where
  "accept_all accepted [] s = Inr s"
| "accept_all accepted ((ec, ok) # es) s =
     bind_result (accepted ec ok (hd (accepting s)) s) (accept_all accepted es)"

lemma only_socket_fields:
  assumes "only_socket k s s'"
  shows "accepting s' = accepting s" "next_socket s' = next_socket s" "j \<noteq> k \<Longrightarrow> stage s' j = stage s j"
  using assms by (simp_all add: only_socket_def)

lemma timers_ok_accept: "timers_ok s \<Longrightarrow> timers_ok (new_accept (take_accept ec k s))"
  by (auto simp: timers_ok_def timed_def has_timer_on_def new_accept_def take_accept_def)

lemma one_accept_only:
  "one_accept s \<Longrightarrow> only_socket j s s' \<Longrightarrow> j \<notin> set (accepting s) \<Longrightarrow> one_accept s'"
  by (auto simp: one_accept_def only_socket_def)

context accept_loop
begin

lemma accepted_ok:
  assumes "one_accept s" "timers_ok s" "k \<in> set (accepting s)" "accepted ec ok k s = Inr s'"
  shows "one_accept s' \<and> timers_ok s' \<and> next_socket s' = Suc (next_socket s)"
proof -
  let ?t = "new_accept (take_accept ec k s)"
  have k: "accepting s = [k]" "next_socket s = Suc k" using assms(1,3) by (auto simp: one_accept_def)
  then have t: "accepting ?t = [Suc k]" "next_socket ?t = Suc (Suc k)" "stage ?t (Suc k) = Accepting"
    by (simp_all add: new_accept_def take_accept_def)
  have w: "starts_wait k ?t s'" by (rule accepted_waits[OF assms(4)])
  then have o: "only_socket k ?t s'" by (simp add: starts_wait_def)
  from only_socket_fields[OF o] t k(2) have "one_accept s' \<and> next_socket s' = Suc (next_socket s)"
    by (simp add: one_accept_def)
  moreover have "timers_ok s'" using starts_wait_ok[OF w timers_ok_accept[OF assms(2)]] .
  ultimately show ?thesis by blast
qed

lemma accept_all_ok:
  "one_accept s \<Longrightarrow> timers_ok s \<Longrightarrow> accept_all accepted es s = Inr s' \<Longrightarrow>
   one_accept s' \<and> timers_ok s' \<and> next_socket s' = next_socket s + length es"
proof (induction es arbitrary: s)
  case (Cons e es)
  obtain ec ok where e: "e = (ec, ok)" by force
  from Cons.prems(3) e obtain t where t: "accepted ec ok (hd (accepting s)) s = Inr t" "accept_all accepted es t = Inr s'"
    by (auto simp: bind_result_eq_Inr)
  have "hd (accepting s) \<in> set (accepting s)" using Cons.prems(1) by (auto simp: one_accept_def)
  from accepted_ok[OF Cons.prems(1,2) this t(1)] Cons.IH[OF _ _ t(2)] show ?case by auto
qed simp

end

lemma taken_waits: "starts_wait k (new_accept (take_accept ec k s)) (new_accept (take_accept ec k s))"
  by (simp add: starts_wait_def timed_def take_accept_def new_accept_def)

interpretation http: accept_loop http_accepted
  by standard (use starts_read taken_waits in \<open>auto simp: http_accepted_def http_accept_def Let_def split: if_splits\<close>)

interpretation https: accept_loop https_accepted
  by standard (use starts_tls taken_waits in \<open>auto simp: https_accepted_def Let_def split: if_splits\<close>)

interpretation ws: accept_loop ws_accepted
  by standard (use starts_handshake taken_waits in \<open>auto simp: ws_accepted_def Let_def split: if_splits\<close>)

interpretation wss: accept_loop wss_accepted
  by standard (use starts_tls taken_waits in \<open>auto simp: wss_accepted_def Let_def split: if_splits\<close>)

section \<open>The encrypted servers\<close>

text \<open>Their constructors load the files of the TLS context, which is a parameter; a failure throws.\<close>

record tls =
  use_certificate_chain_file :: "string \<Rightarrow> bool"
  use_private_key_file :: "string \<Rightarrow> bool"
  load_verify_file :: "string \<Rightarrow> bool"

definition https_server_ctor ::
  "tls \<Rightarrow> 16 word \<Rightarrow> nat \<Rightarrow> string \<Rightarrow> string \<Rightarrow> int \<Rightarrow> int \<Rightarrow> string \<Rightarrow> server result"
where
  "https_server_ctor C p n cert_file private_key_file t_request t_content verify_file =
     (let s = server_ctor p n t_request t_content in
      if \<not> use_certificate_chain_file C cert_file then Inl System_Error
      else if \<not> use_private_key_file C private_key_file then Inl System_Error
      else if 0 < length verify_file \<and> \<not> load_verify_file C verify_file then Inl System_Error
      else Inr s)"

definition wss_server_ctor ::
  "tls \<Rightarrow> 16 word \<Rightarrow> nat \<Rightarrow> string \<Rightarrow> string \<Rightarrow> int \<Rightarrow> int \<Rightarrow> string \<Rightarrow> server result"
where
  "wss_server_ctor C p n cert_file private_key_file t_request t_idle verify_file =
     (let s = server_ctor p n t_request t_idle in
      if \<not> use_certificate_chain_file C cert_file then Inl System_Error
      else if \<not> use_private_key_file C private_key_file then Inl System_Error
      else if 0 < length verify_file \<and> \<not> load_verify_file C verify_file then Inl System_Error
      else Inr s)"

section \<open>The steps of the HTTP server\<close>

lemma await_declared:
  "request_read L opt dflt ec buffer n = Some (Inr (Await_Content m rq buf)) \<Longrightarrow> \<not> ec \<and> declared_length L buffer \<noteq> None"
  by (auto simp: request_read_def declared_length_def Let_def dispatch_def bind_result_eq_Inr
      split: if_splits option.splits sum.splits)

lemma read_waits:
  "http_request_read L run opt dflt ec buffer n k s = Some (Inr s') \<Longrightarrow> starts_wait k s s'"
proof -
  assume r: "http_request_read L run opt dflt ec buffer n k s = Some (Inr s')"
  define t0 where "t0 = (if 0 < timeout_request s then cancel_timer k s else s)"
  define len where "len = (if ec then None else declared_length L buffer)"
  define t where "t = (case len of None \<Rightarrow> t0 | Some n \<Rightarrow> arm_content k t0)"
  define u where "u = (case len of Some (Inr n) \<Rightarrow> (if 0 < timeout_content t then cancel_timer k t else t) | _ \<Rightarrow> t)"
  have o: "only_socket k s t0" "only_socket k t0 t" "only_socket k t u"
    by (simp_all add: t0_def t_def u_def split: option.splits sum.splits)
  then have su: "only_socket k s t" "only_socket k s u" using only_socket_trans by blast+
  obtain a where a: "request_read L opt dflt ec buffer n = Some (Inr a)"
    and s': "s' = (case a of
           Drop \<Rightarrow> u\<lparr>stage := (stage u)(k := Done)\<rparr>
         | Await_Content n rq buf \<Rightarrow> t\<lparr>stage := (stage t)(k := Reading_Content rq buf)\<rparr>
         | Respond f rq sm content \<Rightarrow> write_response run f rq sm content k u)"
    using r unfolding http_request_read_def Let_def t0_def[symmetric] len_def[symmetric] t_def[symmetric] u_def[symmetric]
    by (auto simp: bind_result_eq_Inr)
  show ?thesis
  proof (cases a)
    case (Await_Content m rq buf)
    have "len \<noteq> None" using await_declared[of L opt dflt ec buffer n m rq buf] a Await_Content by (simp add: len_def)
    then have "t = arm_content k t0" by (auto simp: t_def)
    then have "starts_wait k t0 s'" using s' Await_Content starts_content by simp
    with o(1) show ?thesis by (rule starts_after)
  next
    case Drop
    with s' show ?thesis using starts_after[OF su(2) starts_done] by simp
  next
    case (Respond f rq sm content)
    with s' show ?thesis using starts_after[OF su(2) starts_response] by simp
  qed
qed

lemma content_waits:
  assumes "stage s k = Reading_Content rq buf"
  shows "starts_wait k s (http_content_read L run opt dflt ec bytes k s)"
proof -
  define t where "t = (if 0 < timeout_content s then cancel_timer k s else s)"
  have o: "only_socket k s t" by (simp add: t_def)
  have st: "stage t k = Reading_Content rq buf" using assms by (simp add: t_def cancel_timer_def)
  show ?thesis
    unfolding http_content_read_def Let_def t_def[symmetric] st stage.case
    by (simp add: starts_after[OF o starts_done] starts_after[OF o starts_response] split: action.splits)
qed

lemma written_waits:
  assumes "stage s k = Writing_Response rq text"
  shows "starts_wait k s (response_written L stof ec k s)"
proof -
  define t where "t = (if \<not> ec \<and> 0 < timeout_content s then cancel_timer k s else s)"
  have o: "only_socket k s t" by (simp add: t_def)
  show ?thesis
    unfolding response_written_def Let_def t_def[symmetric] assms stage.case
    using starts_after[OF o starts_done] starts_after[OF o starts_read] by simp
qed

lemma expire_ok: "timers_ok s \<Longrightarrow> timers_ok (timer_expires i s) \<and> (one_accept s \<longrightarrow> one_accept (timer_expires i s))"
proof (cases "i < length (timers s)")
  case True
  assume ok: "timers_ok s"
  obtain k sec st where e: "timers s ! i = (k, sec, st)" by (cases "timers s ! i") auto
  then have s': "timer_expires i s = s\<lparr>timers := (timers s)[i := (k, sec, Queued)]\<rparr>"
    using True by (simp add: timer_expires_def)
  have "has_timer_on j (timer_expires i s)" if "has_timer_on j s" for j
  proof -
    from that obtain n where n: "n < length (timers s)" "fst (timers s ! n) = j"
      by (auto simp: has_timer_on_def in_set_conv_nth)
    then have "fst ((timers s)[i := (k, sec, Queued)] ! n) = j" using e by (cases "n = i") auto
    moreover have "(timers s)[i := (k, sec, Queued)] ! n \<in> set ((timers s)[i := (k, sec, Queued)])"
      using n(1) by (intro nth_mem) simp
    ultimately show ?thesis unfolding s' has_timer_on_def by auto
  qed
  with ok show ?thesis by (auto simp: timers_ok_def timed_def one_accept_def s')
qed (simp add: timer_expires_def)

lemma timeout_ok:
  assumes "timers_ok s" "i < length (timers s)"
  shows "timers_ok (timeout_on_socket i s) \<and> (one_accept s \<longrightarrow> one_accept (timeout_on_socket i s))"
proof -
  obtain k sec st where e: "timers s ! i = (k, sec, st)" by (cases "timers s ! i") auto
  let ?ts = "take i (timers s) @ drop (Suc i) (timers s)"
  have s': "timeout_on_socket i s = s\<lparr>timers := ?ts, is_open := (is_open s)(k := False)\<rparr>"
    using assms(2) e by (simp add: timeout_on_socket_def)
  have "timers s = take i (timers s) @ (k, sec, st) # drop (Suc i) (timers s)"
    using id_take_nth_drop[OF assms(2)] e by simp
  then have "set (timers s) = insert (k, sec, st) (set ?ts)" by (metis Un_insert_right list.simps(15) set_append)
  then have "j \<noteq> k \<Longrightarrow> has_timer_on j s \<Longrightarrow> \<exists>e \<in> set ?ts. fst e = j" for j by (auto simp: has_timer_on_def)
  with assms(1) show ?thesis
    by (auto simp: timers_ok_def timed_def has_timer_on_def one_accept_def s')
qed

definition loop_inv :: "'a server_scheme \<Rightarrow> bool" where
  "loop_inv s \<longleftrightarrow> one_accept s \<and> timers_ok s"

lemma loop_inv_wait:
  assumes "loop_inv s" "starts_wait k s s'" "stage s k \<noteq> Accepting"
  shows "loop_inv s'"
proof -
  have "k \<notin> set (accepting s)" using assms(1,3) by (auto simp: loop_inv_def one_accept_def)
  moreover have "only_socket k s s'" using assms(2) by (simp add: starts_wait_def)
  ultimately have "one_accept s'" using one_accept_only assms(1) unfolding loop_inv_def by blast
  with assms(1,2) show ?thesis by (simp add: loop_inv_def starts_wait_ok)
qed

lemma http_step_inv: "http_step L run stof dflt s s' \<Longrightarrow> loop_inv s \<Longrightarrow> loop_inv s'"
proof (induction rule: http_step.induct)
  case (hs_accept k s ec ok s')
  then show ?case using http.accepted_ok[of s k ec ok s'] by (simp add: loop_inv_def)
next
  case (hs_expire s i)
  then show ?case using expire_ok by (auto simp: loop_inv_def)
next
  case (hs_timeout i s k sec)
  then show ?case using timeout_ok by (auto simp: loop_inv_def)
next
  case (hs_request s k ec buffer n s')
  show ?case by (rule loop_inv_wait[OF _ read_waits[OF hs_request(3)]]) (use hs_request in simp_all)
next
  case (hs_content s k rq buf ec bytes)
  show ?case by (rule loop_inv_wait[OF _ content_waits[OF hs_content(1)]]) (use hs_content in simp_all)
next
  case (hs_written s k rq w ec)
  show ?case by (rule loop_inv_wait[OF _ written_waits[OF hs_written(1)]]) (use hs_written in simp_all)
qed

lemma http_runs_inv: "http_runs L run stof dflt s t \<Longrightarrow> loop_inv s \<Longrightarrow> loop_inv t"
  by (induction rule: http_runs.induct) (auto intro: http_step_inv)

text \<open>The server as constructed, with its default timeouts of 5 and 300 seconds.\<close>

definition http_server_ctor :: "16 word \<Rightarrow> nat \<Rightarrow> 'f http_server" where
  "http_server_ctor p n = server.extend (server_ctor p n 5 300) \<lparr>opt_resource = []\<rparr>"

lemma http_start_inv:
  assumes "http_start N resource (http_server_ctor p n) = Inr s"
  shows "loop_inv s"
proof -
  obtain t where t: "listen N (http_server_ctor p n\<lparr>opt_resource := start_resources resource\<rparr>) = Inr t"
    "s = spawn_threads (http_accept t)"
    using assms by (auto simp: http_start_def bind_result_eq_Inr)
  from t(1) have "next_socket t = 0" "accepting t = []" "is_open t = (\<lambda>k. False)"
    by (auto simp: listen_def Let_def bind_result_eq_Inr http_server_ctor_def server_ctor_def server.defs
        split: if_splits)
  then show ?thesis
    unfolding t(2) loop_inv_def
    by (simp add: one_accept_def timers_ok_def spawn_threads_def http_accept_def new_accept_def)
qed

section \<open>Properties\<close>

text \<open>C9: However accepts, reads, writes and expiring timers interleave after the HTTP server has started,
  exactly one accept is pending, and every open socket the server waits on, for the rest of a
  request or for a response to be taken, has a timer that will close it. Besides the caller's
  thread there are as many as configured less one.\<close>

theorem http_loop_safe:
  assumes "http_start N resource (http_server_ctor p n) = Inr s" "http_runs L run stof dflt s t"
  shows "(\<exists>k. accepting t = [k] \<and> stage t k = Accepting)
    \<and> (\<nexists>k. timed k t \<and> is_open t k \<and> \<not> has_timer_on k t) \<and> threads s = n - 1"
proof -
  have "loop_inv t" using http_runs_inv[OF assms(2) http_start_inv[OF assms(1)]] .
  moreover obtain u where u: "listen N (http_server_ctor p n\<lparr>opt_resource := start_resources resource\<rparr>) = Inr u"
    "s = spawn_threads (http_accept u)"
    using assms(1) by (auto simp: http_start_def bind_result_eq_Inr)
  from u(1) have "cfg u = config_ctor p n"
    by (auto simp: listen_def Let_def bind_result_eq_Inr http_server_ctor_def server_ctor_def server.defs
        split: if_splits)
  then have "threads s = n - 1"
    unfolding u(2) by (simp add: spawn_threads_def http_accept_def new_accept_def config_ctor_def)
  ultimately show ?thesis by (auto simp: loop_inv_def one_accept_def timers_ok_def)
qed

definition demo_net :: net where
  "demo_net = \<lparr>parse_address = Some, can_bind = (\<lambda>a p r. True)\<rparr>"

definition demo_server :: "nat http_server" where
  "demo_server = (http_server_ctor 8080 1 :: nat http_server)\<lparr>
     opt_resource := start_resources demo_table, acceptor := Listening ''0.0.0.0'' 8080,
     accepting := [0], stage := (\<lambda>k. Unused)(0 := Accepting), next_socket := 1\<rparr>"

lemma demo_started: "http_start demo_net demo_table (http_server_ctor 8080 1) = Inr demo_server"
  by (simp add: http_start_def listen_def demo_net_def http_server_ctor_def server_ctor_def server.defs
      config_ctor_def spawn_threads_def http_accept_def new_accept_def demo_server_def)

definition demo_accepted :: "nat http_server" where
  "demo_accepted = read_request_and_content 0 (http_accept (take_accept False 0 demo_server))"

lemma demo_accept_step:
  "http_runs L run stof dflt demo_server demo_accepted"
proof (rule hr_step[OF hr_start])
  have a: "http_accepted False True 0 demo_server = Inr demo_accepted"
    by (simp add: http_accepted_def demo_accepted_def)
  show "http_step L run stof dflt demo_server demo_accepted"
    by (rule hs_accept[OF _ a]) (simp add: demo_server_def)
qed

theorem http_loop_safe_witness:
  "(\<exists>k. accepting demo_accepted = [k] \<and> stage demo_accepted k = Accepting)
   \<and> (\<nexists>k. timed k demo_accepted \<and> is_open demo_accepted k \<and> \<not> has_timer_on k demo_accepted)
   \<and> timed 0 demo_accepted \<and> is_open demo_accepted 0"
proof -
  have "timed 0 demo_accepted" "is_open demo_accepted 0"
    by (simp_all add: demo_accepted_def demo_server_def read_request_and_content_def take_accept_def
        http_accept_def new_accept_def set_timeout_def timed_def http_server_ctor_def server_ctor_def server.defs)
  with http_loop_safe[OF demo_started demo_accept_step[of ref_boost "\<lambda>f rq sm c. []" "\<lambda>s. Inl Invalid_Argument" Map.empty]]
  show ?thesis by blast
qed

text \<open>Each of the four servers keeps its accept loop going: however the accepts turn out, as long as
  none throws, the next socket is accepting after each, no other is, and the accepted ones have
  their timers. The accepts of the two WebSocket servers never throw.\<close>

theorem accept_loops:
  assumes "one_accept s" "timers_ok s"
    and "accept \<in> {http_accepted, https_accepted, ws_accepted, wss_accepted}"
  shows "case accept_all accept es s of
      Inr s' \<Rightarrow> one_accept s' \<and> timers_ok s' \<and> next_socket s' = next_socket s + length es
    | Inl f \<Rightarrow> f = System_Error \<and> accept \<noteq> ws_accepted \<and> accept \<noteq> wss_accepted"
proof (cases "accept_all accept es s")
  case (Inr s')
  with assms http.accept_all_ok[of s es s'] https.accept_all_ok[of s es s'] ws.accept_all_ok[of s es s']
    wss.accept_all_ok[of s es s'] show ?thesis by auto
next
  case (Inl f)
  have "accept_all accept es s = Inl f \<Longrightarrow> f = System_Error"
    by (induction es arbitrary: s)
      (use assms(3) in \<open>auto simp: bind_result_def http_accepted_def https_accepted_def ws_accepted_def
        wss_accepted_def Let_def split: if_splits sum.splits\<close>)
  moreover have "\<exists>s'. accept_all ws_accepted es s = Inr s'" "\<exists>s'. accept_all wss_accepted es s = Inr s'"
    by (induction es arbitrary: s) (auto simp: ws_accepted_def wss_accepted_def Let_def)
  ultimately show ?thesis using Inl by auto
qed

theorem accept_loops_witness:
  "one_accept demo_server \<and> (case accept_all wss_accepted [(False, True), (True, True)] demo_server of
      Inr s' \<Rightarrow> one_accept s' \<and> next_socket s' = 3 | Inl f \<Rightarrow> False)"
proof -
  have ok: "one_accept demo_server" "timers_ok demo_server"
    using http_start_inv[OF demo_started] by (simp_all add: loop_inv_def)
  have "next_socket demo_server = 1" by (simp add: demo_server_def)
  with ok(1) accept_loops[OF ok, of wss_accepted "[(False, True), (True, True)]"] show ?thesis
    by (auto split: sum.splits)
qed

text \<open>Stopping the server and starting it again leaves two accepts under way: the handler of the old
  one, aborted by the closing of the acceptor, is still queued and accepts anew when it runs.\<close>

theorem restart_doubles_accept:
  assumes "http_start N resource (http_server_ctor p n) = Inr s" "http_runs L run stof dflt s t"
    and "http_start N resource (http_stop t) = Inr u"
  shows "length (accepting u) = 2"
proof -
  obtain k where k: "accepting t = [k]"
    using http_runs_inv[OF assms(2) http_start_inv[OF assms(1)]] by (auto simp: loop_inv_def one_accept_def)
  obtain v where v: "listen N ((http_stop t)\<lparr>opt_resource := start_resources resource\<rparr>) = Inr v"
    "u = spawn_threads (http_accept v)"
    using assms(3) by (auto simp: http_start_def bind_result_eq_Inr)
  from v(1) k have "accepting v = [k]"
    by (auto simp: listen_def Let_def bind_result_eq_Inr http_stop_def split: if_splits)
  then show ?thesis unfolding v(2) by (simp add: spawn_threads_def http_accept_def new_accept_def)
qed

theorem restart_doubles_accept_witness:
  "\<exists>u. http_start demo_net demo_table (http_stop demo_server) = Inr u \<and> length (accepting u) = 2"
proof -
  have "\<exists>u. http_start demo_net demo_table (http_stop demo_server) = Inr u"
    by (simp add: http_start_def listen_def demo_net_def http_stop_def demo_server_def http_server_ctor_def
        server_ctor_def server.defs config_ctor_def)
  then show ?thesis using restart_doubles_accept[OF demo_started hr_start] by blast
qed

text \<open>A request whose declared length cannot be read is dropped, but its socket is not: the timer
  armed for the content is never cancelled and keeps the connection open until its time is over.\<close>

theorem bad_length_keeps_socket:
  assumes "declared_length L buffer = Some (Inl f)" "0 < timeout_content s"
  shows "\<exists>s'. http_request_read L run opt dflt False buffer n k s = Some (Inr s')
    \<and> stage s' k = Done \<and> is_open s' = is_open s \<and> (k, timeout_content s, Armed) \<in> set (timers s')"
proof -
  have "request_read L opt dflt False buffer n = Some (Inr Drop)"
    using assms(1) by (auto simp: request_read_def declared_length_def Let_def
        split: option.splits sum.splits bool.splits prod.splits)
  with assms show ?thesis
    by (auto simp: http_request_read_def Let_def arm_content_def set_timeout_def cancel_timer_def)
qed

theorem bad_length_keeps_socket_witness:
  "\<exists>s'. http_request_read ref_boost (\<lambda>f rq sm c. []) [] Map.empty False
      (request_text ''POST'' ''/a'' ''1.1'' [(''content-length'', ''x'')] []) 0 0 demo_accepted = Some (Inr s')
    \<and> is_open s' 0 \<and> (0, 300, Armed) \<in> set (timers s')"
proof -
  have h: "list_all header_valid [(''content-length'', ''x'')]"
    by (simp add: header_valid_def COLON_def)
  have "multimap_find ref_boost ''Content-Length'' [(''content-length'', ''x'')] = Some ''x''"
    using demo_upper(1) by (simp add: multimap_find_def del: list.map)
  moreover have "stoull ''x'' = Inl Invalid_Argument" by code_simp
  moreover have "length (request_text ''POST'' ''/a'' ''1.1'' [(''content-length'', ''x'')] []) < size_max"
    by (simp add: request_text_def request_line_def header_lines_def header_line_def size_max_def)
  ultimately have d: "declared_length ref_boost (request_text ''POST'' ''/a'' ''1.1'' [(''content-length'', ''x'')] [])
    = Some (Inl Invalid_Argument)"
    using parse_request_text[OF demo_facts(1-3) h, of "[]" request_ctor]
    by (simp add: declared_length_def request_ctor_def)
  have c: "timeout_content demo_accepted = 300" "is_open demo_accepted 0"
    by (simp_all add: demo_accepted_def demo_server_def read_request_and_content_def take_accept_def
        http_accept_def new_accept_def set_timeout_def http_server_ctor_def server_ctor_def server.defs)
  then show ?thesis
    using bad_length_keeps_socket[OF d, of demo_accepted "\<lambda>f rq sm c. []" "[]" Map.empty 0 0] by auto
qed

section \<open>The connections of the WebSocket server\<close>

text \<open>They are those of all its endpoints; stopping forgets them all.\<close>

lemma fold_union: "fold (\<lambda>(pat, cs) all. all \<union> cs) es A = A \<union> (\<Union>(pat, cs) \<in> set es. cs)"
  by (induction es arbitrary: A) auto

lemma get_connections_eq: "get_connections s = (\<Union>(pat, cs) \<in> set (endpoint_table s). cs)"
  by (simp add: get_connections_def fold_union)

lemma ws_stop_connections: "get_connections (ws_stop s) = {}"
  by (auto simp: get_connections_eq ws_stop_def Let_def)
end
