(* ===== verification/Sqlite_Session.thy ===== *)
theory Sqlite_Session
  imports Prelude "HOL-Library.Multiset"
begin

text \<open>
  The one use the program makes of SQLite, in the constructor of \<^verbatim>\<open>src/twitch_client.cpp\<close>: open a
  database, print the rows of a query, close it. The library is a parameter, a record of
  its functions over a state of their own; what \<^verbatim>\<open>sqlite3/sqlite3.h\<close> documents of each function is a
  definition, and the hypotheses of the lemmas. A handle and a block of memory are numbers.
\<close>

section \<open>The functions used\<close>

text \<open>
  A row is the names of its columns with their values, \<open>None\<close> a NULL pointer; a callback gets a
  row and the caller's state. \<open>handles\<close> and \<open>blocks\<close> are what the library's state owes: the open
  connections and the memory handed out.
\<close>

type_synonym row = "(string \<times> string option) list"
type_synonym 'o callback = "row \<Rightarrow> 'o \<Rightarrow> int \<times> 'o"

record ('w, 'o) sqlite_lib =
  sl_open :: "string \<Rightarrow> 'w \<Rightarrow> int \<times> nat option \<times> 'w"
  sl_errmsg :: "nat option \<Rightarrow> 'w \<Rightarrow> string"
  sl_exec :: "nat option \<Rightarrow> string \<Rightarrow> 'o callback \<Rightarrow> 'o \<Rightarrow> 'w \<Rightarrow> int \<times> (nat \<times> string) option \<times> 'o \<times> 'w"
  sl_free :: "(nat \<times> string) option \<Rightarrow> 'w \<Rightarrow> 'w"
  sl_close :: "nat option \<Rightarrow> 'w \<Rightarrow> int \<times> 'w"
  handles :: "'w \<Rightarrow> nat multiset"
  blocks :: "'w \<Rightarrow> nat multiset"

text \<open>The callback is invoked for each row, until it returns a value other than zero.\<close>

fun run_rows :: "'o callback \<Rightarrow> row list \<Rightarrow> 'o \<Rightarrow> bool \<times> 'o" where
  "run_rows cb [] s = (False, s)"
| "run_rows cb (r # rs) s = (let (rc, s) = cb r s in if rc \<noteq> 0 then (True, s) else run_rows cb rs s)"

text \<open>\<open>SQLITE_OK\<close> is 0 and \<open>SQLITE_ABORT\<close> is 4.\<close>

definition open_documented :: "('w, 'o) sqlite_lib \<Rightarrow> bool" where
  "open_documented S \<longleftrightarrow> (\<forall>filename w.
     case sl_open S filename w of (rc, db, w') \<Rightarrow>
       blocks S w' = blocks S w
       \<and> (case db of None \<Rightarrow> rc \<noteq> 0 \<and> handles S w' = handles S w
          | Some h \<Rightarrow> handles S w' = add_mset h (handles S w)))"

definition exec_documented :: "('w, 'o) sqlite_lib \<Rightarrow> bool" where
  "exec_documented S \<longleftrightarrow> (\<forall>h sql cb s w. h \<in># handles S w \<longrightarrow> (\<exists>rows.
     case sl_exec S (Some h) sql cb s w of (rc, msg, s', w') \<Rightarrow>
       (fst (run_rows cb rows s) \<longrightarrow> rc = 4) \<and> s' = snd (run_rows cb rows s)
       \<and> (rc = 0 \<longrightarrow> msg = None)
       \<and> handles S w' = handles S w
       \<and> blocks S w' = (case msg of None \<Rightarrow> {#} | Some (p, t) \<Rightarrow> {#p#}) + blocks S w))"

definition free_documented :: "('w, 'o) sqlite_lib \<Rightarrow> bool" where
  "free_documented S \<longleftrightarrow> (\<forall>w. sl_free S None w = w)
     \<and> (\<forall>p t w. p \<in># blocks S w \<longrightarrow>
          blocks S (sl_free S (Some (p, t)) w) = blocks S w - {#p#}
          \<and> handles S (sl_free S (Some (p, t)) w) = handles S w)"

text \<open>
  Closing succeeds when the connection has no unfinalized statement; \<open>exec\<close> leaves none.
\<close>

definition close_documented :: "('w, 'o) sqlite_lib \<Rightarrow> bool" where
  "close_documented S \<longleftrightarrow> (\<forall>w. snd (sl_close S None w) = w)
     \<and> (\<forall>h w. h \<in># handles S w \<longrightarrow>
          fst (sl_close S (Some h) w) = 0
          \<and> handles S (snd (sl_close S (Some h) w)) = handles S w - {#h#}
          \<and> blocks S (snd (sl_close S (Some h) w)) = blocks S w)"

section \<open>The session\<close>

text \<open>Standard output and standard error, each the list of what was printed.\<close>

record console =
  out :: "string list"
  err :: "string list"

definition print_out :: "string \<Rightarrow> console \<Rightarrow> console" where
  "print_out s c = c\<lparr>out := out c @ [s]\<rparr>"

definition print_err :: "string \<Rightarrow> console \<Rightarrow> console" where
  "print_err s c = c\<lparr>err := err c @ [s]\<rparr>"

text \<open>The callback of the query: its loop over the columns, and a blank line.\<close>

fun print_columns :: "row \<Rightarrow> console \<Rightarrow> console" where
  "print_columns [] c = c"
| "print_columns ((azColName, argv) # cols) c =
     print_columns cols (print_out (azColName @ '' = '' @ (case argv of Some v \<Rightarrow> v | None \<Rightarrow> ''NULL'') @ [LF]) c)"

definition print_row :: "console callback" where
  "print_row r c = (0, print_out [LF] (print_columns r c))"

text \<open>
  The body of the constructor. \<open>present\<close> is what \<open>exists\<close> says of the file, \<open>None\<close> where it throws;
  its value does not matter. Printing the error text through a NULL pointer has no defined
  behaviour.
\<close>

definition db_session :: "('w, console) sqlite_lib \<Rightarrow> bool option \<Rightarrow> console \<Rightarrow> 'w \<Rightarrow> (console \<times> 'w) result" where
  "db_session S present c w =
     (case present of None \<Rightarrow> Inl System_Error | Some _ \<Rightarrow>
      let (rc, db, w) = sl_open S ''twitch.db'' w in
      if rc \<noteq> 0 then
        (let c = print_err (''Can't open database: '' @ sl_errmsg S db w @ [LF]) c;
             (_, w) = sl_close S db w
         in Inr (c, w))
      else
        (let (rc, zErrMsg, c, w) = sl_exec S db ''select * from persons'' print_row c w in
         bind_result
           (if rc \<noteq> 0 then
              (case zErrMsg of
                 None \<Rightarrow> Inl Undefined_Behaviour
               | Some (p, t) \<Rightarrow> Inr (print_err (''SQL error: '' @ t @ [LF]) c, sl_free S zErrMsg w))
            else Inr (c, w))
           (\<lambda>(c, w). let (_, w) = sl_close S db w in Inr (c, w))))"

section \<open>What the session prints and leaves\<close>

definition row_text :: "row \<Rightarrow> string list" where
  "row_text r = map (\<lambda>(n, v). n @ '' = '' @ (case v of Some t \<Rightarrow> t | None \<Rightarrow> ''NULL'') @ [LF]) r @ [[LF]]"

lemma print_columns_out: "print_columns r c = c\<lparr>out := out c @ butlast (row_text r)\<rparr>"
  by (induction r c rule: print_columns.induct) (simp_all add: row_text_def print_out_def butlast_append)

lemma print_row_out: "print_row r c = (0, c\<lparr>out := out c @ row_text r\<rparr>)"
  by (simp add: print_row_def print_columns_out print_out_def row_text_def)

lemma run_rows_out: "run_rows print_row rows c = (False, c\<lparr>out := out c @ concat (map row_text rows)\<rparr>)"
  by (induction rows arbitrary: c) (simp_all add: print_row_out)

text \<open>A library that keeps its promises, on a table of persons; an empty table is an error.\<close>

definition ref_sqlite :: "row list \<Rightarrow> (nat multiset \<times> nat multiset, 'o) sqlite_lib" where
  "ref_sqlite rows =
     \<lparr>sl_open = (\<lambda>f (hs, bs). (0, Some 1, (add_mset 1 hs, bs))),
      sl_errmsg = (\<lambda>db w. ''error''),
      sl_exec = (\<lambda>db sql cb s (hs, bs).
        if rows = [] then (1, Some (7, ''no such table: persons''), s, (hs, add_mset 7 bs))
        else let (ab, s) = run_rows cb rows s in (if ab then 4 else 0, None, s, (hs, bs))),
      sl_free = (\<lambda>m (hs, bs). case m of None \<Rightarrow> (hs, bs) | Some (p, t) \<Rightarrow> (hs, bs - {#p#})),
      sl_close = (\<lambda>db (hs, bs). case db of None \<Rightarrow> (0, (hs, bs)) | Some h \<Rightarrow> (0, (hs - {#h#}, bs))),
      handles = fst, blocks = snd\<rparr>"

lemma ref_sqlite_documented:
  "open_documented (ref_sqlite rows)" "exec_documented (ref_sqlite rows)"
  "free_documented (ref_sqlite rows)" "close_documented (ref_sqlite rows)"
proof -
  show "open_documented (ref_sqlite rows)" "free_documented (ref_sqlite rows)" "close_documented (ref_sqlite rows)"
    by (simp_all add: open_documented_def free_documented_def close_documented_def ref_sqlite_def)
  show "exec_documented (ref_sqlite rows)"
    unfolding exec_documented_def
  proof (intro allI impI exI[of _ rows])
    fix h sql cb s w
    show "case sl_exec (ref_sqlite rows) (Some h) sql cb s w of (rc, msg, s', w') \<Rightarrow>
       (fst (run_rows cb rows s) \<longrightarrow> rc = 4) \<and> s' = snd (run_rows cb rows s)
       \<and> (rc = 0 \<longrightarrow> msg = None)
       \<and> handles (ref_sqlite rows) w' = handles (ref_sqlite rows) w
       \<and> blocks (ref_sqlite rows) w' = (case msg of None \<Rightarrow> {#} | Some (p, t) \<Rightarrow> {#p#}) + blocks (ref_sqlite rows) w"
      by (cases w; cases "rows = []"; cases "run_rows cb rows s") (simp_all add: ref_sqlite_def)
  qed
qed

section \<open>What the documented functions give\<close>

lemma opened_handle:
  assumes "open_documented S" "sl_open S f w = (rc, db, w1)"
  shows "blocks S w1 = blocks S w"
    "case db of None \<Rightarrow> rc \<noteq> 0 \<and> handles S w1 = handles S w | Some h \<Rightarrow> handles S w1 = add_mset h (handles S w)"
proof -
  have "case sl_open S f w of (rc, db, w') \<Rightarrow> blocks S w' = blocks S w
     \<and> (case db of None \<Rightarrow> rc \<noteq> 0 \<and> handles S w' = handles S w | Some h \<Rightarrow> handles S w' = add_mset h (handles S w))"
    by (rule assms(1)[unfolded open_documented_def, THEN spec, THEN spec])
  with assms(2) show "blocks S w1 = blocks S w"
    "case db of None \<Rightarrow> rc \<noteq> 0 \<and> handles S w1 = handles S w | Some h \<Rightarrow> handles S w1 = add_mset h (handles S w)"
    by simp_all
qed

lemma executed_rows:
  assumes "exec_documented S" "h \<in># handles S w" "sl_exec S (Some h) sql print_row c w = (rc, msg, s, w')"
  obtains rows where "s = c\<lparr>out := out c @ concat (map row_text rows)\<rparr>" "rc = 0 \<longrightarrow> msg = None"
    "handles S w' = handles S w" "blocks S w' = (case msg of None \<Rightarrow> {#} | Some (p, t) \<Rightarrow> {#p#}) + blocks S w"
proof -
  have "\<exists>rows. case sl_exec S (Some h) sql print_row c w of (rc, msg, s', w') \<Rightarrow>
     (fst (run_rows print_row rows c) \<longrightarrow> rc = 4) \<and> s' = snd (run_rows print_row rows c)
     \<and> (rc = 0 \<longrightarrow> msg = None) \<and> handles S w' = handles S w
     \<and> blocks S w' = (case msg of None \<Rightarrow> {#} | Some (p, t) \<Rightarrow> {#p#}) + blocks S w"
    by (rule assms(1)[unfolded exec_documented_def, THEN spec, THEN spec, THEN spec, THEN spec, THEN spec, rule_format, OF assms(2)])
  with assms(3) that show ?thesis by (auto simp: run_rows_out)
qed

lemma closed_handle:
  "close_documented S \<Longrightarrow> case db of None \<Rightarrow> handles S v = H | Some h \<Rightarrow> handles S v = add_mset h H \<Longrightarrow>
   handles S (snd (sl_close S db v)) = H \<and> blocks S (snd (sl_close S db v)) = blocks S v"
  unfolding close_documented_def by (cases db) auto

lemma freed_block:
  "free_documented S \<Longrightarrow> blocks S w = add_mset p B \<Longrightarrow>
   blocks S (sl_free S (Some (p, t)) w) = B \<and> handles S (sl_free S (Some (p, t)) w) = handles S w"
  unfolding free_documented_def by auto

section \<open>What the session does\<close>

text \<open>The query fails and the library has no text for its error.\<close>

definition text_missing :: "('w, console) sqlite_lib \<Rightarrow> console \<Rightarrow> 'w \<Rightarrow> bool" where
  "text_missing S c w \<longleftrightarrow> (case sl_open S ''twitch.db'' w of (rc, db, w1) \<Rightarrow> rc = 0
     \<and> (case sl_exec S db ''select * from persons'' print_row c w1 of (rc, zErrMsg, s, w2) \<Rightarrow> rc \<noteq> 0 \<and> zErrMsg = None))"

text \<open>Exactly when it faults.\<close>

lemma db_session_fault:
  "db_session S present c w = Inl f \<longleftrightarrow>
     f = System_Error \<and> present = None \<or> f = Undefined_Behaviour \<and> present \<noteq> None \<and> text_missing S c w"
  by (auto simp: db_session_def text_missing_def bind_result_def Let_def split: option.splits prod.splits if_splits)

lemma db_session_done:
  assumes "open_documented S" "exec_documented S" "free_documented S" "close_documented S"
    and "db_session S present c w = Inr (c', w')"
  shows "handles S w' = handles S w \<and> blocks S w' = blocks S w
    \<and> (\<exists>rows. out c' = out c @ concat (map row_text rows)) \<and> length (err c') \<le> length (err c) + 1"
proof -
  obtain f where present: "present = Some f" using assms(5) by (cases present) (simp_all add: db_session_def)
  obtain rc db w1 where o: "sl_open S ''twitch.db'' w = (rc, db, w1)" by (metis prod_cases3)
  note od = opened_handle[OF assms(1) o]
  have cl: "handles S (snd (sl_close S db v)) = handles S w \<and> blocks S (snd (sl_close S db v)) = blocks S v"
    if "handles S v = handles S w1" for v
    using od(2) that by (intro closed_handle[OF assms(4)]) (auto split: option.splits)
  show ?thesis
  proof (cases "rc = 0")
    case False
    with o cl[of w1] od(1) present assms(5) show ?thesis
      by (simp add: db_session_def print_err_def split: prod.splits) (auto intro!: exI[of _ "[]"])
  next
    case True
    with od(2) obtain h where db: "db = Some h" "h \<in># handles S w1" by (auto split: option.splits)
    obtain rc2 msg s w2 where e: "sl_exec S (Some h) ''select * from persons'' print_row c w1 = (rc2, msg, s, w2)"
      by (metis prod_cases4)
    obtain rows where x: "s = c\<lparr>out := out c @ concat (map row_text rows)\<rparr>" "rc2 = 0 \<longrightarrow> msg = None"
      "handles S w2 = handles S w1" "blocks S w2 = (case msg of None \<Rightarrow> {#} | Some (p, t) \<Rightarrow> {#p#}) + blocks S w1"
      using executed_rows[OF assms(2) db(2) e] by blast
    show ?thesis
    proof (cases msg)
      case None
      with x cl[of w2] od(1) o e db True present assms(5) show ?thesis by (auto simp: db_session_def split: prod.splits if_splits)
    next
      case (Some m)
      then obtain p t where m: "msg = Some (p, t)" by (cases m) simp
      have "blocks S w2 = add_mset p (blocks S w1)" using x(4) m by simp
      note fr = freed_block[OF assms(3) this, of t]
      with cl[of "sl_free S (Some (p, t)) w2"] x od(1) o e db(1) True m present assms(5) show ?thesis
        by (auto simp: db_session_def print_err_def split: prod.splits if_splits)
    qed
  qed
qed

lemma db_session_keeps:
  assumes "open_documented S" "exec_documented S" "free_documented S" "close_documented S"
    and "db_session S present c w = Inr (c', w')"
  shows "handles S w' = handles S w \<and> blocks S w' = blocks S w"
  using db_session_done[OF assms] by blast

section \<open>Properties\<close>

text \<open>C31: On a library that behaves as documented, the session gives back all it took: afterwards the
  open connections and the memory handed out are what they were before, on every path that
  returns. It prints the rows of the query in order, and behind them at most one error. It faults
  exactly when the file cannot be examined, which throws, or when the query fails with an error for
  which the library has no text, which is printed through a NULL pointer.\<close>

theorem db_session_balanced:
  assumes "open_documented S" "exec_documented S" "free_documented S" "close_documented S"
  shows "(\<forall>c' w'. db_session S present c w = Inr (c', w') \<longrightarrow>
      handles S w' = handles S w \<and> blocks S w' = blocks S w
      \<and> (\<exists>rows. out c' = out c @ concat (map row_text rows)) \<and> length (err c') \<le> length (err c) + 1)
    \<and> (\<forall>f. db_session S present c w = Inl f \<longleftrightarrow>
      f = System_Error \<and> present = None \<or> f = Undefined_Behaviour \<and> present \<noteq> None \<and> text_missing S c w)"
  using db_session_done[OF assms, of present c w] by (simp add: db_session_fault)

theorem db_session_balanced_witness:
  "(\<exists>c'. db_session (ref_sqlite [[(''name'', Some ''ann''), (''age'', None)]]) (Some True) \<lparr>out = [], err = []\<rparr> ({#}, {#}) = Inr (c', {#}, {#}))
   \<and> (\<exists>c'. db_session (ref_sqlite []) (Some False) \<lparr>out = [], err = []\<rparr> ({#}, {#}) = Inr (c', {#}, {#}))
   \<and> db_session (ref_sqlite []) None \<lparr>out = [], err = []\<rparr> ({#}, {#}) = Inl System_Error"
proof -
  have "\<exists>c'. db_session (ref_sqlite rows) (Some f) \<lparr>out = [], err = []\<rparr> ({#}, {#}) = Inr (c', {#}, {#})" for rows f
  proof -
    have w: "handles (ref_sqlite rows) w = fst w" "blocks (ref_sqlite rows) w = snd w" for w
      by (simp_all add: ref_sqlite_def)
    have "\<exists>r. db_session (ref_sqlite rows) (Some f) \<lparr>out = [], err = []\<rparr> ({#}, {#}) = Inr r"
      by (simp add: db_session_def ref_sqlite_def run_rows_out)
    then obtain c' w' where r: "db_session (ref_sqlite rows) (Some f) \<lparr>out = [], err = []\<rparr> ({#}, {#}) = Inr (c', w')" by force
    with db_session_balanced[OF ref_sqlite_documented, where c = "\<lparr>out = [], err = []\<rparr>" and w = "({#}, {#})" and rows1 = rows
        and present = "Some f"] have "w' = ({#}, {#})" by (cases w') (simp add: w)
    with r show ?thesis by blast
  qed
  then show ?thesis by (simp add: db_session_def)
qed

end
