(* ===== verification/Twitch_Client.thy ===== *)
theory Twitch_Client
  imports Irc_Client Ws_Endpoints Sqlite_Session
begin

text \<open>
  The chat client of \<^verbatim>\<open>src/twitch_client.cpp\<close>, a subclass of the IRC client: it overrides the
  handlers of replies and of PRIVMSG, joins a channel once the server's greeting is over, and
  hands chat text to the WebSocket connection it was created for. Its \<open>vtable\<close> is given to the
  operations of \<open>Irc_Client\<close>; the connection is that of \<open>Ws_Connection\<close>.
\<close>

section \<open>State\<close>

text \<open>
  \<open>m_connection\<close> points to a connection that the server owns too; the field is the
  connection's value at the time of the call. \<open>path_match\<close> are the sub-matches of the path it
  was opened with, \<open>json_requests\<close> the JSON clients created, each with server and path.
\<close>

record twitch_client = irc_client +
  m_connection :: connection
  path_match :: captures
  json_requests :: "(string \<times> string) list"

text \<open>The constructor: the base class, the members, then the database; \<open>cerr\<close> is returned with it.\<close>

definition twitch_client_ctor ::
  "('w, console) sqlite_lib \<Rightarrow> bool option \<Rightarrow> string \<Rightarrow> string \<Rightarrow> connection \<Rightarrow> captures \<Rightarrow> 'w \<Rightarrow> (twitch_client \<times> string list \<times> 'w) result"
where
  "twitch_client_ctor S present nick pass connection pm w =
     (let st = irc_client.extend (irc_client_ctor nick pass)
                 \<lparr>m_connection = connection, path_match = pm, json_requests = []\<rparr>
      in bind_result (db_session S present \<lparr>out = cout st, err = []\<rparr> w) (\<lambda>(c, w).
           Inr (st\<lparr>cout := out c\<rparr>, err c, w)))"

section \<open>Replies\<close>

definition json_client_create :: "string \<Rightarrow> string \<Rightarrow> twitch_client \<Rightarrow> twitch_client" where
  "json_client_create server path st = st\<lparr>json_requests := json_requests st @ [(server, path)]\<rparr>"

definition twitch_reply :: "boost_lib \<Rightarrow> message \<Rightarrow> Reply \<Rightarrow> twitch_client \<Rightarrow> bool \<times> twitch_client" where
  "twitch_reply L msg code st =
     (if code \<in> {enumerator ''RPL_WELCOME'', enumerator ''RPL_YOURHOST'', enumerator ''RPL_CREATED'',
          enumerator ''RPL_MYINFO'', enumerator ''RPL_MOTDSTART'', enumerator ''RPL_MOTD''}
      then (False, st)
      else if code = enumerator ''RPL_ENDOFMOTD'' then
        let st = send_raw ''CAP REQ :twitch.tv/tags'' st;
            st = send_raw ''CAP REQ :twitch.tv/membership'' st;
            st = send_raw ''CAP REQ :twitch.tv/commands'' st;
            st = json_client_create ''tmi.twitch.tv''
                   (''/group/user/'' @ sub_match (path_match st) 1 @ ''/chatters'') st;
            st = irc_join L (''#'' @ sub_match (path_match st) 1) [] st
        in (False, st)
      else (True, st))"

section \<open>Chat messages\<close>

text \<open>
  The text goes to the connection in a frame, with callback number 1. The server of the bot
  has no idle timeout, so sending has no fault (\<open>ws_send_untimed\<close>).
\<close>

definition twitch_privmsg :: "message \<Rightarrow> string \<Rightarrow> string \<Rightarrow> twitch_client \<Rightarrow> twitch_client" where
  "twitch_privmsg msg msgtarget text_to_be_sent st =
     (let st = base_privmsg msg msgtarget text_to_be_sent st
      in case ws_send 0 129 (bytes_of (text_to_be_sent @ [LF])) (Some 1) (m_connection st) of
           Inr c \<Rightarrow> st\<lparr>m_connection := c\<rparr>
         | Inl f \<Rightarrow> st)"

definition twitch_vt :: "boost_lib \<Rightarrow> twitch_client vtable" where
  "twitch_vt L = \<lparr>v_reply = twitch_reply L, v_privmsg = twitch_privmsg\<rparr>"

section \<open>Lemmas\<close>

lemma ws_send_untimed: "ws_send 0 op m cb c = Inr (post_send (reply_frame op m cb) c)"
  by (rule ws_send_timer) (simp add: has_timer_def)

lemma twitch_privmsg_eq:
  "twitch_privmsg msg target t st =
     (base_privmsg msg target t st)\<lparr>m_connection :=
        post_send (reply_frame 129 (bytes_of (t @ [LF])) (Some 1)) (m_connection st)\<rparr>"
  by (simp add: twitch_privmsg_def ws_send_untimed base_privmsg_def print_def)

lemma send_raw_twitch [frames]:
  "m_connection (send_raw l st) = m_connection st" "path_match (send_raw l st) = path_match st"
  "json_requests (send_raw l st) = json_requests st"
  by (simp_all add: send_raw_def)

lemma json_client_create_frame [frames]:
  "outbox (json_client_create s p st) = outbox st" "m_connection (json_client_create s p st) = m_connection st"
  "path_match (json_client_create s p st) = path_match st"
  "json_requests (json_client_create s p st) = json_requests st @ [(s, p)]"
  by (simp_all add: json_client_create_def)

text \<open>A complete line that the constructor of messages understands, read into an empty buffer.\<close>

lemma on_read_line:
  assumes "LF \<notin> set l" "response st = []" "read_line L vt l (st\<lparr>read_armed := False, response := l @ [LF]\<rparr>) = Inr st'"
  shows "on_read L vt False (l @ [LF]) st = Some (Inr (start_read (st'\<lparr>response := []\<rparr>)))"
  using assms by (simp add: on_read_ok lines_of_line)

lemma in_lines: "line_parts_ok lp \<Longrightarrow> LF \<notin> set (render_line lp) \<Longrightarrow> boost_contract L \<Longrightarrow>
  \<exists>m out. message_ctor L (render_line lp) = Inr (m, out) \<and> command m = lp_command lp
    \<and> params m = lp_middle lp @ [case lp_trailing lp of None \<Rightarrow> [] | Some t \<Rightarrow> t]"
  using boost.ctor_render[OF boost.intro] by blast

section \<open>Properties\<close>

text \<open>A chat message that the IRC server sends as one line is handed to the WebSocket connection as
  exactly one text frame, whose payload is the text with the carriage return of the line and a
  line feed; nothing is sent back to the IRC server, and the reader is armed again.\<close>

theorem chat_to_frame:
  assumes "boost_contract L" "line_parts_ok lp" "LF \<notin> set (render_line lp)" "response st = []"
    and "lp_command lp = ''PRIVMSG''" "lp_middle lp = [channel]" "lp_trailing lp = Some (t @ [CR])"
  shows "\<exists>st'. on_read L (twitch_vt L) False (render_line lp @ [LF]) st = Some (Inr st')
    \<and> m_connection st' = post_send (reply_frame 129 (bytes_of (t @ CRLF)) (Some 1)) (m_connection st)
    \<and> outbox st' = outbox st \<and> json_requests st' = json_requests st \<and> read_armed st'"
proof -
  obtain m out where m: "message_ctor L (render_line lp) = Inr (m, out)" "command m = ''PRIVMSG''"
    "params m = [channel, t @ [CR]]"
    using in_lines[OF assms(2,3,1)] assms(5-7) by auto
  let ?s = "st\<lparr>read_armed := False, response := render_line lp @ [LF]\<rparr>"
  have r: "read_line L (twitch_vt L) (render_line lp) ?s
    = Inr (twitch_privmsg m channel (t @ [CR]) (?s\<lparr>cout := cout ?s @ out\<rparr>))"
    using m by (simp add: read_line_def read_msg_def stoi_letter irc_message_def str_at_def vec_at_def
        print_raw_def twitch_vt_def)
  show ?thesis
    by (subst on_read_line[OF assms(3,4) r])
      (simp add: start_read_def twitch_privmsg_eq base_privmsg_def print_def CRLF_def)
qed

definition demo_twitch :: twitch_client where
  "demo_twitch = irc_client.extend (irc_client_ctor ''bot'' ''pw'')
     \<lparr>m_connection = opened 0, path_match = (\<lambda>i. if i = 1 then Some ''ann'' else None), json_requests = []\<rparr>"

definition demo_chat :: line_parts where
  "demo_chat = \<lparr>lp_tags = None, lp_prefix = Some (''bob'', Some (Some ''bob'', ''host'')),
     lp_command = ''PRIVMSG'', lp_middle = [''#ann''], lp_trailing = Some (''hi'' @ [CR])\<rparr>"

lemma render_demo_chat: "render_line demo_chat = '':bob!bob@host PRIVMSG #ann :hi'' @ [CR]"
  by (simp add: demo_chat_def render_line_def render_tags_def render_prefix_def render_user_host_def
      render_middle_def render_trailing_def)

lemma demo_chat_ok: "line_parts_ok demo_chat"
  by (simp add: demo_chat_def line_parts_ok_def prefix_ok_def user_host_ok_def middle_ok_def)

theorem chat_to_frame_witness:
  "\<exists>st'. on_read ref_boost (twitch_vt ref_boost) False ('':bob!bob@host PRIVMSG #ann :hi'' @ CRLF) demo_twitch = Some (Inr st')
    \<and> strand (m_connection st') = [Post_Send (reply_frame 129 (bytes_of (''hi'' @ CRLF)) (Some 1))]"
proof -
  have st: "response demo_twitch = []" "strand (m_connection demo_twitch) = []"
    by (simp_all add: demo_twitch_def irc_client.defs irc_client_ctor_def opened_def connection_ctor_def)
  have line: "render_line demo_chat @ [LF] = '':bob!bob@host PRIVMSG #ann :hi'' @ CRLF"
    by (simp add: render_demo_chat CRLF_def)
  have parts: "LF \<notin> set (render_line demo_chat)" "lp_command demo_chat = ''PRIVMSG''"
    "lp_middle demo_chat = [''#ann'']" "lp_trailing demo_chat = Some (''hi'' @ [CR])"
    by (simp_all add: render_demo_chat) (simp_all add: demo_chat_def)
  obtain st' where "on_read ref_boost (twitch_vt ref_boost) False (render_line demo_chat @ [LF]) demo_twitch = Some (Inr st')"
    "m_connection st' = post_send (reply_frame 129 (bytes_of (''hi'' @ CRLF)) (Some 1)) (m_connection demo_twitch)"
    using chat_to_frame[OF ref_boost_contract demo_chat_ok parts(1) st(1) parts(2-4)] by blast
  then show ?thesis unfolding line by (intro exI[of _ st']) (simp add: post_send_def st(2))
qed

lemma motd_end_effect:
  assumes "boost_contract L" "line_parts_ok lp" "LF \<notin> set (render_line lp)" "response st = []"
    and "lp_command lp = ''376''"
  shows "\<exists>st'. on_read L (twitch_vt L) False (render_line lp @ [LF]) st = Some (Inr st')
    \<and> outbox st' = outbox st @ map (\<lambda>l. l @ CRLF)
        [''CAP REQ :twitch.tv/tags'', ''CAP REQ :twitch.tv/membership'', ''CAP REQ :twitch.tv/commands'',
         ''JOIN #'' @ sub_match (path_match st) 1 @ '' '']
    \<and> json_requests st' = json_requests st
        @ [(''tmi.twitch.tv'', ''/group/user/'' @ sub_match (path_match st) 1 @ ''/chatters'')]
    \<and> m_connection st' = m_connection st \<and> response st' = [] \<and> path_match st' = path_match st"
proof -
  obtain m out where m: "message_ctor L (render_line lp) = Inr (m, out)" "command m = ''376''"
    using in_lines[OF assms(2,3,1)] assms(5) by auto
  let ?s = "st\<lparr>read_armed := False, response := render_line lp @ [LF]\<rparr>"
  have "stoi ''376'' = Inr 376"
    by (simp add: stoi_def scan_number_def is_digit_def is_space_def digit_val_def)
  with m have r: "read_line L (twitch_vt L) (render_line lp) ?s
    = Inr (snd (twitch_reply L m 376 (?s\<lparr>cout := cout ?s @ out\<rparr>)))"
    by (simp add: read_line_def read_msg_def print_raw_def twitch_vt_def twitch_reply_def Let_def)
  show ?thesis
    by (subst on_read_line[OF assms(3,4) r])
      (simp add: start_read_def twitch_reply_def Let_def irc_join_def boost.send_eq[OF boost.intro[OF assms(1)]]
        frames wire)
qed

text \<open>The end of the message of the day makes the client ask for the three capabilities and join the
  channel named by the path, in this order, and request the list of chatters of that channel.
  The connection is not touched and the line is not printed.\<close>

theorem motd_end_joins:
  assumes "boost_contract L" "line_parts_ok lp" "LF \<notin> set (render_line lp)" "response st = []"
    and "lp_command lp = ''376''"
  shows "\<exists>st'. on_read L (twitch_vt L) False (render_line lp @ [LF]) st = Some (Inr st')
    \<and> outbox st' = outbox st @ map (\<lambda>l. l @ CRLF)
        [''CAP REQ :twitch.tv/tags'', ''CAP REQ :twitch.tv/membership'', ''CAP REQ :twitch.tv/commands'',
         ''JOIN #'' @ sub_match (path_match st) 1 @ '' '']
    \<and> json_requests st' = json_requests st
        @ [(''tmi.twitch.tv'', ''/group/user/'' @ sub_match (path_match st) 1 @ ''/chatters'')]
    \<and> m_connection st' = m_connection st"
  using motd_end_effect[OF assms] by blast

theorem motd_end_joins_witness:
  "\<exists>st'. on_read ref_boost (twitch_vt ref_boost) False (''376 bot :end'' @ [LF]) demo_twitch = Some (Inr st')
    \<and> last (outbox st') = ''JOIN #ann '' @ CRLF"
proof -
  let ?lp = "\<lparr>lp_tags = None, lp_prefix = None, lp_command = ''376'', lp_middle = [''bot''], lp_trailing = Some ''end''\<rparr>"
  have ok: "line_parts_ok ?lp" by (simp add: line_parts_ok_def prefix_ok_def middle_ok_def)
  have r: "render_line ?lp = ''376 bot :end''"
    by (simp add: render_line_def render_tags_def render_prefix_def render_middle_def render_trailing_def)
  have st: "response demo_twitch = []" "path_match demo_twitch = (\<lambda>i. if i = 1 then Some ''ann'' else None)"
    by (simp_all add: demo_twitch_def irc_client.defs irc_client_ctor_def)
  show ?thesis
    using motd_end_joins[OF ref_boost_contract ok, of demo_twitch] by (auto simp: r st sub_match_def)
qed

lemma closing_channel: "connection_close 0 channel_endpoint = connection_close 0 (echo_endpoint 0)"
  by (intro ext) (simp add: connection_close_def channel_endpoint_def echo_endpoint_def)

text \<open>C32: The client keeps its connection after the connection is closed: once a close frame has been
  answered and the endpoint has forgotten the connection, a chat message still posts a text frame,
  which follows the close frame on the same connection.\<close>

theorem chat_after_close:
  assumes "awaiting 0 c" "\<not> closed c" "op AND 0x0f = 8" "length key = 4" "length payload \<le> 0xffff"
  shows "\<exists>c' p. feed 0 channel_endpoint (client_frame op key payload @ r) c = Inr (c', r)
    \<and> closed c' \<and> \<not> registered c'
    \<and> strand (m_connection (twitch_privmsg msg target t (st\<lparr>m_connection := c'\<rparr>)))
      = strand c @ [Post_Send (reply_frame 136 p None), Post_Send (reply_frame 129 (bytes_of (t @ [LF])) (Some 1))]"
proof -
  let ?c = "c\<lparr>phase := Read_Content (length payload) op\<rparr>"
  obtain status re where s: "close_status payload = (status, re)" by force
  have "handle_frame 0 channel_endpoint op payload ?c = Inr (closed_by 0 status re ?c)"
    using assms closing_echo[of 0 ?c] s by (simp add: handle_frame_def awaiting_def closing_channel)
  with assms have f: "feed 0 channel_endpoint (client_frame op key payload @ r) c = Inr (closed_by 0 status re ?c, r)"
    by (simp add: feed_awaiting not_reading_stops closed_by_def)
  show ?thesis
    by (rule exI[of _ "closed_by 0 status re ?c"], rule exI[of _ "close_payload status re"], rule conjI[OF f])
      (use assms(2) in \<open>simp add: closed_by_def cancelled_def post_send_def twitch_privmsg_eq\<close>)
qed

theorem chat_after_close_witness:
  "\<exists>c' p. feed 0 channel_endpoint (client_frame 136 [1, 2, 3, 4] [3, 232] @ []) (opened 0) = Inr (c', [])
    \<and> strand (m_connection (twitch_privmsg empty_message ''#ann'' ''hi'' (demo_twitch\<lparr>m_connection := c'\<rparr>)))
      = [Post_Send (reply_frame 136 p None), Post_Send (reply_frame 129 (bytes_of (''hi'' @ [LF])) (Some 1))]"
proof -
  have "awaiting 0 (opened 0)" "\<not> closed (opened 0)" "(136 :: byte) AND 0x0f = 8"
    "length [1, 2, 3, 4 :: byte] = 4" "length [3, 232 :: byte] \<le> 0xffff"
    by (simp_all add: opened_fields)
  note r = chat_after_close[OF this, of "[]" empty_message "''#ann''" "''hi''" demo_twitch]
  show ?thesis using r[unfolded opened_fields append_Nil] by blast
qed

end
