(* ===== verification/Bot.thy ===== *)
theory Bot
  imports Server_Loop Twitch_Client Ws_Handshake
begin

text \<open>
  The program of \<^verbatim>\<open>src/bot.cpp\<close>: the default resource of the HTTP server, which serves the
  files under a directory, the function that sends a file piece by piece, and the set-up of the
  two servers. The file system is a parameter.
\<close>

section \<open>The file system\<close>

text \<open>
  Boost's paths are abstract: \<open>fs_elements\<close> are the elements a path's iterators give. The queries
  are \<open>None\<close> where they throw; \<open>fs_open\<close> is the content of a file that can be opened.
\<close>

record 'p filesystem =
  fs_path :: "string \<Rightarrow> 'p"
  fs_append :: "'p \<Rightarrow> string \<Rightarrow> 'p"
  fs_elements :: "'p \<Rightarrow> string list"
  fs_canonical :: "'p \<Rightarrow> 'p option"
  fs_exists :: "'p \<Rightarrow> bool option"
  fs_is_directory :: "'p \<Rightarrow> bool option"
  fs_is_regular_file :: "'p \<Rightarrow> bool option"
  fs_open :: "'p \<Rightarrow> string option"

section \<open>The default resource\<close>

text \<open>A file to send, an error text, or an exception, after which nothing has been written.\<close>

datatype 'p served = Serve_File 'p string | Could_Not_Open string | Thrown

definition within_root :: "'p filesystem \<Rightarrow> 'p \<Rightarrow> 'p \<Rightarrow> bool" where
  "within_root F web_root p \<longleftrightarrow> length (fs_elements F web_root) \<le> length (fs_elements F p)
     \<and> fs_elements F web_root = take (length (fs_elements F web_root)) (fs_elements F p)"

text \<open>A test of the file system in a condition: it throws, fails or holds.\<close>

fun fs_if :: "bool option \<Rightarrow> 'p served \<Rightarrow> 'p served \<Rightarrow> 'p served" where
  "fs_if None t f = Thrown"
| "fs_if (Some b) t f = (if b then t else f)"

definition default_get :: "'p filesystem \<Rightarrow> string \<Rightarrow> 'p served" where
  "default_get F request_path =
     (let failed = Could_Not_Open (''Could not open path '' @ request_path) in
      case fs_canonical F (fs_path F ''web'') of
        None \<Rightarrow> Thrown
      | Some web_root_path \<Rightarrow>
          let path = fs_append F web_root_path request_path in
          fs_if (fs_exists F path)
            (case fs_canonical F path of
               None \<Rightarrow> Thrown
             | Some path \<Rightarrow>
                 if within_root F web_root_path path then
                   (case fs_is_directory F path of
                      None \<Rightarrow> Thrown
                    | Some is_dir \<Rightarrow>
                        let path = (if is_dir then fs_append F path ''index.html'' else path) in
                        fs_if (fs_exists F path)
                          (fs_if (fs_is_regular_file F path)
                            (case fs_open F path of
                               Some content \<Rightarrow> Serve_File path content
                             | None \<Rightarrow> failed)
                            failed)
                          failed)
                 else failed)
            failed)"

lemma fs_if_eq: "fs_if c t f = (case c of None \<Rightarrow> Thrown | Some b \<Rightarrow> if b then t else f)"
  by (cases c) simp_all

section \<open>Sending a file\<close>

text \<open>
  The pieces handed to \<open>async_write\<close>: what is in the response's buffer and up to \<open>B\<close> bytes of the
  file, the size of the buffer. Only after a full piece does the function call itself, from the
  callback of the write; otherwise the response is sent when its last reference goes. \<open>fails i\<close>
  says that the \<open>i\<close>-th of these writes ends with an error; what it left in the buffer is then
  sent by the last reference.
\<close>

definition gcount :: "nat \<Rightarrow> string \<Rightarrow> nat" where
  "gcount buffer_size ifs = min buffer_size (length ifs)"

function default_resource_send ::
  "nat \<Rightarrow> (nat \<Rightarrow> string option) \<Rightarrow> nat \<Rightarrow> string \<Rightarrow> string \<Rightarrow> string list"
where
  "default_resource_send B fails i buffer ifs =
     (if 0 < gcount B ifs then
        (if gcount B ifs = B then
           (case fails i of
              None \<Rightarrow> (buffer @ take B ifs) # default_resource_send B fails (Suc i) [] (drop B ifs)
            | Some left \<Rightarrow> [buffer @ take B ifs, left])
         else [buffer @ take (gcount B ifs) ifs])
      else [buffer])"
  by pat_completeness auto
termination
  by (relation "measure (\<lambda>(B, fails, i, buffer, ifs). length ifs)") (auto simp: gcount_def)

declare default_resource_send.simps [simp del]

definition ok_header :: "nat \<Rightarrow> string" where
  "ok_header len = ''HTTP/1.1 200 OK'' @ CRLF @ ''Content-Length: '' @ show_nat len @ CRLF @ CRLF"

definition bad_request :: "string \<Rightarrow> string" where
  "bad_request content = ''HTTP/1.1 400 Bad Request'' @ CRLF @ ''Content-Length: ''
     @ show_nat (length content) @ CRLF @ CRLF @ content"

text \<open>What the default resource makes the server write for a path.\<close>

definition response_writes :: "'p filesystem \<Rightarrow> (nat \<Rightarrow> string option) \<Rightarrow> string \<Rightarrow> string list" where
  "response_writes F fails request_path =
     (case default_get F request_path of
        Thrown \<Rightarrow> [[]]
      | Could_Not_Open content \<Rightarrow> [bad_request content]
      | Serve_File path content \<Rightarrow>
          default_resource_send 131072 fails 0 (ok_header (length content)) content)"

section \<open>The program\<close>

text \<open>The two servers as \<open>main\<close> sets them up, the endpoints in the order of the map.\<close>

record bot =
  bot_http :: "unit http_server"
  bot_default :: "string \<rightharpoonup> unit"
  bot_ws :: ws_server
  bot_endpoints :: "(string \<times> endpoint) list"
  bot_login :: "string \<times> string"

definition ws_server_ctor :: "16 word \<Rightarrow> nat \<Rightarrow> ws_server" where
  "ws_server_ctor p n = server.extend (server_ctor p n 5 0) \<lparr>endpoint_table = [], opt_endpoint = []\<rparr>"

definition echo_pattern :: string where "echo_pattern = ''^/echo/?$''"

definition channel_pattern :: string where "channel_pattern = ''^/channel/([a-z0-9]+)/?$''"

text \<open>Without exactly three arguments the program prints its usage and returns 1.\<close>

definition bot_main :: "string list \<Rightarrow> int + bot" where
  "bot_main argv =
     (if length argv \<noteq> 4 then Inl 1
      else
        let endpoints = smap_insert (channel_pattern, channel_endpoint)
              (smap_insert (echo_pattern, echo_endpoint 0) [])
        in Inr \<lparr>bot_http = http_server_ctor 8080 1, bot_default = [''GET'' \<mapsto> ()],
             bot_ws = (ws_server_ctor 8081 1)\<lparr>endpoint_table := map (\<lambda>(pat, ep). (pat, {})) endpoints\<rparr>,
             bot_endpoints = endpoints, bot_login = (argv ! 1, argv ! 2)\<rparr>)"


text \<open>The two threads start the servers; the HTTP server has no resource but the default one.\<close>

definition bot_run :: "net \<Rightarrow> bot \<Rightarrow> unit http_server result \<times> ws_server result" where
  "bot_run N b = (http_start N [] (bot_http b), ws_start N (bot_ws b))"

section \<open>Properties\<close>

lemma within_root_prefix: "within_root F web_root p \<longleftrightarrow> take (length (fs_elements F web_root)) (fs_elements F p) = fs_elements F web_root"
  unfolding within_root_def by (metis length_take min.absorb_iff1 min.commute)

text \<open>C24: Whatever path a request names, the place it leads to with every link resolved lies under the
  directory \<^verbatim>\<open>web\<close>: the elements of its canonical path begin with those of the canonical directory. What
  is sent are the bytes of the regular file at that place, or, when the place is a directory, of its
  entry \<^verbatim>\<open>index.html\<close>; that entry is not resolved again, and may be a link to anywhere.\<close>

theorem served_inside_root:
  assumes "default_get F request_path = Serve_File p content"
    and "\<And>a q. fs_canonical F a = Some q \<Longrightarrow> fs_canonical F q = Some q"
    and "\<And>a q. fs_canonical F a = Some q \<Longrightarrow> fs_elements F (fs_append F q ''index.html'') = fs_elements F q @ [''index.html'']"
  shows "\<exists>web_root q. fs_canonical F (fs_path F ''web'') = Some web_root
    \<and> fs_canonical F (fs_append F web_root request_path) = Some q
    \<and> take (length (fs_elements F web_root)) (fs_elements F q) = fs_elements F web_root
    \<and> fs_is_regular_file F p = Some True \<and> fs_open F p = Some content
    \<and> (p = q \<and> fs_canonical F p = Some p
      \<or> fs_is_directory F q = Some True \<and> p = fs_append F q ''index.html'' \<and> fs_elements F p = fs_elements F q @ [''index.html''])"
proof -
  obtain web_root q d where r: "fs_canonical F (fs_path F ''web'') = Some web_root"
    "fs_canonical F (fs_append F web_root request_path) = Some q" "within_root F web_root q" "fs_is_directory F q = Some d"
    and p: "p = (if d then fs_append F q ''index.html'' else q)" "fs_is_regular_file F p = Some True" "fs_open F p = Some content"
    using assms(1) by (auto simp: default_get_def Let_def fs_if_eq split: option.splits if_splits)
  with assms(2)[OF r(2)] assms(3)[OF r(2)] show ?thesis by (cases d) (auto simp: within_root_prefix)
qed

text \<open>A file system with one directory and one file in it; dots lead to the parent.\<close>

definition demo_fs :: "string list filesystem" where
  "demo_fs = \<lparr>fs_path = (\<lambda>s. [''/'', s]),
     fs_append = (\<lambda>p s. if s = ''/'' then p else if s = ''/../secret'' then p @ [''..'', ''secret''] else p @ [s]),
     fs_elements = id,
     fs_canonical = (\<lambda>p. Some (if p = [''/'', ''web'', ''..'', ''secret''] then [''/'', ''secret''] else p)),
     fs_exists = (\<lambda>p. Some (p \<in> {[''/'', ''web''], [''/'', ''web'', ''index.html''], [''/'', ''secret''],
        [''/'', ''web'', ''..'', ''secret'']})),
     fs_is_directory = (\<lambda>p. Some (p = [''/'', ''web''])),
     fs_is_regular_file = (\<lambda>p. Some (p \<in> {[''/'', ''web'', ''index.html''], [''/'', ''secret'']})),
     fs_open = (\<lambda>p. Some ''hello'')\<rparr>"

theorem served_inside_root_witness:
  "default_get demo_fs ''/'' = Serve_File [''/'', ''web'', ''index.html''] ''hello''
   \<and> take 2 [''/'', ''web'', ''index.html''] = [''/'', ''web'']
   \<and> default_get demo_fs ''/../secret'' = Could_Not_Open ''Could not open path /../secret''"
proof -
  have d: "default_get demo_fs ''/'' = Serve_File [''/'', ''web'', ''index.html''] ''hello''"
    "default_get demo_fs ''/../secret'' = Could_Not_Open ''Could not open path /../secret''"
    by (simp_all add: default_get_def demo_fs_def within_root_def)
  have "\<And>a q. fs_canonical demo_fs a = Some q \<Longrightarrow> fs_canonical demo_fs q = Some q"
    "\<And>a q. fs_canonical demo_fs a = Some q \<Longrightarrow>
      fs_elements demo_fs (fs_append demo_fs q ''index.html'') = fs_elements demo_fs q @ [''index.html'']"
    by (auto simp: demo_fs_def)
  from served_inside_root[OF d(1) this] d show ?thesis by (simp add: demo_fs_def numeral_2_eq_2)
qed

text \<open>So the directory is left when an \<^verbatim>\<open>index.html\<close> in it is a link to a regular file outside.\<close>

lemma index_link_served:
  assumes "fs_canonical F (fs_path F ''web'') = Some w" "fs_canonical F (fs_append F w path) = Some w"
    and "fs_exists F (fs_append F w path) = Some True" "fs_is_directory F w = Some True"
    and "p = fs_append F w ''index.html''" "fs_exists F p = Some True" "fs_is_regular_file F p = Some True"
    and "fs_canonical F p = Some outside" "\<not> within_root F w outside" "fs_open F p = Some secret"
  shows "default_get F path = Serve_File p secret"
  using assms by (simp add: default_get_def within_root_def)

lemma send_pieces:
  "0 < B \<Longrightarrow> concat (default_resource_send B (\<lambda>i. None) i buffer ifs) = buffer @ ifs
     \<and> length (default_resource_send B (\<lambda>i. None) i buffer ifs) = length ifs div B + 1
     \<and> (\<forall>w \<in> set (default_resource_send B (\<lambda>i. None) i buffer ifs). length w \<le> length buffer + B)"
proof (induction "length ifs" arbitrary: i buffer ifs rule: less_induct)
  case less
  note step = default_resource_send.simps[of B "\<lambda>i. None" i buffer ifs]
  show ?case
  proof (cases "B \<le> length ifs")
    case True
    define ws where "ws = default_resource_send B (\<lambda>i. None) (Suc i) [] (drop B ifs)"
    have "length (drop B ifs) < length ifs" using True less.prems by simp
    from less.hyps[OF this less.prems, of "Suc i" "[]"]
    have IH: "concat ws = drop B ifs" "length ws = (length ifs - B) div B + 1" "\<forall>w \<in> set ws. length w \<le> B"
      unfolding ws_def by simp_all
    have d: "length ifs div B = Suc ((length ifs - B) div B)" using True less.prems by (simp add: le_div_geq)
    have m: "min B (length ifs) = B" using True by simp
    have "default_resource_send B (\<lambda>i. None) i buffer ifs = (buffer @ take B ifs) # ws"
      unfolding step gcount_def m ws_def using less.prems by simp
    with IH d True show ?thesis by (auto simp: trans_le_add2)
  next
    case False
    then have "default_resource_send B (\<lambda>i. None) i buffer ifs = [buffer @ ifs]"
      unfolding step gcount_def by (auto simp: min_def)
    with False show ?thesis by simp
  qed
qed

lemma file_pieces:
  "concat (default_resource_send 131072 (\<lambda>i. None) i buffer ifs) = buffer @ ifs"
  "length (default_resource_send 131072 (\<lambda>i. None) i buffer ifs) = length ifs div 131072 + 1"
proof -
  have "(0 :: nat) < 131072" by simp
  note send_pieces[OF this, of i buffer ifs]
  then show "concat (default_resource_send 131072 (\<lambda>i. None) i buffer ifs) = buffer @ ifs"
    "length (default_resource_send 131072 (\<lambda>i. None) i buffer ifs) = length ifs div 131072 + 1" by blast+
qed

text \<open>All that is written for a path, put together.\<close>

lemma response_text:
  "concat (response_writes F (\<lambda>i. None) request_path) =
     (case default_get F request_path of
        Thrown \<Rightarrow> []
      | Could_Not_Open content \<Rightarrow> ''HTTP/1.1 400 Bad Request'' @ CRLF @ ''Content-Length: ''
          @ show_nat (length content) @ CRLF @ CRLF @ content
      | Serve_File p content \<Rightarrow> ok_header (length content) @ content)"
proof (cases "default_get F request_path")
  case (Serve_File p content)
  then show ?thesis by (simp only: response_writes_def served.case file_pieces)
qed (simp_all add: response_writes_def bad_request_def)

text \<open>When no write fails, the pieces written for a path put together are exactly the head with the
  length of the content, and the content; a file goes in pieces of at most 128 KB besides the
  head, one for each full 128 KB and one more.\<close>

theorem response_bytes:
  "concat (response_writes F (\<lambda>i. None) request_path) =
     (case default_get F request_path of
        Thrown \<Rightarrow> []
      | Could_Not_Open content \<Rightarrow> ''HTTP/1.1 400 Bad Request'' @ CRLF @ ''Content-Length: ''
          @ show_nat (length content) @ CRLF @ CRLF @ content
      | Serve_File p content \<Rightarrow> ok_header (length content) @ content)
   \<and> (case default_get F request_path of
        Serve_File p content \<Rightarrow> length (response_writes F (\<lambda>i. None) request_path) = length content div 131072 + 1
      | _ \<Rightarrow> length (response_writes F (\<lambda>i. None) request_path) = 1)"
proof (cases "default_get F request_path")
  case (Serve_File p content)
  then show ?thesis by (simp only: response_text response_writes_def served.case file_pieces simp_thms)
qed (simp_all only: response_text, simp_all add: response_writes_def)

text \<open>A GET request is answered from the file system, end to end: the bytes of the request go
  through the parser and the table of resources to the default resource, and the bytes written
  are head and content of the file; a request with any other method is dropped unanswered.\<close>

theorem get_answered:
  assumes "bot_main argv = Inr b" "word_ok method" "word_ok path" "LF \<notin> set version" "list_all header_valid hs"
    and "multimap_find L ''Content-Length'' hs = None"
    and "length (request_text method path version hs []) < size_max"
    and "default_get F path = Serve_File p content"
  shows "request_read L (opt_resource (bot_http b)) (bot_default b) False (request_text method path version hs [])
      (length (request_text method path version hs []))
    = Some (Inr (if method = ''GET'' then Respond () (sent_request method path version hs) None [] else Drop))
    \<and> concat (response_writes F (\<lambda>i. None) (rq_path (sent_request method path version hs)))
      = ok_header (length content) @ content"
proof -
  have b: "opt_resource (bot_http b) = []" "bot_default b = [''GET'' \<mapsto> ()]"
    using assms(1) by (auto simp: bot_main_def Let_def http_server_ctor_def server.defs split: if_splits)
  have "dispatch L [] [''GET'' \<mapsto> ()] (sent_request method path version hs) []
    = (if method = ''GET'' then Respond () (sent_request method path version hs) None [] else Drop)"
    by (simp add: dispatch_def find_resource_def sent_request_def)
  moreover have "concat (response_writes F (\<lambda>i. None) path) = ok_header (length content) @ content"
    by (simp only: response_writes_def assms(8) served.case file_pieces)
  ultimately show ?thesis
    unfolding b using request_read_text[OF assms(2-5,7), where L = L and opt = "[]" and dflt = "[''GET'' \<mapsto> ()]"] assms(6)
    by (simp add: Let_def sent_request_def[THEN arg_cong[of _ _ rq_path]])
qed

theorem get_answered_witness:
  "\<exists>b :: bot. bot_main [''bot'', ''u'', ''p'', ''web''] = Inr b
    \<and> concat (response_writes demo_fs (\<lambda>i. None) ''/'') = ok_header 5 @ ''hello''"
proof -
  obtain b :: bot where b: "bot_main [''bot'', ''u'', ''p'', ''web''] = Inr b"
    by (simp add: bot_main_def Let_def)
  have d: "default_get demo_fs ''/'' = Serve_File [''/'', ''web'', ''index.html''] ''hello''"
    by (simp add: default_get_def demo_fs_def within_root_def)
  have w: "word_ok ''GET''" "word_ok ''/''" "LF \<notin> set ''1.1''" "list_all header_valid []"
    "multimap_find ref_boost ''Content-Length'' [] = None"
    by (simp_all add: word_ok_def multimap_find_def)
  have "length (request_text ''GET'' ''/'' ''1.1'' [] []) < size_max"
    by (simp add: request_text_def request_line_def header_lines_def size_max_def)
  from get_answered[OF b w this d] b show ?thesis by (auto simp: sent_request_def eval_nat_numeral)
qed

text \<open>Which endpoint a path opens: the channel's pattern is tried first, as the map is ordered.\<close>

lemma pattern_order: "channel_pattern < echo_pattern"
  by (simp add: channel_pattern_def echo_pattern_def)

lemma bot_endpoints_order:
  "bot_main argv = Inr b \<Longrightarrow> bot_endpoints b = [(channel_pattern, channel_endpoint), (echo_pattern, echo_endpoint 0)]"
  using pattern_order by (auto simp: bot_main_def Let_def split: if_splits)
end
