(* ===== verification/Ws_Loop.thy ===== *)
theory Ws_Loop
  imports Server_Loop Ws_Handshake
begin

text \<open>
  The WebSocket server of \<^verbatim>\<open>web_socket_server/server_ws.hpp\<close> while it runs: the accept loop and the
  timers of \<open>Server_Loop\<close>, the handshake of \<open>Ws_Handshake\<close> and the connections of \<open>Ws_Connection\<close>,
  composed into one step relation over all sockets. The interface \<open>ws_service\<close> states what the
  server relies on of the callbacks of its endpoints; \<open>logged_endpoint\<close> adds that they leave the
  record of their calls alone, which gives the order of the callbacks.
\<close>

section \<open>State\<close>

text \<open>
  After its request a connection waits for its response to be written, or it has been handed to
  an endpoint, which is named by its position in the map. \<open>callbacks\<close> are those of the
  endpoints in the same order, \<open>conn_match\<close> the member \<open>path_match\<close> of a connection, \<open>remote\<close> its
  address and port, which the constructor leaves without a value. What has arrived on a socket
  and the responses written to them are recorded in \<open>arrived\<close> and \<open>responses\<close>, which no handler reads.
\<close>

datatype ws_stage = No_Endpoint | Writing_Handshake nat string | Serving nat

record ws_loop = ws_server +
  callbacks :: "endpoint list"
  ws_stage :: "nat \<Rightarrow> ws_stage"
  conns :: "nat \<Rightarrow> connection"
  conn_match :: "nat \<Rightarrow> captures"
  remote :: "nat \<Rightarrow> string \<times> 16 word option"
  arrived :: "nat \<Rightarrow> byte list"
  responses :: "nat \<Rightarrow> string"

text \<open>The second timeout of the server's constructor is the one for idle connections.\<close>

definition timeout_idle :: "'a server_scheme \<Rightarrow> nat" where
  "timeout_idle s = nat (timeout_content s)"

definition ws_loop_of :: "endpoint list \<Rightarrow> ws_server \<Rightarrow> ws_loop" where
  "ws_loop_of cbs s = ws_server.extend s
     \<lparr>callbacks = cbs, ws_stage = (\<lambda>k. No_Endpoint), conns = (\<lambda>k. connection_ctor),
      conn_match = (\<lambda>k. Map.empty), remote = (\<lambda>k. ([], None)),
      arrived = (\<lambda>k. []), responses = (\<lambda>k. [])\<rparr>"

definition note_arrived :: "nat \<Rightarrow> byte list \<Rightarrow> 'a ws_loop_scheme \<Rightarrow> 'a ws_loop_scheme" where
  "note_arrived k bs s = s\<lparr>arrived := (arrived s)(k := arrived s k @ bs)\<rparr>"

section \<open>Accept and handshake\<close>

text \<open>
  The address and the port of the peer are asked for one after the other; an exception of either
  is caught, and what has been assigned before it stays.
\<close>

definition read_remote_endpoint_data ::
  "string option \<times> 16 word option \<Rightarrow> string \<times> 16 word option \<Rightarrow> string \<times> 16 word option"
where
  "read_remote_endpoint_data peer old =
     (case peer of
        (None, _) \<Rightarrow> old
      | (Some adr, None) \<Rightarrow> (adr, snd old)
      | (Some adr, Some prt) \<Rightarrow> (adr, Some prt))"

definition ws_loop_accepted ::
  "bool \<Rightarrow> string option \<times> 16 word option \<Rightarrow> nat \<Rightarrow> ws_loop \<Rightarrow> ws_loop result"
where
  "ws_loop_accepted ec peer k s =
     bind_result (ws_accepted ec True k s) (\<lambda>s. Inr
       (if \<not> ec then s\<lparr>remote := (remote s)(k := read_remote_endpoint_data peer (remote s k))\<rparr> else s))"

text \<open>The endpoints the handshake chooses from, each with its position.\<close>

definition numbered :: "'a list \<Rightarrow> ('a \<times> nat) list" where
  "numbered xs = zip xs [0..<length xs]"

definition ws_handshake_read ::
  "boost_lib \<Rightarrow> (string \<Rightarrow> nat list) \<Rightarrow> (string \<Rightarrow> string) \<Rightarrow> bool \<Rightarrow> string \<Rightarrow> nat \<Rightarrow> ws_loop
    \<Rightarrow> ws_loop result option"
where
  "ws_handshake_read L sha1 bio ec buffer k s =
     (let s = (if 0 < timeout_request s then cancel_timer k s else s);
          s = s\<lparr>stage := (stage s)(k := Done)\<rparr>
      in map_option (\<lambda>r. bind_result r (\<lambda>answer. Inr (case answer of
           None \<Rightarrow> s
         | Some (i, path_match, response, rest) \<Rightarrow>
             s\<lparr>conn_match := (conn_match s)(k := path_match),
               ws_stage := (ws_stage s)(k := Writing_Handshake i response),
               conns := (conns s)(k := (conns s k)\<lparr>read_buffer := bytes_of rest\<rparr>)\<rparr>)))
         (handshake_read L sha1 bio (numbered (opt_endpoint s)) ec buffer))"

section \<open>Connections\<close>

text \<open>
  What a handler does to its connection, and to the set of connections of its endpoint: the
  field \<open>registered\<close> of the connection says whether it has been inserted or erased.
\<close>

definition enlist :: "nat \<Rightarrow> bool \<Rightarrow> string \<times> nat set \<Rightarrow> string \<times> nat set" where
  "enlist k member e = (fst e, if member then insert k (snd e) else snd e - {k})"

definition store_conn :: "nat \<Rightarrow> nat \<Rightarrow> connection \<Rightarrow> 'a ws_loop_scheme \<Rightarrow> 'a ws_loop_scheme" where
  "store_conn i k c s = s\<lparr>conns := (conns s)(k := c),
     endpoint_table := (endpoint_table s)[i := enlist k (registered c) (endpoint_table s ! i)]\<rparr>"

definition on_conn :: "nat \<Rightarrow> nat \<Rightarrow> connection result \<Rightarrow> 'a ws_loop_scheme \<Rightarrow> 'a ws_loop_scheme result" where
  "on_conn i k r s = bind_result r (\<lambda>c. Inr (store_conn i k c s))"

text \<open>The handler of the response's write.\<close>

definition ws_handshake_written :: "bool \<Rightarrow> nat \<Rightarrow> 'a ws_loop_scheme \<Rightarrow> 'a ws_loop_scheme result" where
  "ws_handshake_written ec k s =
     (case ws_stage s k of
        Writing_Handshake i response \<Rightarrow>
          on_conn i k (handshake_written (timeout_idle s) (callbacks s ! i) ec (conns s k))
            (s\<lparr>responses := (if \<not> ec then (responses s)(k := response) else responses s),
               ws_stage := (ws_stage s)(k := Serving i)\<rparr>)
      | _ \<Rightarrow> Inr s)"

section \<open>Steps\<close>

text \<open>
  One handler of the server, of any socket: an accept, a timer, the request, the response, a
  read of a connection, its idle timer, a call of \<open>send\<close> or \<open>send_close\<close> by the program, or a
  step of its strand. Operations on a socket a timer has closed end with an error. What is in
  the buffer when the request has been read holds a blank line. The result may be a fault: an
  exception leaves the thread that runs the server.
\<close>

inductive ws_step ::
  "boost_lib \<Rightarrow> (string \<Rightarrow> nat list) \<Rightarrow> (string \<Rightarrow> string) \<Rightarrow> ws_loop \<Rightarrow> ws_loop result \<Rightarrow> bool"
  for L sha1 bio
where
  wl_accept: "k \<in> set (accepting s) \<Longrightarrow> ws_step L sha1 bio s (ws_loop_accepted ec peer k s)"
| wl_expire: "ws_step L sha1 bio s (Inr (timer_expires i s))"
| wl_timeout: "i < length (timers s) \<Longrightarrow> timers s ! i = (k, sec, Queued) \<Longrightarrow>
    ws_step L sha1 bio s (timeout_on_connection peer_connected i s)"
| wl_request: "stage s k = Reading_Request \<Longrightarrow> is_open s k \<or> ec \<Longrightarrow>
    ec \<or> has_blank_line buffer \<and> length buffer < size_max \<Longrightarrow>
    ws_handshake_read L sha1 bio ec buffer k (note_arrived k (if ec then [] else bytes_of buffer) s) = Some r \<Longrightarrow>
    ws_step L sha1 bio s r"
| wl_response: "ws_stage s k = Writing_Handshake i response \<Longrightarrow> is_open s k \<or> ec \<Longrightarrow>
    ws_step L sha1 bio s (ws_handshake_written ec k s)"
| wl_read: "ws_stage s k = Serving i \<Longrightarrow> is_open s k \<or> ec \<Longrightarrow> read_result (phase (conns s k)) ec bytes \<Longrightarrow>
    ws_step L sha1 bio s (on_conn i k (read_done (timeout_idle s) (callbacks s ! i) ec bytes (conns s k))
      (note_arrived k (if ec then [] else bytes) s))"
| wl_idle: "ws_stage s k = Serving i \<Longrightarrow> timer_idle (conns s k) = Waiting \<Longrightarrow>
    ws_step L sha1 bio s (on_conn i k (timer_idle_expired (timeout_idle s) (conns s k)) s)"
| wl_send: "ws_stage s k = Serving i \<Longrightarrow> op \<noteq> 136 \<Longrightarrow>
    ws_step L sha1 bio s (on_conn i k (ws_send (timeout_idle s) op message cb (conns s k)) s)"
| wl_close: "ws_stage s k = Serving i \<Longrightarrow>
    ws_step L sha1 bio s (on_conn i k (send_close (timeout_idle s) status reason (conns s k)) s)"
| wl_task: "ws_stage s k = Serving i \<Longrightarrow> run_task (conns s k) = Some r \<Longrightarrow> ws_step L sha1 bio s (on_conn i k r s)"
| wl_written: "ws_stage s k = Serving i \<Longrightarrow> is_open s k \<or> ec \<Longrightarrow> complete j ec bytes (conns s k) = Some r \<Longrightarrow>
    ws_step L sha1 bio s (on_conn i k r s)"

inductive ws_runs ::
  "boost_lib \<Rightarrow> (string \<Rightarrow> nat list) \<Rightarrow> (string \<Rightarrow> string) \<Rightarrow> ws_loop \<Rightarrow> ws_loop \<Rightarrow> bool"
  for L sha1 bio s
where
  wr_start: "ws_runs L sha1 bio s s"
| wr_step: "ws_runs L sha1 bio s t \<Longrightarrow> ws_step L sha1 bio t (Inr u) \<Longrightarrow> ws_runs L sha1 bio s u"

section \<open>One connection\<close>

text \<open>
  The invariants of a connection, of its reading and of its sending side, are kept by whatever
  the server does with it; its timer is there once it is served.
\<close>

definition conn_ok :: "nat \<Rightarrow> connection \<Rightarrow> bool" where
  "conn_ok T c \<longleftrightarrow> reading_inv T c \<and> send_inv c \<and> has_timer T c"

lemma posts_send_inv: "posts c ds d \<Longrightarrow> send_inv c \<Longrightarrow> send_inv d"
  by (auto simp: posts_def send_inv_def agents_def filter_map comp_def)

lemma acts_send_inv: "acts r c \<Longrightarrow> send_inv c \<Longrightarrow> r = Inr d \<Longrightarrow> send_inv d"
  unfolding acts_def effect_def using posts_send_inv by blast

lemma acts_has_timer: "acts r c \<Longrightarrow> has_timer T c \<Longrightarrow> r = Inr d \<Longrightarrow> has_timer T d"
  by (auto simp: acts_def effect_def has_timer_def)

lemma conn_ok_keeps: "conn_ok T c \<Longrightarrow> acts r c \<Longrightarrow> keeps r c \<Longrightarrow> r = Inr d \<Longrightarrow> conn_ok T d"
  unfolding conn_ok_def using inv_keeps acts_send_inv acts_has_timer by blast

text \<open>The strand leaves the rest of a connection alone.\<close>

lemma more_fields:
  assumes "sender.more d = sender.more c"
  shows "closed d = closed c" "timer_idle d = timer_idle c" "read_buffer d = read_buffer c"
    "phase d = phase c" "registered d = registered c" "events d = events c"
  using assms by (cases c; cases d; simp)+

lemma run_task_more: "run_task c = Some (Inr d) \<Longrightarrow> sender.more d = sender.more c"
  by (auto simp: run_task_def run_post_send_def run_post_write_def send_from_queue_def Let_def
      split: list.splits task.splits if_splits)

lemma call_back_more: "sender.more (call_back f ec c) = sender.more c"
  by (simp add: call_back_def split: option.splits)

lemma complete_more: "complete j ec bs c = Some (Inr d) \<Longrightarrow> sender.more d = sender.more c"
  by (auto simp: complete_def header_written_def message_written_def send_from_queue_def Let_def call_back_more
      split: list.splits write_op.splits if_splits)

lemma reading_inv_more: "sender.more d = sender.more c \<Longrightarrow> reading_inv T c \<Longrightarrow> reading_inv T d"
  using more_fields[of d c] by (simp add: reading_inv_def)

lemma has_timer_more: "sender.more d = sender.more c \<Longrightarrow> has_timer T c \<Longrightarrow> has_timer T d"
  using more_fields[of d c] by (simp add: has_timer_def)

lemma run_task_ok: "conn_ok T c \<Longrightarrow> run_task c = Some r \<Longrightarrow> \<exists>d. r = Inr d \<and> conn_ok T d \<and> sender.more d = sender.more c"
  unfolding conn_ok_def using run_task_inv[of c r] run_task_more[of c] reading_inv_more has_timer_more by blast

lemma complete_ok: "conn_ok T c \<Longrightarrow> complete j ec bs c = Some r \<Longrightarrow> \<exists>d. r = Inr d \<and> conn_ok T d \<and> sender.more d = sender.more c"
  unfolding conn_ok_def using complete_inv[of c j ec bs r] complete_more[of j ec bs c] reading_inv_more has_timer_more by blast

section \<open>The order of the callbacks\<close>

text \<open>
  The contract of a connection with its endpoint as an automaton over the calls: opened first,
  then messages, then one close or one error, after which nothing is called; a connection whose
  response could not be written gets an error without having been opened.
\<close>

datatype life = Fresh | Live | Ended

fun life_step :: "ws_event \<Rightarrow> life option \<Rightarrow> life option" where
  "life_step Opened (Some Fresh) = Some Live"
| "life_step (Received op m) (Some Live) = Some Live"
| "life_step (Closed_With status reason) (Some Live) = Some Ended"
| "life_step Failed (Some Live) = Some Ended"
| "life_step Failed (Some Fresh) = Some Ended"
| "life_step e l = None"

definition life_of :: "ws_event list \<Rightarrow> life option" where
  "life_of es = fold life_step es (Some Fresh)"

lemma life_of_simps [simp]: "life_of [] = Some Fresh" "life_of (es @ [e]) = life_step e (life_of es)"
  by (simp_all add: life_of_def)

text \<open>What an operation adds to the record of calls: nothing, or one call.\<close>

definition logs :: "connection result \<Rightarrow> ws_event list \<Rightarrow> connection \<Rightarrow> bool" where
  "logs r es c \<longleftrightarrow> (\<forall>d. r = Inr d \<longrightarrow> events d = events c @ es)"

lemma logs_Inl [simp]: "logs (Inl f) es c"
  by (simp add: logs_def)

lemma logs_Inr [simp]: "logs (Inr d) es c \<longleftrightarrow> events d = events c @ es"
  by (simp add: logs_def)

lemma logs_bind: "logs r es c \<Longrightarrow> (\<And>d. r = Inr d \<Longrightarrow> logs (f d) fs d) \<Longrightarrow> logs (bind_result r f) (es @ fs) c"
  by (cases r) (simp_all add: logs_def)

lemmas logs_then = logs_bind[where es = "[]", simplified]

lemma logs_from: "logs r es d \<Longrightarrow> events d = events c \<Longrightarrow> logs r es c"
  by (simp add: logs_def)

lemma note_event_events [simp]: "events (note_event e c) = events c @ [e]"
  by (simp add: note_event_def)

lemma post_send_events [simp]: "events (post_send d c) = events c"
  by (simp add: post_send_def)

lemma logs_timer: "logs (timer_idle_reset T c) [] c" "logs (timer_idle_cancel T c) [] c"
  by (auto simp: timer_idle_reset_def timer_idle_cancel_def split: timer.splits)

lemma logs_ws_send: "logs (ws_send T op m cb c) [] c"
  unfolding ws_send_def by (rule logs_then) (simp_all add: logs_timer)

lemma logs_send_close: "logs (send_close T status reason c) [] c"
  using logs_ws_send[of T 136 "close_payload status reason" None "c\<lparr>closed := True\<rparr>"]
  by (simp add: send_close_def logs_def)

lemma logs_expired: "logs (timer_idle_expired T c) [] c"
  unfolding timer_idle_expired_def by (rule logs_from[OF logs_send_close]) simp

lemma logs_stop: "logs r es c \<Longrightarrow> logs (stop_reading r) es c"
  unfolding stop_reading_def using logs_bind[of r es c _ "[]"] by simp

text \<open>A read that goes on has called at most the message callback, one that ends has called
  exactly the close or the error callback.\<close>

definition last_call :: "connection \<Rightarrow> ws_event list \<Rightarrow> bool" where
  "last_call d es \<longleftrightarrow> (if phase d = Not_Reading then (\<exists>st re. es = [Closed_With st re]) \<or> es = [Failed]
     else es = [] \<or> (\<exists>op m. es = [Received op m]))"

text \<open>Endpoints that have all four callbacks, none of which tampers with the record.\<close>

locale logged_endpoint = ws_endpoint +
  assumes has_open: "\<exists>h. onopen ep = Some h \<and> (\<forall>c. logs (h c) [] c)"
    and has_message: "\<exists>h. onmessage ep = Some h \<and> (\<forall>op m c. logs (h op m c) [] c)"
    and has_error: "\<exists>h. onerror ep = Some h \<and> (\<forall>c. logs (h c) [] c)"
    and has_close: "\<exists>h. onclose ep = Some h \<and> (\<forall>status reason c. logs (h status reason c) [] c)"
begin

lemma logs_open: "logs (connection_open T ep c) [Opened] c"
proof -
  obtain h where h: "onopen ep = Some h" "\<And>c. logs (h c) [] c" using has_open by blast
  have "events ((timer_idle_init T c)\<lparr>registered := True\<rparr>) = events c" by (simp add: timer_idle_init_def)
  with h(2)[of "note_event Opened ((timer_idle_init T c)\<lparr>registered := True\<rparr>)"] show ?thesis
    by (simp add: connection_open_def h(1) Let_def logs_def)
qed

lemma logs_close: "logs (connection_close T ep status reason c) [Closed_With status reason] c"
proof -
  obtain h where h: "onclose ep = Some h" "\<And>st r c. logs (h st r c) [] c" using has_close by blast
  have "logs (h status reason (note_event e (d\<lparr>registered := False\<rparr>))) [e] d" for e d
    using h(2)[of status reason "note_event e (d\<lparr>registered := False\<rparr>)"] by (simp add: logs_def)
  then show ?thesis
    unfolding connection_close_def by (intro logs_then[OF logs_timer(2)]) (simp add: h(1) Let_def)
qed

lemma logs_error: "logs (connection_error T ep c) [Failed] c"
proof -
  obtain h where h: "onerror ep = Some h" "\<And>c. logs (h c) [] c" using has_error by blast
  have "logs (h (note_event e (d\<lparr>registered := False\<rparr>))) [e] d" for e d
    using h(2)[of "note_event e (d\<lparr>registered := False\<rparr>)"] by (simp add: logs_def)
  then show ?thesis
    unfolding connection_error_def by (intro logs_then[OF logs_timer(2)]) (simp add: h(1) Let_def)
qed

lemma logs_message:
  "logs (case onmessage ep of None \<Rightarrow> Inr c
     | Some h \<Rightarrow> bind_result (timer_idle_reset T c) (\<lambda>c. h op m (note_event (Received op m) c))) [Received op m] c"
proof -
  obtain h where h: "onmessage ep = Some h" "\<And>op m c. logs (h op m c) [] c" using has_message by blast
  have "logs (h op m (note_event (Received op m) d)) [Received op m] d" for d
    using h(2)[of op m "note_event (Received op m) d"] by (simp add: logs_def)
  then show ?thesis using h(1) by (simp add: logs_then[OF logs_timer(1)])
qed

lemma logs_closing:
  "logs (stop_reading (bind_result (send_close T status reason c) (connection_close T ep status reason)))
     [Closed_With status reason] c"
  by (intro logs_stop logs_then[OF logs_send_close] logs_close)

end

lemma stop_phase: "stop_reading r = Inr d \<Longrightarrow> phase d = Not_Reading"
  by (auto simp: stop_reading_def bind_result_eq_Inr)

lemma stopped_call: "logs (stop_reading r) [e] c \<Longrightarrow> stop_reading r = Inr d \<Longrightarrow>
    (\<exists>st re. e = Closed_With st re) \<or> e = Failed \<Longrightarrow> \<exists>es. events d = events c @ es \<and> last_call d es"
  unfolding last_call_def using stop_phase[of r d] by (auto simp: logs_def)

context logged_endpoint
begin

lemma read_stopped:
  "stop_reading (connection_error T ep c) = Inr d \<Longrightarrow> \<exists>es. events d = events c @ es \<and> last_call d es"
  "stop_reading (bind_result (send_close T st re c') (connection_close T ep st re)) = Inr d \<Longrightarrow>
     events c' = events c \<Longrightarrow> \<exists>es. events d = events c @ es \<and> last_call d es"
  using stopped_call[OF logs_stop[OF logs_error]] stopped_call[OF logs_from[OF logs_closing]] by blast+

lemma logs_read:
  assumes "read_done T ep ec bytes c = Inr d" "phase c \<noteq> Not_Reading"
  shows "\<exists>es. events d = events c @ es \<and> last_call d es"
proof (cases "phase c")
  case Read_Head
  with assms show ?thesis
    by (auto simp: read_done_def on_head_def Let_def last_call_def[of _ "[]"]
        intro: read_stopped exI[of _ "[]"] split: if_splits head.splits)
next
  case (Read_Length n op)
  with assms show ?thesis
    by (auto simp: read_done_def on_length_def Let_def bind_result_eq_Inr last_call_def[of _ "[]"]
        intro: read_stopped exI[of _ "[]"] split: if_splits)
next
  case (Read_Content len op)
  define b where "b = c\<lparr>read_buffer := drop (4 + len) (read_buffer c @ bytes)\<rparr>"
  define m where "m = unmask (take 4 (read_buffer c @ bytes)) (take len (drop 4 (read_buffer c @ bytes)))"
  have b: "events b = events c" by (simp add: b_def)
  from assms(1) Read_Content have oc: "on_content T ep len op ec bytes c = Inr d" by (simp add: read_done_def)
  have next_read: "\<exists>es. events d = events c @ es \<and> last_call d es"
    if "logs r es b" "es = [] \<or> (\<exists>op m. es = [Received op m])"
      "bind_result r (\<lambda>c. Inr (c\<lparr>phase := Read_Head\<rparr>)) = Inr d" for r es
    using that b by (auto simp: bind_result_eq_Inr logs_def last_call_def)
  show ?thesis
    using oc b unfolding on_content_def Let_def b_def[symmetric] m_def[symmetric]
    by (auto intro: read_stopped next_read[OF logs_ws_send] next_read[OF logs_message]
        split: if_splits prod.splits simp del: option.case)
qed (use assms(2) in simp)

lemma life_read:
  assumes "read_done T ep ec bytes c = Inr d" "phase c \<noteq> Not_Reading" "life_of (events c) = Some Live"
  shows "life_of (events d) = Some (if phase d = Not_Reading then Ended else Live)"
  using logs_read[OF assms(1,2)] assms(3) by (auto simp: last_call_def split: if_splits)

lemma life_handshake:
  assumes "handshake_written T ep ec c = Inr d" "events c = []" "phase c = Not_Reading"
  shows "life_of (events d) = Some (if phase d = Not_Reading then Ended else Live)"
proof (cases ec)
  case True
  then have e: "connection_error T ep c = Inr d" using assms(1) by (simp add: handshake_written_def)
  have "benign h" if "onerror ep = Some h" for h using that by (rule benign_error)
  with e assms(3) have "phase d = Not_Reading"
    by (auto simp: connection_error_def timer_idle_cancel_def benign_def Let_def split: if_splits option.splits)
  with logs_error[of c] e assms(2) show ?thesis by (simp add: logs_def life_of_def)
next
  case False
  with assms logs_open[of c] show ?thesis
    by (auto simp: handshake_written_def read_message_def bind_result_eq_Inr logs_def life_of_def)
qed

end

section \<open>The interface of a service\<close>

text \<open>
  What the server relies on of its endpoints. In a safe service the callbacks also return, with the
  idle timeout \<open>T\<close> of the server.
\<close>

locale ws_service =
  fixes cbs :: "endpoint list"
  assumes endpoints: "ep \<in> set cbs \<Longrightarrow> logged_endpoint ep"

locale safe_ws_service = ws_service +
  fixes T :: nat
  assumes safe: "ep \<in> set cbs \<Longrightarrow> safe_ws_endpoint T ep"

section \<open>The invariant of the server\<close>

definition life_at :: "nat \<Rightarrow> ws_loop \<Rightarrow> life" where
  "life_at k s = (case ws_stage s k of
     Serving i \<Rightarrow> if registered (conns s k) then Live else Ended | _ \<Rightarrow> Fresh)"

definition socket_ok :: "nat \<Rightarrow> ws_loop \<Rightarrow> bool" where
  "socket_ok k s \<longleftrightarrow> life_of (events (conns s k)) = Some (life_at k s) \<and>
     (case ws_stage s k of
        No_Endpoint \<Rightarrow> conns s k = connection_ctor
      | Writing_Handshake i response \<Rightarrow> stage s k = Done \<and> i < length (callbacks s)
          \<and> (\<exists>b. conns s k = connection_ctor\<lparr>read_buffer := b\<rparr>)
      | Serving i \<Rightarrow> stage s k = Done \<and> i < length (callbacks s) \<and> conn_ok (timeout_idle s) (conns s k))"

text \<open>An endpoint lists exactly the connections that are registered with it.\<close>

definition table_ok :: "ws_loop \<Rightarrow> bool" where
  "table_ok s \<longleftrightarrow> length (endpoint_table s) = length (callbacks s)
     \<and> opt_endpoint s = map fst (endpoint_table s)
     \<and> (\<forall>i < length (callbacks s).
          snd (endpoint_table s ! i) = {k. ws_stage s k = Serving i \<and> registered (conns s k)})"

definition ws_inv :: "nat \<Rightarrow> endpoint list \<Rightarrow> ws_loop \<Rightarrow> bool" where
  "ws_inv T cbs s \<longleftrightarrow> loop_inv s \<and> timeout_idle s = T \<and> callbacks s = cbs \<and> table_ok s
     \<and> (\<forall>k. socket_ok k s) \<and> (\<forall>k \<ge> next_socket s. stage s k = Unused \<and> ws_stage s k = No_Endpoint)"

lemma life_ctor [simp]: "life_of (events connection_ctor) = Some Fresh"
  by (simp add: connection_ctor_def)

text \<open>Handlers of the accept loop leave what belongs to the connections alone.\<close>

lemma server_more_fields:
  fixes s s' :: ws_loop
  assumes "server.more s' = server.more s"
  shows "callbacks s' = callbacks s" "ws_stage s' = ws_stage s" "conns s' = conns s"
    "endpoint_table s' = endpoint_table s" "opt_endpoint s' = opt_endpoint s"
  using assms by (cases s; cases s'; simp)+

lemma loop_inv_same:
  "server.truncate s' = server.truncate s \<Longrightarrow> loop_inv s' = loop_inv s"
  unfolding server.truncate_def loop_inv_def one_accept_def timers_ok_def timed_def has_timer_on_def by simp

lemma ws_inv_server:
  assumes "ws_inv T cbs s" "server.more s' = server.more s" "timeout_content s' = timeout_content s"
    "loop_inv s'" "next_socket s \<le> next_socket s'" "\<And>k. stage s k = Done \<Longrightarrow> ws_stage s k \<noteq> No_Endpoint \<Longrightarrow> stage s' k = Done"
    "\<And>k. next_socket s' \<le> k \<Longrightarrow> stage s k = Unused \<Longrightarrow> stage s' k = Unused"
  shows "ws_inv T cbs s'"
proof -
  note f = server_more_fields[OF assms(2)]
  have "socket_ok k s'" for k
  proof -
    have "socket_ok k s" using assms(1) by (simp add: ws_inv_def)
    with assms(3) assms(6)[of k] f show ?thesis
      by (cases "ws_stage s k") (simp_all add: socket_ok_def life_at_def timeout_idle_def)
  qed
  moreover have "table_ok s'" using assms(1) f by (simp add: ws_inv_def table_ok_def)
  ultimately show ?thesis using assms f by (simp add: ws_inv_def timeout_idle_def)
qed

text \<open>The records are of no account.\<close>

lemma records_inv [simp]:
  "ws_inv T cbs (note_arrived k bs s) = ws_inv T cbs s" "ws_inv T cbs (s\<lparr>responses := r\<rparr>) = ws_inv T cbs s"
proof -
  have "loop_inv (note_arrived k bs s) = loop_inv s" "loop_inv (s\<lparr>responses := r\<rparr>) = loop_inv s"
    by (rule loop_inv_same; simp add: server.truncate_def note_arrived_def)+
  then show "ws_inv T cbs (note_arrived k bs s) = ws_inv T cbs s" "ws_inv T cbs (s\<lparr>responses := r\<rparr>) = ws_inv T cbs s"
    by (simp_all add: ws_inv_def socket_ok_def life_at_def table_ok_def timeout_idle_def note_arrived_def
        cong: ws_stage.case_cong)
qed

lemma note_arrived_fields [simp]:
  "ws_stage (note_arrived k bs s) = ws_stage s" "conns (note_arrived k bs s) = conns s"
  "conn_match (note_arrived k bs s) = conn_match s" "stage (note_arrived k bs s) = stage s"
  "is_open (note_arrived k bs s) = is_open s" "callbacks (note_arrived k bs s) = callbacks s"
  "timeout_idle (note_arrived k bs s) = timeout_idle s" "timers (note_arrived k bs s) = timers s"
  "opt_endpoint (note_arrived k bs s) = opt_endpoint s" "responses (note_arrived k bs s) = responses s"
  by (simp_all add: note_arrived_def timeout_idle_def)

text \<open>A handler of a connection stores its result.\<close>

lemma life_at_other:
  "j \<noteq> k \<Longrightarrow> life_at j (store_conn i k c (s\<lparr>ws_stage := (ws_stage s)(k := Serving i)\<rparr>)) = life_at j s"
  by (simp add: life_at_def store_conn_def)

lemma store_inv:
  assumes inv: "ws_inv T cbs s" and st: "ws_stage s k = Serving i \<or> (\<exists>r. ws_stage s k = Writing_Handshake i r)"
    and c: "conn_ok T c" "life_of (events c) = Some (if registered c then Live else Ended)"
  shows "ws_inv T cbs (store_conn i k c (s\<lparr>ws_stage := (ws_stage s)(k := Serving i)\<rparr>))" (is "ws_inv T cbs ?s")
proof -
  have ok: "socket_ok j s" for j using inv by (simp add: ws_inv_def)
  have "callbacks s = cbs" using inv by (simp add: ws_inv_def)
  with ok[of k] st have k: "stage s k = Done" "i < length cbs" by (auto simp: socket_ok_def)
  have "socket_ok j ?s" for j
  proof (cases "j = k")
    case True
    with k c inv show ?thesis
      by (simp add: socket_ok_def life_at_def store_conn_def ws_inv_def timeout_idle_def)
  next
    case False
    then have "socket_ok j ?s = socket_ok j s"
      by (cases "ws_stage s j") (simp_all add: socket_ok_def life_at_def store_conn_def timeout_idle_def)
    with ok show ?thesis by simp
  qed
  moreover have "table_ok ?s"
    using inv k(2) st by (auto simp: ws_inv_def table_ok_def store_conn_def enlist_def nth_list_update list_eq_iff_nth_eq)
  moreover have "loop_inv ?s"
    using inv loop_inv_same[of ?s s] by (simp add: ws_inv_def store_conn_def server.truncate_def)
  moreover have "stage ?s j = Unused \<and> ws_stage ?s j = No_Endpoint" if "next_socket s \<le> j" for j
  proof -
    from that inv have "stage s j = Unused" "ws_stage s j = No_Endpoint" by (simp_all add: ws_inv_def)
    with st show ?thesis by (auto simp: store_conn_def)
  qed
  ultimately show ?thesis using inv by (simp add: ws_inv_def store_conn_def timeout_idle_def)
qed

section \<open>The steps keep the invariant\<close>

text \<open>Handlers of a connection that is served.\<close>

lemma store_serving:
  assumes "ws_inv T cbs s" "ws_stage s k = Serving i"
    and "conn_ok T c" "life_of (events c) = Some (if registered c then Live else Ended)"
  shows "ws_inv T cbs (store_conn i k c s)"
proof -
  have "s\<lparr>ws_stage := (ws_stage s)(k := Serving i)\<rparr> = s" using assms(2) fun_upd_triv[of "ws_stage s" k] by simp
  with store_inv[OF assms(1) disjI1[OF assms(2)] assms(3,4)] show ?thesis by simp
qed

lemma serving_ok:
  assumes "ws_inv T cbs s" "ws_stage s k = Serving i"
  shows "conn_ok T (conns s k)" "life_of (events (conns s k)) = Some (if registered (conns s k) then Live else Ended)"
    "i < length cbs" "callbacks s = cbs" "timeout_idle s = T"
proof -
  have "socket_ok k s" and s: "callbacks s = cbs" "timeout_idle s = T" using assms(1) by (simp_all add: ws_inv_def)
  with assms(2) show "conn_ok T (conns s k)"
    "life_of (events (conns s k)) = Some (if registered (conns s k) then Live else Ended)" "i < length cbs"
    by (simp_all add: socket_ok_def life_at_def)
qed (use assms(1) in \<open>simp_all add: ws_inv_def\<close>)

lemma keeping_inv:
  assumes "ws_inv T cbs s" "ws_stage s k = Serving i" "on_conn i k r s = Inr s'"
    and r: "acts r (conns s k)" "keeps r (conns s k)" "logs r [] (conns s k)"
  shows "ws_inv T cbs s'"
proof -
  note ok = serving_ok[OF assms(1,2)]
  obtain c where c: "r = Inr c" "s' = store_conn i k c s"
    using assms(3) by (auto simp: on_conn_def bind_result_eq_Inr)
  have "conn_ok T c" using conn_ok_keeps[OF ok(1) r(1,2) c(1)] .
  moreover have "life_of (events c) = Some (if registered c then Live else Ended)"
    using r(2,3) c(1) ok(2) by (simp add: keeps_def)
  ultimately show ?thesis unfolding c(2) by (rule store_serving[OF assms(1,2)])
qed

lemma strand_inv:
  assumes "ws_inv T cbs s" "ws_stage s k = Serving i" "on_conn i k r s = Inr s'"
    and "\<exists>d. r = Inr d \<and> conn_ok T d \<and> sender.more d = sender.more (conns s k)"
  shows "ws_inv T cbs s'"
proof -
  obtain d where d: "r = Inr d" "conn_ok T d" "sender.more d = sender.more (conns s k)" using assms(4) by blast
  have "life_of (events d) = Some (if registered d then Live else Ended)"
    using serving_ok(2)[OF assms(1,2)] more_fields[OF d(3)] by simp
  with d(1,2) assms(3) show ?thesis
    by (auto simp: on_conn_def intro: store_serving[OF assms(1,2)])
qed

text \<open>Handlers of the accept loop and the request.\<close>

lemma cancel_only: "loop_inv s \<Longrightarrow> stage s k \<noteq> Accepting \<Longrightarrow>
    loop_inv (let s = (if 0 < timeout_request s then cancel_timer k s else s) in s\<lparr>stage := (stage s)(k := Done)\<rparr>)"
  by (rule loop_inv_wait[of s k]) (auto intro: starts_after[OF only_cancel_timer starts_done] starts_done simp: Let_def)

lemma accepted_server:
  assumes "ws_inv T cbs s" "k \<in> set (accepting s)" "ws_loop_accepted ec peer k s = Inr s'"
  shows "ws_inv T cbs s'"
proof -
  obtain t where t: "ws_accepted ec True k s = Inr t"
    and s': "s' = (if \<not> ec then t\<lparr>remote := (remote t)(k := read_remote_endpoint_data peer (remote t k))\<rparr> else t)"
    using assms(3) by (auto simp: ws_loop_accepted_def bind_result_eq_Inr)
  have l: "one_accept s" "timers_ok s" using assms(1) by (simp_all add: ws_inv_def loop_inv_def)
  have t': "loop_inv t" "next_socket t = Suc (next_socket s)"
    using ws.accepted_ok[OF l assms(2) t] by (simp_all add: loop_inv_def)
  have "stage s k = Accepting" "k < next_socket s" using l(1) assms(2) by (auto simp: one_accept_def)
  then have d: "stage s j = Done \<Longrightarrow> ws_stage s j \<noteq> No_Endpoint \<Longrightarrow> stage t j = Done" for j
    using t assms(1)
    by (auto simp: ws_accepted_def Let_def read_handshake_def take_accept_def new_accept_def set_timeout_def
        ws_inv_def split: if_splits)
  have m: "server.more t = server.more s" "timeout_content t = timeout_content s"
    using t by (auto simp: ws_accepted_def Let_def read_handshake_def take_accept_def new_accept_def set_timeout_def
        split: if_splits)
  have u: "stage s j = Unused \<Longrightarrow> next_socket t \<le> j \<Longrightarrow> stage t j = Unused" for j
    using t \<open>k < next_socket s\<close>
    by (auto simp: ws_accepted_def Let_def read_handshake_def take_accept_def new_accept_def set_timeout_def
        split: if_splits)
  have inv: "ws_inv T cbs t" by (rule ws_inv_server[OF assms(1) m t'(1)]) (use t' d u in auto)
  have "ws_inv T cbs (t\<lparr>remote := x\<rparr>) = ws_inv T cbs t" for x
    using loop_inv_same[of "t\<lparr>remote := x\<rparr>" t]
    by (simp add: ws_inv_def socket_ok_def life_at_def table_ok_def timeout_idle_def server.truncate_def cong: ws_stage.case_cong)
  with inv s' show ?thesis by simp
qed

lemma numbered_set: "(x, i) \<in> set (numbered xs) \<longleftrightarrow> i < length xs \<and> x = xs ! i"
  by (auto simp: numbered_def set_zip)

lemma write_handshake_endpoint:
  "write_handshake L sha1 bio eps hs = Inr (Some (ep, pm, text)) \<Longrightarrow>
   \<exists>pat. (pat, ep) \<in> set eps \<and> bx_match L pat (hs_path hs) = Some pm"
  by (induction eps) (auto simp: bind_result_eq_Inr split: option.splits)

lemma handshake_read_endpoint:
  assumes "handshake_read L sha1 bio eps ec buffer = Some (Inr (Some (i, pm, text, rest)))"
  shows "\<exists>pat. (pat, i) \<in> set eps"
proof -
  obtain hs st where w: "write_handshake L sha1 bio eps hs = Inr (Some (i, pm, text))"
    using assms by (auto simp: handshake_read_def bind_result_eq_Inr split: if_splits)
  from write_handshake_endpoint[OF w] show ?thesis by blast
qed

lemma request_inv:
  assumes "ws_inv T cbs s" "stage s k = Reading_Request" "ws_handshake_read L sha1 bio ec buffer k s = Some (Inr s')"
  shows "ws_inv T cbs s'"
proof -
  define t where "t = (let s = (if 0 < timeout_request s then cancel_timer k s else s) in s\<lparr>stage := (stage s)(k := Done)\<rparr>)"
  have "loop_inv t" unfolding t_def using assms(1,2) by (intro cancel_only) (simp_all add: ws_inv_def)
  then have t: "ws_inv T cbs t"
    by (rule ws_inv_server[OF assms(1), rotated 2])
      (use assms(1,2) in \<open>auto simp: t_def Let_def cancel_timer_def ws_inv_def\<close>)
  have k: "ws_stage t k = No_Endpoint" "stage t k = Done" "conns t k = connection_ctor"
  proof -
    have "ws_stage s k = No_Endpoint"
    proof -
      have "socket_ok k s" using assms(1) by (simp add: ws_inv_def)
      with assms(2) show ?thesis by (cases "ws_stage s k") (simp_all add: socket_ok_def)
    qed
    then show "ws_stage t k = No_Endpoint" by (simp add: t_def Let_def cancel_timer_def)
    moreover have "socket_ok k t" using t by (simp add: ws_inv_def)
    ultimately show "conns t k = connection_ctor" by (simp add: socket_ok_def)
  qed (simp add: t_def Let_def)
  have opt: "opt_endpoint t = map fst (endpoint_table t)" "length (endpoint_table t) = length cbs" "callbacks t = cbs"
    using t by (simp_all add: ws_inv_def table_ok_def)
  have "ws_handshake_read L sha1 bio ec buffer k s = map_option (\<lambda>r. bind_result r (\<lambda>answer. Inr (case answer of
           None \<Rightarrow> t
         | Some (i, path_match, response, rest) \<Rightarrow>
             t\<lparr>conn_match := (conn_match t)(k := path_match),
               ws_stage := (ws_stage t)(k := Writing_Handshake i response),
               conns := (conns t)(k := (conns t k)\<lparr>read_buffer := bytes_of rest\<rparr>)\<rparr>)))
         (handshake_read L sha1 bio (numbered (opt_endpoint t)) ec buffer)"
    unfolding ws_handshake_read_def t_def Let_def by (rule refl)
  with assms(3) obtain a where a: "handshake_read L sha1 bio (numbered (opt_endpoint t)) ec buffer = Some (Inr a)"
    and s': "s' = (case a of None \<Rightarrow> t
         | Some (i, path_match, response, rest) \<Rightarrow>
             t\<lparr>conn_match := (conn_match t)(k := path_match),
               ws_stage := (ws_stage t)(k := Writing_Handshake i response),
               conns := (conns t)(k := (conns t k)\<lparr>read_buffer := bytes_of rest\<rparr>)\<rparr>)"
    by (auto simp: bind_result_eq_Inr)
  show ?thesis
  proof (cases a)
    case (Some x)
    obtain i pm resp rest where x: "x = (i, pm, resp, rest)" by (cases x)
    have i: "i < length cbs" using handshake_read_endpoint a Some x opt by (fastforce simp: numbered_set)
    have e: "s' = t\<lparr>conn_match := (conn_match t)(k := pm), ws_stage := (ws_stage t)(k := Writing_Handshake i resp),
       conns := (conns t)(k := connection_ctor\<lparr>read_buffer := bytes_of rest\<rparr>)\<rparr>"
      using s' Some x k(3) by simp
    have "socket_ok j s'" for j
    proof (cases "j = k")
      case True
      with i k(2) opt(3) show ?thesis unfolding e by (auto simp: socket_ok_def life_at_def connection_ctor_def)
    next
      case False
      then have "socket_ok j s' = socket_ok j t"
        unfolding e by (cases "ws_stage t j") (simp_all add: socket_ok_def life_at_def timeout_idle_def)
      with t show ?thesis by (simp add: ws_inv_def)
    qed
    moreover have "table_ok s'"
    proof -
      have "{j. ws_stage s' j = Serving m \<and> registered (conns s' j)} = {j. ws_stage t j = Serving m \<and> registered (conns t j)}" for m
        unfolding e using k(1) by auto
      with t show ?thesis unfolding e by (simp add: ws_inv_def table_ok_def)
    qed
    moreover have "loop_inv s'"
      using t loop_inv_same[of s' t] unfolding e by (simp add: ws_inv_def server.truncate_def)
    moreover have "k < next_socket t"
    proof (rule ccontr)
      assume "\<not> k < next_socket t"
      then have "stage t k = Unused" using t by (simp add: ws_inv_def)
      with k(2) show False by simp
    qed
    ultimately show ?thesis using t unfolding e by (simp add: ws_inv_def timeout_idle_def)
  qed (use t s' in simp)
qed

lemma timer_steps:
  assumes "ws_inv T cbs s"
  shows "ws_inv T cbs (timer_expires i s)" "i < length (timers s) \<Longrightarrow> ws_inv T cbs (timeout_on_socket i s)"
proof -
  have l: "timers_ok s" "one_accept s" using assms by (simp_all add: ws_inv_def loop_inv_def)
  show "ws_inv T cbs (timer_expires i s)"
    by (rule ws_inv_server[OF assms])
      (use l expire_ok[of s i] in \<open>auto simp: loop_inv_def timer_expires_def split: prod.splits\<close>)
  show "ws_inv T cbs (timeout_on_socket i s)" if "i < length (timers s)"
    by (rule ws_inv_server[OF assms])
      (use l timeout_ok[of s i] that in \<open>auto simp: loop_inv_def timeout_on_socket_def split: prod.splits\<close>)
qed

lemma send_inv_ctor: "send_inv (connection_ctor\<lparr>read_buffer := b\<rparr>)"
  by (simp add: send_inv_def agents_def connection_ctor_def)

context ws_endpoint
begin

lemma handshake_timer:
  assumes "handshake_written T ep ec c = Inr d" "timer_idle c = Null_Timer"
  shows "has_timer T d"
proof (cases ec)
  case True
  with assms have "\<not> 0 < T"
    by (cases "0 < T") (simp_all add: handshake_written_def connection_error_def timer_idle_cancel_def)
  then show ?thesis by (simp add: has_timer_def)
next
  case False
  with assms(1) have "reading_inv T d" "registered d"
    using handshake_inv[of c d] by (auto simp: handshake_written_def read_message_def bind_result_eq_Inr reading_inv_def)
  then show ?thesis by (simp add: reading_inv_def has_timer_def)
qed

lemma handshake_reading:
  assumes "handshake_written T ep ec c = Inr d" "phase c = Not_Reading"
  shows "reading_inv T d"
proof (cases ec)
  case True
  with assms(1) have e: "connection_error T ep c = Inr d" by (simp add: handshake_written_def)
  have "\<not> registered d" using leaves_error[of c] e by (simp add: leaves_def)
  moreover have "benign h" if "onerror ep = Some h" for h using that by (rule benign_error)
  with e assms(2) have "phase d = Not_Reading"
    by (auto simp: connection_error_def timer_idle_cancel_def benign_def Let_def split: if_splits option.splits)
  ultimately show ?thesis by (simp add: reading_inv_def)
qed (use assms(1) handshake_inv in simp)

end

context ws_service
begin

lemma endpoint_at: "i < length cbs \<Longrightarrow> logged_endpoint (cbs ! i)" "i < length cbs \<Longrightarrow> ws_endpoint (cbs ! i)"
  using endpoints[of "cbs ! i"] by (simp_all add: logged_endpoint_def)

lemma written_inv:
  assumes "ws_inv T cbs s" "ws_handshake_written ec k s = Inr s'"
  shows "ws_inv T cbs s'"
proof (cases "ws_stage s k")
  case (Writing_Handshake i response)
  have s: "callbacks s = cbs" "timeout_idle s = T" "socket_ok k s" using assms(1) by (simp_all add: ws_inv_def)
  with Writing_Handshake obtain b where i: "i < length cbs" and b: "conns s k = connection_ctor\<lparr>read_buffer := b\<rparr>"
    by (auto simp: socket_ok_def)
  define s1 where "s1 = s\<lparr>responses := (if \<not> ec then (responses s)(k := response) else responses s)\<rparr>"
  have s1: "ws_inv T cbs s1" "ws_stage s1 k = Writing_Handshake i response"
    using assms(1) Writing_Handshake by (simp_all add: s1_def)
  obtain d where d: "handshake_written T (cbs ! i) ec (conns s k) = Inr d"
    "s' = store_conn i k d (s1\<lparr>ws_stage := (ws_stage s1)(k := Serving i)\<rparr>)"
    using assms(2) Writing_Handshake s by (auto simp: ws_handshake_written_def on_conn_def bind_result_eq_Inr s1_def)
  have c: "phase (conns s k) = Not_Reading" "events (conns s k) = []" "send_inv (conns s k)"
    unfolding b by (simp_all add: connection_ctor_def send_inv_def agents_def)
  have r: "reading_inv T d" using ws_endpoint.handshake_reading[OF endpoint_at(2)[OF i] d(1) c(1)] .
  moreover have "send_inv d"
    using acts_send_inv[OF ws_endpoint.acts_handshake[OF endpoint_at(2)[OF i]] c(3) d(1)] .
  moreover have "has_timer T d" using ws_endpoint.handshake_timer[OF endpoint_at(2)[OF i] d(1)] b
    by (simp add: connection_ctor_def)
  moreover have "life_of (events d) = Some (if registered d then Live else Ended)"
    using logged_endpoint.life_handshake[OF endpoint_at(1)[OF i] d(1) c(2,1)] r by (auto simp: reading_inv_def)
  ultimately show ?thesis
    unfolding d(2) using s1 by (intro store_inv[OF s1(1)]) (simp_all add: conn_ok_def)
qed (use assms in \<open>simp_all add: ws_handshake_written_def\<close>)

lemma read_inv:
  assumes "ws_inv T cbs s" "ws_stage s k = Serving i" "phase (conns s k) \<noteq> Not_Reading"
    and "on_conn i k (read_done T (cbs ! i) ec bytes (conns s k)) s = Inr s'"
  shows "ws_inv T cbs s'"
proof -
  note ok = serving_ok[OF assms(1,2)]
  obtain d where d: "read_done T (cbs ! i) ec bytes (conns s k) = Inr d" "s' = store_conn i k d s"
    using assms(4) by (auto simp: on_conn_def bind_result_eq_Inr)
  have c: "reading_inv T (conns s k)" "send_inv (conns s k)" using ok(1) by (simp_all add: conn_ok_def)
  have r: "reading_inv T d" using ws_endpoint.read_done_inv[OF endpoint_at(2)[OF ok(3)] c(1) d(1)] .
  moreover have "send_inv d"
    using acts_send_inv[OF ws_endpoint.acts_read_done[OF endpoint_at(2)[OF ok(3)]] c(2) d(1)] .
  moreover have "has_timer T d"
    using acts_has_timer[OF ws_endpoint.acts_read_done[OF endpoint_at(2)[OF ok(3)]] _ d(1)] ok(1)
    by (simp add: conn_ok_def)
  moreover have "life_of (events (conns s k)) = Some Live" using ok(2) c(1) assms(3) by (simp add: reading_inv_def)
  from logged_endpoint.life_read[OF endpoint_at(1)[OF ok(3)] d(1) assms(3) this]
  have "life_of (events d) = Some (if registered d then Live else Ended)" using r by (auto simp: reading_inv_def)
  ultimately show ?thesis
    unfolding d(2) by (intro store_serving[OF assms(1,2)]) (simp_all add: conn_ok_def)
qed

lemma step_inv: "ws_step L sha1 bio s r \<Longrightarrow> r = Inr s' \<Longrightarrow> ws_inv T cbs s \<Longrightarrow> ws_inv T cbs s'"
proof (induction rule: ws_step.induct)
  case (wl_accept k s ec peer)
  then show ?case using accepted_server by blast
next
  case (wl_expire s i)
  then show ?case using timer_steps(1)[of T cbs s i] by simp
next
  case (wl_timeout i s k sec peer_connected)
  then show ?case using timer_steps(2)[of T cbs s i] by (simp add: timeout_on_connection_def split: if_splits)
next
  case (wl_request s k ec buffer r)
  then show ?case
    using request_inv[of T cbs "note_arrived k (if ec then [] else bytes_of buffer) s" k] by simp
next
  case (wl_response s k i response ec)
  then show ?case using written_inv by blast
next
  case (wl_read s k i ec bytes)
  then have "callbacks s = cbs" "timeout_idle s = T" by (simp_all add: ws_inv_def)
  with wl_read show ?case
    using read_inv[of T "note_arrived k (if ec then [] else bytes) s" k i ec bytes s'] by (simp add: read_result_def)
next
  case (wl_idle s k i)
  show ?case by (rule keeping_inv[OF wl_idle(4,1,3) acts_expired keeps_expired logs_expired])
next
  case (wl_send s k i op message cb)
  show ?case
    by (rule keeping_inv[OF wl_send(4,1,3) acts_ws_send[OF wl_send(2)] keeps_ws_send logs_ws_send])
next
  case (wl_close s k i status reason)
  show ?case by (rule keeping_inv[OF wl_close(3,1,2) acts_send_close keeps_send_close logs_send_close])
next
  case (wl_task s k i r)
  show ?case by (rule strand_inv[OF wl_task(4,1,3) run_task_ok[OF serving_ok(1)[OF wl_task(4,1)] wl_task(2)]])
next
  case (wl_written s k i ec j bytes r)
  show ?case
    by (rule strand_inv[OF wl_written(5,1,4) complete_ok[OF serving_ok(1)[OF wl_written(5,1)] wl_written(3)]])
qed

lemma ws_runs_inv: "ws_runs L sha1 bio s t \<Longrightarrow> ws_inv T cbs s \<Longrightarrow> ws_inv T cbs t"
  by (induction rule: ws_runs.induct) (auto intro: step_inv)

end

section \<open>Faults\<close>

context safe_ws_endpoint
begin

lemma handshake_returns:
  assumes "\<not> ec \<or> T = 0"
  shows "returning T (handshake_written T ep ec c)"
proof (cases ec)
  case True
  with assms have "has_timer T c" by (simp add: has_timer_def)
  with True show ?thesis by (simp add: handshake_written_def returning_error)
next
  case False
  have "has_timer T (timer_idle_init T c)" by (simp add: has_timer_def timer_idle_init_def)
  then have "returning T (connection_open T ep c)"
    by (auto simp: connection_open_def Let_def open_returns split: option.splits)
  with False show ?thesis by (simp add: handshake_written_def read_message_def returning_bind)
qed

end

lemma handshake_null: "0 < T \<Longrightarrow> timer_idle c = Null_Timer \<Longrightarrow> handshake_written T ep True c = Inl Undefined_Behaviour"
  by (simp add: handshake_written_def connection_error_def timer_idle_cancel_def)

text \<open>
  What can take the server down: the timer of a handshake when the peer is gone, an eight-byte
  length, and a response that cannot be written when there is an idle timeout.
\<close>

definition ws_hazard :: "fault \<Rightarrow> ws_loop \<Rightarrow> bool" where
  "ws_hazard f s \<longleftrightarrow>
     f = System_Error \<and> (\<exists>k sec. (k, sec, Queued) \<in> set (timers s))
   \<or> f = Undefined_Behaviour \<and> (\<exists>k i op. ws_stage s k = Serving i \<and> is_open s k
       \<and> phase (conns s k) = Read_Length 8 op)
   \<or> f = Undefined_Behaviour \<and> 0 < timeout_idle s \<and> (\<exists>k i response. ws_stage s k = Writing_Handshake i response)"


lemma on_conn_Inl: "on_conn i k r s = Inl f \<longleftrightarrow> r = Inl f"
  by (cases r) (simp_all add: on_conn_def)

lemma not_returning: "returning T r \<Longrightarrow> r \<noteq> Inl f"
  by auto

context safe_ws_service
begin

lemma step_fault: "ws_step L sha1 bio s r \<Longrightarrow> r = Inl f \<Longrightarrow> ws_inv T cbs s \<Longrightarrow> bio_contract bio \<Longrightarrow> ws_hazard f s"
proof (induction rule: ws_step.induct)
  case (wl_accept k s ec peer)
  then show ?case by (simp add: ws_loop_accepted_def ws_accepted_def Let_def split: if_splits)
next
  case (wl_timeout i s k sec peer_connected)
  moreover from wl_timeout(1,2) have "(k, sec, Queued) \<in> set (timers s)" by (metis nth_mem)
  ultimately show ?case by (auto simp: timeout_on_connection_def ws_hazard_def split: if_splits)
next
  case (wl_request s k ec buffer r)
  obtain r' where r': "handshake_read L sha1 bio (numbered (opt_endpoint s)) ec buffer = Some (Inr r')"
  proof (cases ec)
    case True
    then show thesis using that[of None] by (simp add: handshake_read_def)
  next
    case False
    then show thesis using wl_request(3,7) handshake_total[of bio buffer L sha1 _ ec] that by blast
  qed
  with wl_request(4,5) show ?case
    by (auto simp: ws_handshake_read_def Let_def cancel_timer_def note_arrived_def split: if_splits)
next
  case (wl_response s k i response ec)
  have s: "callbacks s = cbs" "timeout_idle s = T" "socket_ok k s" using wl_response(4) by (simp_all add: ws_inv_def)
  with wl_response(1) have i: "i < length cbs" and t: "timer_idle (conns s k) = Null_Timer"
    by (auto simp: socket_ok_def connection_ctor_def)
  from i have e: "safe_ws_endpoint T (cbs ! i)" using safe by simp
  have h: "handshake_written T (cbs ! i) ec (conns s k) = Inl f"
    using wl_response(1,3) s by (simp add: ws_handshake_written_def on_conn_Inl)
  have "\<not> (\<not> ec \<or> T = 0)"
  proof
    assume "\<not> ec \<or> T = 0"
    from safe_ws_endpoint.handshake_returns[OF e this, of "conns s k"] h show False by simp
  qed
  then have "ec \<and> 0 < T" by simp
  with h t s wl_response(1) show ?case using handshake_null[of T "conns s k" "cbs ! i"]
    by (auto simp: ws_hazard_def)
next
  case (wl_read s k i ec bytes)
  note ok = serving_ok[OF wl_read(5,1)]
  have e: "safe_ws_endpoint T (cbs ! i)" using safe ok(3) by simp
  have "read_done T (cbs ! i) ec bytes (conns s k) = Inl f"
    using wl_read(4) ok by (simp add: on_conn_Inl)
  then have "f = Undefined_Behaviour \<and> \<not> ec \<and> (\<exists>op. phase (conns s k) = Read_Length 8 op)"
    using safe_ws_endpoint.read_done_fault[OF e conjunct1[OF ok(1)[unfolded conn_ok_def]] wl_read(3), THEN iffD1]
    by blast
  with wl_read(1,2) show ?case by (auto simp: ws_hazard_def)
next
  case (wl_idle s k i)
  have "has_timer T (conns s k\<lparr>timer_idle := Not_Waiting\<rparr>)" by (simp add: has_timer_def)
  with wl_idle serving_ok(5)[OF wl_idle(4,1)] show ?case
    by (auto simp: on_conn_Inl timer_idle_expired_def dest: not_returning[OF returning_send_close])
next
  case (wl_send s k i op message cb)
  note ok = serving_ok[OF wl_send(4,1)]
  with wl_send(3) show ?case by (auto simp: on_conn_Inl conn_ok_def dest: not_returning[OF returning_ws_send])
next
  case (wl_close s k i status reason)
  note ok = serving_ok[OF wl_close(3,1)]
  with wl_close(2) show ?case by (auto simp: on_conn_Inl conn_ok_def dest: not_returning[OF returning_send_close])
next
  case (wl_task s k i r)
  then show ?case using run_task_ok[OF serving_ok(1)[OF wl_task(4,1)] wl_task(2)] by (auto simp: on_conn_Inl)
next
  case (wl_written s k i ec j bytes r)
  then show ?case
    using complete_ok[OF serving_ok(1)[OF wl_written(5,1)] wl_written(3)] by (auto simp: on_conn_Inl)
qed simp

lemma hazard_fault:
  assumes inv: "ws_inv T cbs s" and h: "ws_hazard f s"
  shows "ws_step L sha1 bio s (Inl f)"
proof -
  have s: "callbacks s = cbs" "timeout_idle s = T" using inv by (simp_all add: ws_inv_def)
  from h consider k sec where "f = System_Error" "(k, sec, Queued) \<in> set (timers s)"
    | k i op where "f = Undefined_Behaviour" "ws_stage s k = Serving i" "is_open s k" "phase (conns s k) = Read_Length 8 op"
    | k i response where "f = Undefined_Behaviour" "0 < T" "ws_stage s k = Writing_Handshake i response"
    using s(2) by (auto simp: ws_hazard_def)
  then show ?thesis
  proof cases
    case (1 k sec)
    then obtain i where i: "i < length (timers s)" "timers s ! i = (k, sec, Queued)" by (auto simp: in_set_conv_nth)
    from wl_timeout[OF i, of L sha1 bio False] i(1) 1(1) show ?thesis by (simp add: timeout_on_connection_def)
  next
    case (2 k i op)
    note ok = serving_ok[OF inv 2(2)]
    have e: "safe_ws_endpoint T (cbs ! i)" using safe ok(3) by simp
    have r: "read_result (phase (conns s k)) False (replicate 8 0)" using 2(4) by (simp add: read_result_def)
    have "read_done T (cbs ! i) False (replicate 8 0) (conns s k) = Inl f"
      using safe_ws_endpoint.read_done_fault[OF e conjunct1[OF ok(1)[unfolded conn_ok_def]] r, THEN iffD2] 2(1,4) by blast
    with wl_read[OF 2(2) disjI1[OF 2(3)] r, of L sha1 bio] s show ?thesis by (simp add: on_conn_def)
  next
    case (3 k i response)
    have "socket_ok k s" using inv by (simp add: ws_inv_def)
    with 3(3) have "timer_idle (conns s k) = Null_Timer" by (auto simp: socket_ok_def connection_ctor_def)
    from handshake_null[OF 3(2) this] have "ws_handshake_written True k s = Inl f"
      using 3(1,3) s by (simp add: ws_handshake_written_def on_conn_def)
    with wl_response[OF 3(3), of True L sha1 bio] show ?thesis by simp
  qed
qed

end

section \<open>The endpoints of the program\<close>

interpretation echo_log: logged_endpoint T "echo_endpoint T" for T
proof unfold_locales
  show "\<exists>h. onmessage (echo_endpoint T) = Some h \<and> (\<forall>op m c. logs (h op m c) [] c)"
    by (simp add: echo_endpoint_def echo_onmessage_def logs_ws_send)
qed (simp_all add: echo_endpoint_def)

interpretation channel_log: logged_endpoint T channel_endpoint for T
  by unfold_locales (simp_all add: channel_endpoint_def)

interpretation service: safe_ws_service "[channel_endpoint, echo_endpoint T]" T for T
proof (intro safe_ws_service.intro ws_service.intro safe_ws_service_axioms.intro)
  fix ep assume "ep \<in> set [channel_endpoint, echo_endpoint T]"
  then have "ep = channel_endpoint \<or> ep = echo_endpoint T" by auto
  then show "logged_endpoint ep" "safe_ws_endpoint T ep"
    using echo_log.logged_endpoint_axioms channel_log.logged_endpoint_axioms
      echo.safe_ws_endpoint_axioms channel.safe_ws_endpoint_axioms by blast+
qed

section \<open>Start\<close>

text \<open>A server that has not been started, with its endpoints, none of which has connections.\<close>

definition unstarted :: "ws_server \<Rightarrow> bool" where
  "unstarted s \<longleftrightarrow> next_socket s = 0 \<and> accepting s = [] \<and> stage s = (\<lambda>k. Unused)
     \<and> is_open s = (\<lambda>k. False) \<and> (\<forall>e \<in> set (endpoint_table s). snd e = {})"

lemma ws_start_fields:
  assumes "ws_start N s0 = Inr s" "unstarted s0"
  shows "opt_endpoint s = map fst (endpoint_table s0)" "endpoint_table s = endpoint_table s0" "loop_inv s"
    "timeout_content s = timeout_content s0" "timeout_request s = timeout_request s0" "accepting s = [0]"
    "next_socket s = 1" "stage s = (\<lambda>k. Unused)(0 := Accepting)" "timers s = timers s0"
proof -
  obtain t where t: "listen N (s0\<lparr>opt_endpoint := map fst (endpoint_table s0)\<rparr>) = Inr t"
    "s = spawn_threads (new_accept t)"
    using assms(1) by (auto simp: ws_start_def bind_result_eq_Inr)
  from t(1) assms(2) have f: "next_socket t = 0" "accepting t = []" "is_open t = (\<lambda>k. False)" "stage t = (\<lambda>k. Unused)"
    "opt_endpoint t = map fst (endpoint_table s0)" "endpoint_table t = endpoint_table s0"
    "timeout_content t = timeout_content s0" "timeout_request t = timeout_request s0" "timers t = timers s0"
    by (auto simp: listen_def Let_def bind_result_eq_Inr unstarted_def split: if_splits)
  then show "opt_endpoint s = map fst (endpoint_table s0)" "endpoint_table s = endpoint_table s0" "loop_inv s"
    "timeout_content s = timeout_content s0" "timeout_request s = timeout_request s0" "accepting s = [0]"
    "next_socket s = 1" "stage s = (\<lambda>k. Unused)(0 := Accepting)" "timers s = timers s0"
    unfolding t(2) loop_inv_def
    by (simp_all add: one_accept_def timers_ok_def spawn_threads_def new_accept_def)
qed

lemma ws_start_inv:
  assumes "ws_start N s0 = Inr s" "unstarted s0" "length cbs = length (endpoint_table s0)"
  shows "ws_inv (timeout_idle s0) cbs (ws_loop_of cbs s)"
proof -
  note f = ws_start_fields[OF assms(1,2)]
  let ?s = "ws_loop_of cbs s"
  have e: "server.truncate ?s = server.truncate s" "next_socket ?s = 1" "timeout_content ?s = timeout_content s0"
    "stage ?s = (\<lambda>k. Unused)(0 := Accepting)" "endpoint_table ?s = endpoint_table s0"
    "opt_endpoint ?s = map fst (endpoint_table s0)" "callbacks ?s = cbs" "ws_stage ?s = (\<lambda>k. No_Endpoint)"
    "conns ?s = (\<lambda>k. connection_ctor)"
    using f by (simp_all add: ws_loop_of_def ws_server.defs server.truncate_def)
  have "loop_inv ?s = loop_inv s"
    using f e(2,4) by (simp add: loop_inv_def one_accept_def timers_ok_def timed_def has_timer_on_def ws_loop_of_def ws_server.defs)
  moreover have "snd (endpoint_table s0 ! i) = {}" if "i < length cbs" for i
    using that assms(2,3) by (simp add: unstarted_def)
  ultimately show ?thesis
    using f e assms(3)
    by (auto simp: ws_inv_def table_ok_def socket_ok_def life_at_def timeout_idle_def connection_ctor_def life_of_def)
qed

section \<open>What a step does to each connection\<close>

text \<open>
  Once served, a connection stays with its endpoint, and it is listed there only from the end of
  its handshake: a connection that is listed after a step was listed before it, or the step wrote
  its response.
\<close>

definition opens_at :: "nat \<Rightarrow> nat \<Rightarrow> ws_loop \<Rightarrow> ws_loop \<Rightarrow> bool" where
  "opens_at i k s s' \<longleftrightarrow> (\<exists>response. ws_stage s k = Writing_Handshake i response) \<and> is_open s k
     \<and> ws_handshake_written False k s = Inr s'"

definition listed :: "nat \<Rightarrow> nat \<Rightarrow> ws_loop \<Rightarrow> bool" where
  "listed i k s \<longleftrightarrow> ws_stage s k = Serving i \<and> registered (conns s k)"

definition stays :: "ws_loop \<Rightarrow> ws_loop \<Rightarrow> bool" where
  "stays s s' \<longleftrightarrow> (\<forall>i k. (ws_stage s k = Serving i \<longrightarrow> ws_stage s' k = Serving i \<and> conn_match s' k = conn_match s k)
     \<and> (listed i k s' \<longrightarrow> listed i k s \<or> opens_at i k s s'))"

lemma stays_server:
  assumes "ws_stage s' = ws_stage s" "conns s' = conns s" "conn_match s' = conn_match s"
  shows "stays s s'"
  using assms by (simp add: stays_def listed_def)

lemma stays_note:
  assumes "on_conn i k r (note_arrived j bs s) = Inr s'" "ws_stage s k = Serving i"
    and "\<And>d. r = Inr d \<Longrightarrow> registered d \<Longrightarrow> registered (conns s k)"
  shows "stays s s'"
proof -
  obtain d where "r = Inr d" "s' = store_conn i k d (note_arrived j bs s)"
    using assms(1) by (auto simp: on_conn_def bind_result_eq_Inr)
  with assms(2,3) show ?thesis by (auto simp: stays_def listed_def store_conn_def note_arrived_def)
qed

lemma stays_conn:
  assumes "on_conn i k r s = Inr s'" "ws_stage s k = Serving i"
    and "\<And>d. r = Inr d \<Longrightarrow> registered d \<Longrightarrow> registered (conns s k)"
  shows "stays s s'"
proof -
  obtain d where "r = Inr d" "s' = store_conn i k d s"
    using assms(1) by (auto simp: on_conn_def bind_result_eq_Inr)
  with assms(2,3) show ?thesis by (auto simp: stays_def listed_def store_conn_def)
qed

lemma stays_keeps: "on_conn i k r s = Inr s' \<Longrightarrow> ws_stage s k = Serving i \<Longrightarrow> keeps r (conns s k) \<Longrightarrow> stays s s'"
  by (rule stays_conn) (auto simp: keeps_def)

lemma stays_more:
  "on_conn i k r s = Inr s' \<Longrightarrow> ws_stage s k = Serving i \<Longrightarrow>
   \<exists>d. r = Inr d \<and> P d \<and> sender.more d = sender.more (conns s k) \<Longrightarrow> stays s s'"
  by (rule stays_conn) (auto dest: more_fields(5))

lemma accepted_stays: "ws_loop_accepted ec peer k s = Inr s' \<Longrightarrow> stays s s'"
  by (rule stays_server)
    (auto simp: ws_loop_accepted_def ws_accepted_def bind_result_eq_Inr Let_def read_handshake_def take_accept_def
      new_accept_def set_timeout_def split: if_splits)

lemma timer_stays: "stays s (timer_expires i s)" "stays s (timeout_on_socket i s)"
  by (rule stays_server; simp add: timer_expires_def timeout_on_socket_def split: prod.split)+

lemma request_stays:
  assumes "ws_handshake_read L sha1 bio ec buffer k (note_arrived j bs s) = Some (Inr s')" "ws_stage s k = No_Endpoint"
  shows "stays s s'"
  using assms
  by (auto simp: ws_handshake_read_def note_arrived_def Let_def bind_result_eq_Inr stays_def listed_def cancel_timer_def
      split: option.splits if_splits)

context ws_service
begin

lemma written_stays:
  assumes "ws_inv T cbs s" "ws_stage s k = Writing_Handshake i response" "is_open s k \<or> ec"
    and "ws_handshake_written ec k s = Inr s'"
  shows "stays s s'"
proof -
  have s: "callbacks s = cbs" "timeout_idle s = T" "socket_ok k s" using assms(1) by (simp_all add: ws_inv_def)
  with assms(2) have i: "i < length cbs" by (simp add: socket_ok_def)
  obtain d where d: "handshake_written T (cbs ! i) ec (conns s k) = Inr d"
    "s' = store_conn i k d (s\<lparr>responses := (if \<not> ec then (responses s)(k := response) else responses s),
       ws_stage := (ws_stage s)(k := Serving i)\<rparr>)"
    using assms(2,4) s by (auto simp: ws_handshake_written_def on_conn_def bind_result_eq_Inr)
  have "\<not> registered d" if "ec"
    using that d(1) ws_endpoint.leaves_error[OF endpoint_at(2)[OF i]] by (simp add: handshake_written_def leaves_def)
  with assms d(2) show ?thesis
    unfolding stays_def opens_at_def listed_def by (cases ec) (auto simp: store_conn_def)
qed

lemma read_registered:
  assumes "i < length cbs" "read_done T (cbs ! i) ec bytes c = Inr d" "phase c \<noteq> Not_Reading" "registered d"
  shows "registered c"
  using ws_endpoint.read_done_phase[OF endpoint_at(2)[OF assms(1)] assms(2,3)] assms(4) by auto

lemma step_stays: "ws_step L sha1 bio s r \<Longrightarrow> r = Inr s' \<Longrightarrow> ws_inv T cbs s \<Longrightarrow> stays s s'"
proof (induction rule: ws_step.induct)
  case (wl_accept k s ec peer)
  then show ?case using accepted_stays by blast
next
  case (wl_expire s i)
  then show ?case using timer_stays(1)[of s i] by simp
next
  case (wl_timeout i s k sec peer_connected)
  then show ?case using timer_stays(2)[of s i] by (auto simp: timeout_on_connection_def split: if_splits)
next
  case (wl_request s k ec buffer r)
  have "ws_stage s k = No_Endpoint"
  proof -
    have "socket_ok k s" using wl_request(6) by (simp add: ws_inv_def)
    with wl_request(1) show ?thesis by (cases "ws_stage s k") (simp_all add: socket_ok_def)
  qed
  with wl_request show ?case using request_stays by blast
next
  case (wl_response s k i response ec)
  then show ?case using written_stays by blast
next
  case (wl_read s k i ec bytes)
  note ok = serving_ok[OF wl_read(5,1)]
  show ?case
    by (rule stays_note[OF wl_read(4,1)])
      (use wl_read(3) ok read_registered in \<open>auto simp: read_result_def\<close>)
next
  case (wl_idle s k i)
  show ?case by (rule stays_keeps[OF wl_idle(3,1) keeps_expired])
next
  case (wl_send s k i op message cb)
  show ?case by (rule stays_keeps[OF wl_send(3,1) keeps_ws_send])
next
  case (wl_close s k i status reason)
  show ?case by (rule stays_keeps[OF wl_close(2,1) keeps_send_close])
next
  case (wl_task s k i r)
  show ?case by (rule stays_more[OF wl_task(3,1) run_task_ok[OF serving_ok(1)[OF wl_task(4,1)] wl_task(2)]])
next
  case (wl_written s k i ec j bytes r)
  show ?case
    by (rule stays_more[OF wl_written(4,1) complete_ok[OF serving_ok(1)[OF wl_written(5,1)] wl_written(3)]])
qed

end
end
