(* ===== verification/Chat_Stream.thy ===== *)
theory Chat_Stream
  imports Twitch_Client
begin

text \<open>
  What the chat client of \<open>Twitch_Client\<close> does with whatever the IRC server sends: each line posts
  at most one frame on its own WebSocket connection, and the frames of a session are exactly the
  texts of its chat lines in order. The operations are those of \<open>Irc_Client\<close> with the methods
  \<^verbatim>\<open>src/twitch_client.cpp\<close> overrides.
\<close>

section \<open>The frames of a message\<close>

text \<open>The text \<open>message\<close> hands to \<open>privmsg\<close>: the second parameter of a command that starts with PR.\<close>

definition msg_text :: "message \<Rightarrow> string option" where
  "msg_text m = (if take 2 (command m) = ''PR'' then Some (params m ! 1) else None)"

definition chat_frame :: "string \<Rightarrow> send_data" where
  "chat_frame t = reply_frame 129 (bytes_of (t @ [LF])) (Some 1)"

definition post_frames :: "send_data list \<Rightarrow> connection \<Rightarrow> connection" where
  "post_frames ds c = c\<lparr>strand := strand c @ map Post_Send ds\<rparr>"

lemma post_frames_simps [simp]:
  "post_frames [] c = c" "post_frames es (post_frames ds c) = post_frames (ds @ es) c"
  "post_send d c = post_frames [d] c"
  by (simp_all add: post_frames_def post_send_def)

text \<open>What a client keeps: its login, the path of its connection, and the buffer.\<close>

definition same_client :: "twitch_client \<Rightarrow> twitch_client \<Rightarrow> bool" where
  "same_client st st' \<longleftrightarrow> m_nick st' = m_nick st \<and> m_pass st' = m_pass st \<and> path_match st' = path_match st
     \<and> response st' = response st"

lemma same_client_simps [simp]:
  "same_client st st"
  "same_client st (print l st') = same_client st st'" "same_client st (send_raw l st') = same_client st st'"
  "same_client st (st'\<lparr>m_connection := c\<rparr>) = same_client st st'"
  "same_client st (st'\<lparr>cout := o'\<rparr>) = same_client st st'" "same_client st (st'\<lparr>json_requests := js\<rparr>) = same_client st st'"
  by (simp_all add: same_client_def print_def send_raw_def)

lemma same_client_trans: "same_client st st' \<Longrightarrow> same_client st' st'' \<Longrightarrow> same_client st st''"
  by (simp add: same_client_def)

lemma print_conn [simp]: "m_connection (print l st) = m_connection st"
  by (simp add: print_def)

lemma twitch_reply_effect:
  "m_connection (snd (twitch_reply L m code st)) = m_connection st" "same_client st (snd (twitch_reply L m code st))"
  by (simp_all add: twitch_reply_def Let_def irc_join_def send_def json_client_create_def frames)

lemma stoi_PR: "take 2 s = ''PR'' \<Longrightarrow> stoi s = Inl Invalid_Argument"
  by (cases s) (auto simp: stoi_letter)

lemma print_raw_effect [simp]:
  "m_connection (print_raw m r) = m_connection (snd r)" "same_client st (print_raw m r) = same_client st (snd r)"
  by (simp_all add: print_raw_def)

lemma irc_message_effect:
  assumes "irc_message L (twitch_vt L) m st = Inr r"
  shows "m_connection (snd r) = post_frames (case msg_text m of None \<Rightarrow> [] | Some t \<Rightarrow> [chat_frame t]) (m_connection st)
    \<and> same_client st (snd r)"
proof -
  have "privmsg_done": "m_connection (twitch_privmsg m p t st) = post_frames [chat_frame t] (m_connection st)
    \<and> same_client st (twitch_privmsg m p t st)" for p t
    by (simp add: twitch_privmsg_eq base_privmsg_def chat_frame_def)
  consider "command m = []" | c where "command m = [c]" | c d r where "command m = c # d # r"
    by (metis list.exhaust)
  then show ?thesis
  proof cases
    case 1
    with assms show ?thesis by (auto simp: irc_message_def str_at_def msg_text_def)
  next
    case (2 c)
    with assms show ?thesis
      by (auto simp: irc_message_def str_at_def msg_text_def Let_def on_join_def split: if_splits)
  next
    case (3 c d r)
    with assms privmsg_done show ?thesis
      by (cases "params m"; cases "tl (params m)")
        (auto simp: irc_message_def str_at_def vec_at_def Let_def numeral_2_eq_2 msg_text_def twitch_vt_def
          on_join_def on_ping_def irc_pong_def send_def frames split: if_splits)
  qed
qed

lemma read_msg_effect:
  assumes "read_msg L (twitch_vt L) m st = Inr st'"
  shows "m_connection st' = post_frames (case msg_text m of None \<Rightarrow> [] | Some t \<Rightarrow> [chat_frame t]) (m_connection st)
    \<and> same_client st st'"
proof (cases "stoi (command m)")
  case (Inr code)
  then have "take 2 (command m) \<noteq> ''PR''" using stoi_PR by force
  with Inr assms show ?thesis
    by (auto simp: read_msg_def msg_text_def twitch_vt_def twitch_reply_effect)
next
  case (Inl f)
  with assms show ?thesis
    by (cases f) (auto simp: read_msg_def bind_result_eq_Inr dest!: irc_message_effect)
qed

section \<open>The frames of a read\<close>

definition line_text :: "boost_lib \<Rightarrow> string \<Rightarrow> string option" where
  "line_text L l = (case message_ctor L l of Inr (m, printed) \<Rightarrow> msg_text m | Inl f \<Rightarrow> None)"

definition line_frames :: "boost_lib \<Rightarrow> string list \<Rightarrow> send_data list" where
  "line_frames L ls = map chat_frame (List.map_filter (line_text L) ls)"

lemma line_frames_simps [simp]:
  "line_frames L [] = []"
  "line_frames L (l # ls) = (case line_text L l of None \<Rightarrow> [] | Some t \<Rightarrow> [chat_frame t]) @ line_frames L ls"
  by (simp_all add: line_frames_def List.map_filter_simps split: option.splits)

lemma line_frames_append: "line_frames L (ls @ ms) = line_frames L ls @ line_frames L ms"
  by (induction ls) auto

lemma read_line_effect:
  assumes "read_line L (twitch_vt L) l st = Inr st'"
  shows "m_connection st' = post_frames (case line_text L l of None \<Rightarrow> [] | Some t \<Rightarrow> [chat_frame t]) (m_connection st)
    \<and> same_client st st'"
proof -
  obtain m out where m: "message_ctor L l = Inr (m, out)"
    "read_msg L (twitch_vt L) m (st\<lparr>cout := cout st @ out\<rparr>) = Inr st'"
    using assms by (auto simp: read_line_def bind_result_eq_Inr)
  have s: "same_client st (st\<lparr>cout := cout st @ out\<rparr>)" by simp
  note e = read_msg_effect[OF m(2)]
  from same_client_trans[OF s conjunct2[OF e]] conjunct1[OF e] m(1) show ?thesis by (simp add: line_text_def)
qed

lemma read_lines_effect:
  "read_lines L (twitch_vt L) ls st = Inr st' \<Longrightarrow>
   m_connection st' = post_frames (line_frames L ls) (m_connection st) \<and> same_client st st'"
proof (induction ls arbitrary: st)
  case (Cons l ls)
  then obtain st1 where s: "read_line L (twitch_vt L) l st = Inr st1" "read_lines L (twitch_vt L) ls st1 = Inr st'"
    by (auto simp: bind_result_eq_Inr)
  from read_line_effect[OF s(1)] Cons.IH[OF s(2)] show ?case using same_client_trans by auto
qed simp

lemma on_read_effect:
  assumes "on_read L (twitch_vt L) False bytes st = Some (Inr st')"
  shows "m_connection st' = post_frames (line_frames L (lines_of (response st @ bytes))) (m_connection st)"
    "m_nick st' = m_nick st" "m_pass st' = m_pass st" "path_match st' = path_match st" "response st' = []"
proof -
  obtain u where u: "read_lines L (twitch_vt L) (lines_of (response st @ bytes))
      (st\<lparr>read_armed := False, response := response st @ bytes\<rparr>) = Inr u"
    "st' = start_read (u\<lparr>response := []\<rparr>)"
    using assms unfolding on_read_ok by (auto simp: map_sum_def split: sum.splits)
  from read_lines_effect[OF u(1)] u(2)
  show "m_connection st' = post_frames (line_frames L (lines_of (response st @ bytes))) (m_connection st)"
    "m_nick st' = m_nick st" "m_pass st' = m_pass st" "path_match st' = path_match st" "response st' = []"
    by (simp_all add: start_read_def same_client_def)
qed

section \<open>Sessions\<close>

text \<open>
  Lines as the server sends them, by their grammatical parts. A line is harmless when handling it
  has no fault: its number can be read by \<open>stoi\<close>, and a chat command has a parameter.
\<close>

definition lp_text :: "line_parts \<Rightarrow> string option" where
  "lp_text lp = (if take 2 (lp_command lp) = ''PR''
     then Some ((lp_middle lp @ [case lp_trailing lp of None \<Rightarrow> [] | Some t \<Rightarrow> t]) ! 1) else None)"

definition harmless :: "line_parts \<Rightarrow> bool" where
  "harmless lp \<longleftrightarrow> line_parts_ok lp \<and> LF \<notin> set (render_line lp) \<and> stoi (lp_command lp) \<noteq> Inl Out_Of_Range
     \<and> (take 2 (lp_command lp) = ''PR'' \<longrightarrow> lp_middle lp \<noteq> [])"

definition render_lines :: "line_parts list \<Rightarrow> string" where
  "render_lines lps = concat (map (\<lambda>lp. render_line lp @ [LF]) lps)"

text \<open>The completions of one read after the other.\<close>

fun read_all :: "boost_lib \<Rightarrow> string list \<Rightarrow> twitch_client \<Rightarrow> twitch_client result option" where
  "read_all L [] st = Some (Inr st)"
| "read_all L (b # bs) st =
     (case on_read L (twitch_vt L) False b st of
        Some (Inr st') \<Rightarrow> read_all L bs st'
      | r \<Rightarrow> r)"

lemma lines_of_render:
  "list_all harmless lps \<Longrightarrow> lps \<noteq> [] \<Longrightarrow> lines_of (render_lines lps) = map render_line lps"
proof (induction lps rule: induct_list012)
  case (2 lp)
  then show ?case by (simp add: render_lines_def lines_of_line harmless_def)
next
  case (3 lp lq lps)
  then have "render_lines (lq # lps) \<noteq> []" by (simp add: render_lines_def)
  moreover have "render_lines (lp # lq # lps) = render_line lp @ LF # render_lines (lq # lps)"
    by (simp add: render_lines_def)
  moreover have "LF \<notin> set (render_line lp)" using 3(3) by (simp add: harmless_def)
  ultimately show ?case using 3 by (simp add: lines_of_line)
qed simp

context boost
begin

lemma harmless_message:
  assumes "harmless lp"
  obtains m out where "message_ctor L (render_line lp) = Inr (m, out)" "command m = lp_command lp"
    "params m = lp_middle lp @ [case lp_trailing lp of None \<Rightarrow> [] | Some t \<Rightarrow> t]"
  using in_lines[OF _ _ contract] assms unfolding harmless_def by blast

lemma line_text_render: "harmless lp \<Longrightarrow> line_text L (render_line lp) = lp_text lp"
  by (erule harmless_message) (simp add: line_text_def msg_text_def lp_text_def)

lemma harmless_returns:
  assumes "harmless lp"
  shows "\<exists>st'. read_line L vt (render_line lp) st = Inr st'"
proof -
  obtain m out where m: "message_ctor L (render_line lp) = Inr (m, out)" "command m = lp_command lp"
    "params m = lp_middle lp @ [case lp_trailing lp of None \<Rightarrow> [] | Some t \<Rightarrow> t]"
    using harmless_message[OF assms] .
  have "read_msg L vt m st' \<noteq> Inl f" for st' f
    using assms m(2,3) read_msg_fault[of L vt m st' f] by (auto simp: harmless_def)
  then obtain u where "read_msg L vt m (st\<lparr>cout := cout st @ out\<rparr>) = Inr u"
    by (cases "read_msg L vt m (st\<lparr>cout := cout st @ out\<rparr>)") auto
  with m(1) show ?thesis by (simp add: read_line_def)
qed

lemma read_lines_returns: "list_all harmless lps \<Longrightarrow> \<exists>st'. read_lines L vt (map render_line lps) st = Inr st'"
proof (induction lps arbitrary: st)
  case (Cons lp lps)
  then obtain u where "read_line L vt (render_line lp) st = Inr u" using harmless_returns[of lp vt st] by auto
  with Cons show ?case by simp
qed simp

lemma line_frames_render:
  "list_all harmless lps \<Longrightarrow> line_frames L (map render_line lps) = map chat_frame (List.map_filter lp_text lps)"
  by (induction lps) (auto simp: line_text_render List.map_filter_simps split: option.splits)

lemma read_lines_session:
  assumes "list_all harmless lps" "lps \<noteq> []" "response st = []"
  shows "\<exists>st'. on_read L (twitch_vt L) False (render_lines lps) st = Some (Inr st') \<and> response st' = []
    \<and> m_connection st' = post_frames (map chat_frame (List.map_filter lp_text lps)) (m_connection st)"
proof -
  have l: "lines_of (response st @ render_lines lps) = map render_line lps"
    using assms by (simp add: lines_of_render)
  obtain u where "read_lines L (twitch_vt L) (map render_line lps)
      (st\<lparr>read_armed := False, response := response st @ render_lines lps\<rparr>) = Inr u"
    using read_lines_returns[OF assms(1)] by blast
  then have "on_read L (twitch_vt L) False (render_lines lps) st = Some (Inr (start_read (u\<lparr>response := []\<rparr>)))"
    unfolding on_read_ok l by simp
  with on_read_effect(1,5)[OF this] l show ?thesis by (simp add: line_frames_render[OF assms(1)])
qed

lemma read_all_session:
  assumes "list_all (\<lambda>lps. lps \<noteq> [] \<and> list_all harmless lps) css" "response st = []"
  shows "\<exists>st'. read_all L (map render_lines css) st = Some (Inr st') \<and> response st' = []
    \<and> m_connection st' = post_frames (map chat_frame (List.map_filter lp_text (concat css))) (m_connection st)"
  using assms
proof (induction css arbitrary: st)
  case (Cons lps css)
  then obtain u where u: "on_read L (twitch_vt L) False (render_lines lps) st = Some (Inr u)" "response u = []"
    "m_connection u = post_frames (map chat_frame (List.map_filter lp_text lps)) (m_connection st)"
    using read_lines_session[of lps st] by auto
  from Cons.IH[OF _ u(2)] Cons.prems(1) obtain st' where
    "read_all L (map render_lines css) u = Some (Inr st')" "response st' = []"
    "m_connection st' = post_frames (map chat_frame (List.map_filter lp_text (concat css))) (m_connection u)"
    by auto
  with u show ?case by (auto simp: List.map_filter_def)
qed (simp add: List.map_filter_simps)

end

text \<open>What is posted is written in the end, behind what was to be written before.\<close>

lemma post_frames_inv: "send_inv c \<Longrightarrow> send_inv (post_frames ds c)"
  by (simp add: post_frames_def send_inv_def agents_def filter_map comp_def)

lemma post_frames_stream: "stream (post_frames ds c) = stream c @ concat (map frame_bytes ds)"
proof (induction ds arbitrary: c)
  case (Cons d ds)
  have "post_frames (d # ds) c = post_frames ds (post_send d c)" by (simp add: post_frames_def post_send_def)
  with Cons show ?case by (simp only: stream_post concat.simps list.map append_assoc)
qed simp

lemma truncate_sender:
  "send_inv (sender.truncate c) = send_inv c" "stream (sender.truncate c) = stream c"
  by (simp_all add: sender.truncate_def send_inv_def agents_def stream_def queue_bytes_def
      split: list.split write_op.split)

lemma written_in_the_end:
  assumes "send_inv c"
  shows "\<exists>u. ok_step\<^sup>*\<^sup>* (sender.truncate (post_frames ds c)) u \<and> quiet u
    \<and> wire u = stream c @ concat (map frame_bytes ds)"
  using reaches_quiet[of "sender.truncate (post_frames ds c)"] post_frames_inv[OF assms, of ds]
    quiet_stream post_frames_stream[of ds c] by (metis truncate_sender)

section \<open>Properties\<close>

text \<open>Whatever lines the IRC server sends, in however many reads, the texts of the chat lines among
  them and nothing else are handed to the connection, in order: when its strand has run without
  error, the wire holds what was to be written before and then one text frame for each.\<close>

theorem chat_stream:
  assumes "boost_contract L" "list_all (\<lambda>lps. lps \<noteq> [] \<and> list_all harmless lps) css"
    and "response st = []" "send_inv (m_connection st)"
  shows "\<exists>st' u. read_all L (map render_lines css) st = Some (Inr st')
    \<and> ok_step\<^sup>*\<^sup>* (sender.truncate (m_connection st')) u \<and> quiet u
    \<and> wire u = stream (m_connection st) @ concat (map (\<lambda>t. frame_header 129 (length t + 1) @ bytes_of (t @ [LF]))
        (List.map_filter lp_text (concat css)))"
proof -
  let ?ds = "map chat_frame (List.map_filter lp_text (concat css))"
  obtain st' where st': "read_all L (map render_lines css) st = Some (Inr st')"
    "m_connection st' = post_frames ?ds (m_connection st)"
    using boost.read_all_session[OF boost.intro[OF assms(1)] assms(2,3)] by blast
  obtain u where u: "ok_step\<^sup>*\<^sup>* (sender.truncate (post_frames ?ds (m_connection st))) u" "quiet u"
    "wire u = stream (m_connection st) @ concat (map frame_bytes ?ds)"
    using written_in_the_end[OF assms(4)] by blast
  have "map frame_bytes ?ds = map (\<lambda>t. frame_header 129 (length t + 1) @ bytes_of (t @ [LF])) (List.map_filter lp_text (concat css))"
    by (simp add: frame_bytes_def chat_frame_def reply_frame_def bytes_of_def)
  with st' u show ?thesis by metis
qed

lemma demo_chat_harmless: "harmless demo_chat"
  using demo_chat_ok
  by (simp add: harmless_def render_demo_chat) (simp add: demo_chat_def stoi_letter)

theorem chat_stream_witness:
  "\<exists>st' u. read_all ref_boost [render_lines [demo_chat, demo_chat], render_lines [demo_chat]] demo_twitch = Some (Inr st')
    \<and> ok_step\<^sup>*\<^sup>* (sender.truncate (m_connection st')) u \<and> quiet u
    \<and> wire u = concat (replicate 3 ([129, 4] @ bytes_of (''hi'' @ CRLF)))"
proof -
  have c: "m_connection demo_twitch = opened 0" "response demo_twitch = []"
    by (simp_all add: demo_twitch_def irc_client.defs irc_client_ctor_def)
  have s: "send_inv (opened 0)" "stream (opened 0) = []"
    by (simp_all add: opened_def connection_ctor_def send_inv_def agents_def stream_def queue_bytes_def)
  have t: "lp_text demo_chat = Some (''hi'' @ [CR])" by (simp add: lp_text_def demo_chat_def)
  have "list_all (\<lambda>lps. lps \<noteq> [] \<and> list_all harmless lps) [[demo_chat, demo_chat], [demo_chat]]"
    by (simp add: demo_chat_harmless)
  from chat_stream[OF ref_boost_contract this c(2)] s show ?thesis
    by (simp add: c(1) t List.map_filter_simps frame_header_def CRLF_def numeral_3_eq_3)
qed
end
