(* ===== verification/Bot_Loop.thy ===== *)
theory Bot_Loop
  imports Bot Ws_Loop Chat_Stream
begin

text \<open>
  The program of \<^verbatim>\<open>src/bot.cpp\<close> while it runs: the HTTP server of \<open>Server_Loop\<close>, the WebSocket server
  of \<open>Ws_Loop\<close> with the two endpoints of \<open>main\<close>, and one chat client of \<open>Twitch_Client\<close> for each
  connection of the channel endpoint, which \<open>onopen\<close> creates and nothing deletes. The client's
  connection is the one the server holds: its value is loaded before each handler of the client
  and stored after it.
\<close>

section \<open>State\<close>

text \<open>
  \<open>world\<close> is the state of the SQLite library; \<open>login\<close> are the arguments of the program. \<open>irc_in\<close> records
  what each client has got from the IRC server; no handler reads it.
\<close>

record 'w bot_state =
  web_page :: "unit http_server"
  web :: ws_loop
  chat :: "nat \<Rightarrow> twitch_client option"
  login :: "string \<times> string"
  world :: 'w
  irc_in :: "nat \<Rightarrow> string"

definition bot_started :: "net \<Rightarrow> bot \<Rightarrow> 'w \<Rightarrow> 'w bot_state result" where
  "bot_started N b w =
     (case bot_run N b of (page, sock) \<Rightarrow>
        bind_result page (\<lambda>h. bind_result sock (\<lambda>s. Inr
          \<lparr>web_page = h, web = ws_loop_of (map snd (bot_endpoints b)) s, chat = (\<lambda>k. None),
           login = bot_login b, world = w, irc_in = (\<lambda>k. [])\<rparr>)))"

section \<open>The chat clients\<close>

text \<open>
  \<open>onopen\<close> of the channel endpoint: a client is created, whose constructor resolves the name of the
  IRC server on the thread of the WebSocket server, which throws when it fails, and then runs its
  database session; \<open>present\<close> is what \<open>exists\<close> says of the database's file.
\<close>

definition new_twitch_client ::
  "('w, console) sqlite_lib \<Rightarrow> bool \<Rightarrow> bool option \<Rightarrow> nat \<Rightarrow> 'w bot_state \<Rightarrow> 'w bot_state result"
where
  "new_twitch_client S resolved present k b =
     (if resolved then
        bind_result (twitch_client_ctor S present (fst (login b)) (snd (login b)) (conns (web b) k) (conn_match (web b) k) (world b))
          (\<lambda>(st, errs, w). Inr (b\<lparr>chat := (chat b)(k \<mapsto> st), world := w\<rparr>))
      else Inl System_Error)"

text \<open>The handlers of a client: its connect, one of its writes, its read.\<close>

datatype irc_event = Connect_Done bool | Write_Done nat | Read_Done bool string

fun irc_handle :: "boost_lib \<Rightarrow> irc_event \<Rightarrow> twitch_client \<Rightarrow> twitch_client result option" where
  "irc_handle L (Connect_Done ec) st = Some (Inr (on_connect L ec st))"
| "irc_handle L (Write_Done i) st = Some (Inr (write_done i st))"
| "irc_handle L (Read_Done ec bytes) st = on_read L (twitch_vt L) ec bytes st"

fun event_bytes :: "irc_event \<Rightarrow> string" where
  "event_bytes (Read_Done ec bytes) = (if ec then [] else bytes)"
| "event_bytes _ = []"

definition client_store :: "nat \<Rightarrow> irc_event \<Rightarrow> twitch_client \<Rightarrow> 'w bot_state \<Rightarrow> 'w bot_state" where
  "client_store k ev st b = b\<lparr>chat := (chat b)(k \<mapsto> st), web := store_conn 0 k (m_connection st) (web b),
     irc_in := (irc_in b)(k := irc_in b k @ event_bytes ev)\<rparr>"

section \<open>Steps\<close>

text \<open>
  A step of the WebSocket server's thread. The channel endpoint is the first in the map; the end of
  a handshake there runs \<open>onopen\<close>, which creates a client, every other step is one of \<open>Ws_Loop\<close>.
\<close>

inductive web_thread ::
  "boost_lib \<Rightarrow> (string \<Rightarrow> nat list) \<Rightarrow> (string \<Rightarrow> string) \<Rightarrow> ('w, console) sqlite_lib
    \<Rightarrow> 'w bot_state \<Rightarrow> 'w bot_state result \<Rightarrow> bool"
  for L sha1 bio S
where
  wt_web: "ws_step L sha1 bio (web b) r \<Longrightarrow> (\<nexists>k s. opens_at 0 k (web b) s \<and> r = Inr s) \<Longrightarrow>
    web_thread L sha1 bio S b (bind_result r (\<lambda>s. Inr (b\<lparr>web := s\<rparr>)))"
| wt_open: "opens_at 0 k (web b) s \<Longrightarrow>
    web_thread L sha1 bio S b (new_twitch_client S resolved present k (b\<lparr>web := s\<rparr>))"

text \<open>A step of the program: of the page's server, of the WebSocket server's thread, or of a client.\<close>

inductive bot_step ::
  "boost_lib \<Rightarrow> (string \<Rightarrow> nat list) \<Rightarrow> (string \<Rightarrow> string) \<Rightarrow> ('w, console) sqlite_lib \<Rightarrow> unit runner
    \<Rightarrow> (string \<Rightarrow> rat result) \<Rightarrow> 'w bot_state \<Rightarrow> 'w bot_state result \<Rightarrow> bool"
  for L sha1 bio S run stof
where
  bs_page: "http_step L run stof [''GET'' \<mapsto> ()] (web_page b) h \<Longrightarrow>
    bot_step L sha1 bio S run stof b (Inr (b\<lparr>web_page := h\<rparr>))"
| bs_thread: "web_thread L sha1 bio S b r \<Longrightarrow> bot_step L sha1 bio S run stof b r"
| bs_client: "chat b k = Some st \<Longrightarrow>
    irc_handle L ev (st\<lparr>m_connection := conns (web b) k\<rparr>) = Some r \<Longrightarrow>
    bot_step L sha1 bio S run stof b (bind_result r (\<lambda>st'. Inr (client_store k ev st' b)))"

inductive bot_runs ::
  "boost_lib \<Rightarrow> (string \<Rightarrow> nat list) \<Rightarrow> (string \<Rightarrow> string) \<Rightarrow> ('w, console) sqlite_lib \<Rightarrow> unit runner
    \<Rightarrow> (string \<Rightarrow> rat result) \<Rightarrow> 'w bot_state \<Rightarrow> 'w bot_state \<Rightarrow> bool"
  for L sha1 bio S run stof b
where
  br_start: "bot_runs L sha1 bio S run stof b b"
| br_step: "bot_runs L sha1 bio S run stof b c \<Longrightarrow> bot_step L sha1 bio S run stof c (Inr d) \<Longrightarrow>
    bot_runs L sha1 bio S run stof b d"

lemmas bs_web = bs_thread[OF wt_web] and bs_open = bs_thread[OF wt_open]

section \<open>The invariant\<close>

abbreviation bot_callbacks :: "endpoint list" where
  "bot_callbacks \<equiv> [channel_endpoint, echo_endpoint 0]"

text \<open>A client belongs to a connection that the channel endpoint serves, with its path.\<close>

definition client_ok :: "nat \<Rightarrow> 'w bot_state \<Rightarrow> bool" where
  "client_ok k b \<longleftrightarrow> (case chat b k of None \<Rightarrow> \<not> listed 0 k (web b)
     | Some st \<Rightarrow> ws_stage (web b) k = Serving 0 \<and> (m_nick st, m_pass st) = login b
         \<and> path_match st = conn_match (web b) k)"

definition bot_inv :: "('w, console) sqlite_lib \<Rightarrow> 'w \<Rightarrow> 'w bot_state \<Rightarrow> bool" where
  "bot_inv S w b \<longleftrightarrow> loop_inv (web_page b) \<and> ws_inv 0 bot_callbacks (web b) \<and> (\<forall>k. client_ok k b)
     \<and> handles S (world b) = handles S w \<and> blocks S (world b) = blocks S w"

text \<open>What the handlers of a client do to its connection: frames are posted at most.\<close>

lemma irc_handle_effect:
  assumes "irc_handle L ev st = Some (Inr st')"
  shows "(\<exists>ds. m_connection st' = post_frames ds (m_connection st)) \<and> m_nick st' = m_nick st \<and> m_pass st' = m_pass st
    \<and> path_match st' = path_match st"
proof (cases ev)
  case (Connect_Done ec)
  then have "m_connection st' = m_connection st" "m_nick st' = m_nick st" "m_pass st' = m_pass st" "path_match st' = path_match st"
    using assms by (auto simp: on_connect_def connected_def irc_nick_def irc_pass_def send_def start_read_def frames)
  then show ?thesis using post_frames_simps(1) by metis
next
  case (Write_Done i)
  then have "m_connection st' = m_connection st" "m_nick st' = m_nick st" "m_pass st' = m_pass st" "path_match st' = path_match st"
    using assms by (auto simp: write_done_def print_def)
  then show ?thesis using post_frames_simps(1) by metis
next
  case (Read_Done ec bytes)
  show ?thesis
  proof (cases ec)
    case True
    then have "m_connection st' = m_connection st" "m_nick st' = m_nick st" "m_pass st' = m_pass st" "path_match st' = path_match st"
      using assms Read_Done by (auto simp: on_read_def)
    then show ?thesis using post_frames_simps(1) by metis
  next
    case False
    with assms Read_Done have "on_read L (twitch_vt L) False bytes st = Some (Inr st')" by simp
    from on_read_effect[OF this] show ?thesis by blast
  qed
qed

lemma post_frames_ok: "conn_ok T c \<Longrightarrow> conn_ok T (post_frames ds c)"
  using post_frames_inv[of c ds]
  by (simp add: conn_ok_def reading_inv_def has_timer_def) (simp add: post_frames_def)

lemma client_frames_inv:
  assumes "ws_inv T cbs s" "ws_stage s k = Serving i"
  shows "ws_inv T cbs (store_conn i k (post_frames ds (conns s k)) s)"
    "stays s (store_conn i k (post_frames ds (conns s k)) s)"
proof -
  note ok = serving_ok[OF assms]
  show "ws_inv T cbs (store_conn i k (post_frames ds (conns s k)) s)"
    by (rule store_serving[OF assms post_frames_ok[OF ok(1)]]) (use ok(2) in \<open>simp add: post_frames_def\<close>)
  show "stays s (store_conn i k (post_frames ds (conns s k)) s)"
    by (rule stays_conn[of i k "Inr (post_frames ds (conns s k))"])
      (use assms(2) in \<open>simp_all add: on_conn_def post_frames_def\<close>)
qed

lemma client_ok_stays:
  assumes "client_ok k b" "stays (web b) s" "\<not> opens_at 0 k (web b) s"
  shows "client_ok k (b\<lparr>web := s\<rparr>)"
  using assms by (auto simp: client_ok_def stays_def split: option.splits)

lemma ctor_client:
  assumes "twitch_client_ctor S present nick pass c pm w = Inr (st, errs, w')"
    and "open_documented S" "exec_documented S" "free_documented S" "close_documented S"
  shows "m_nick st = nick" "m_pass st = pass" "path_match st = pm" "m_connection st = c"
    "handles S w' = handles S w" "blocks S w' = blocks S w"
proof -
  define st0 where "st0 = (irc_client.extend (irc_client_ctor nick pass)
    \<lparr>m_connection = c, path_match = pm, json_requests = []\<rparr>)"
  obtain cn where d: "db_session S present \<lparr>out = cout st0, err = []\<rparr> w = Inr (cn, w')" and st: "st = st0\<lparr>cout := out cn\<rparr>"
    using assms(1) by (auto simp: twitch_client_ctor_def Let_def bind_result_eq_Inr st0_def)
  from st show "m_nick st = nick" "m_pass st = pass" "path_match st = pm" "m_connection st = c"
    by (simp_all add: st0_def irc_client.defs irc_client_ctor_def)
  from db_session_keeps[OF assms(2-5) d] show "handles S w' = handles S w" "blocks S w' = blocks S w" by simp_all
qed

lemma client_ok_other:
  assumes "client_ok j b" "j \<noteq> k"
  shows "client_ok j (client_store k ev st b)" "client_ok j (b\<lparr>chat := (chat b)(k \<mapsto> st), world := w\<rparr>)"
  using assms by (auto simp: client_ok_def client_store_def store_conn_def listed_def split: option.splits)

lemma opens_at_steps:
  assumes "opens_at i k s s'"
  shows "ws_step L sha1 bio s (Inr s')" "\<And>j. opens_at i j s s' \<Longrightarrow> j = k"
proof -
  obtain response where r: "ws_stage s k = Writing_Handshake i response" "is_open s k" "ws_handshake_written False k s = Inr s'"
    using assms by (auto simp: opens_at_def)
  show "ws_step L sha1 bio s (Inr s')" using wl_response[OF r(1), of False] r(2,3) by simp
  fix j assume "opens_at i j s s'"
  then have "ws_stage s' j = Serving i" "\<exists>q. ws_stage s j = Writing_Handshake i q"
    by (auto simp: opens_at_def ws_handshake_written_def on_conn_def bind_result_eq_Inr store_conn_def)
  moreover have "ws_stage s' = (ws_stage s)(k := Serving i)"
    using r by (auto simp: ws_handshake_written_def on_conn_def bind_result_eq_Inr store_conn_def)
  ultimately show "j = k" by (cases "j = k") auto
qed

lemma opened_channel: "opens_at i k s s' \<Longrightarrow> ws_stage s' k = Serving i"
  by (auto simp: opens_at_def ws_handshake_written_def on_conn_def bind_result_eq_Inr store_conn_def)

text \<open>The steps keep the invariant.\<close>

lemma new_client_inv:
  assumes docs: "open_documented S" "exec_documented S" "free_documented S" "close_documented S"
    and inv: "bot_inv S w b" and op: "opens_at 0 k (web b) s"
    and new: "new_twitch_client S resolved present k (b\<lparr>web := s\<rparr>) = Inr b'"
  shows "bot_inv S w b'"
proof -
  have web: "ws_inv 0 bot_callbacks (web b)" using inv by (simp add: bot_inv_def)
  note st = opens_at_steps(1)[OF op, of ref_boost "\<lambda>s. []" id]
  have ws: "ws_inv 0 bot_callbacks s" "stays (web b) s"
    using service.step_inv[OF st refl web] service.step_stays[OF st refl web] .
  obtain cl errs w' where c: "twitch_client_ctor S present (fst (login b)) (snd (login b)) (conns s k) (conn_match s k) (world b)
      = Inr (cl, errs, w')" and b': "b' = b\<lparr>web := s, chat := (chat b)(k \<mapsto> cl), world := w'\<rparr>"
    using new by (auto simp: new_twitch_client_def bind_result_eq_Inr split: if_splits)
  note f = ctor_client[OF c docs]
  have "client_ok j b'" for j
  proof (cases "j = k")
    case True
    with f opened_channel[OF op] show ?thesis unfolding b' by (simp add: client_ok_def)
  next
    case False
    then have "\<not> opens_at 0 j (web b) s" using opens_at_steps(2)[OF op] by blast
    with inv ws(2) have "client_ok j (b\<lparr>web := s\<rparr>)" by (intro client_ok_stays) (simp_all add: bot_inv_def)
    from client_ok_other(2)[OF this False, where st = cl and w = w'] show ?thesis unfolding b' by simp
  qed
  with inv ws f show ?thesis unfolding b' by (simp add: bot_inv_def)
qed

lemma client_event_inv:
  assumes inv: "bot_inv S w b" and c: "chat b k = Some st"
    and h: "irc_handle L ev (st\<lparr>m_connection := conns (web b) k\<rparr>) = Some (Inr st')"
  shows "bot_inv S w (client_store k ev st' b)"
proof -
  have ok: "client_ok k b" "ws_inv 0 bot_callbacks (web b)" using inv by (simp_all add: bot_inv_def)
  with c have sv: "ws_stage (web b) k = Serving 0" and l: "(m_nick st, m_pass st) = login b"
    and p: "path_match st = conn_match (web b) k" by (simp_all add: client_ok_def)
  obtain ds where e: "m_connection st' = post_frames ds (conns (web b) k)" "m_nick st' = m_nick st" "m_pass st' = m_pass st"
    "path_match st' = path_match st" using irc_handle_effect[OF h] by auto
  let ?s = "store_conn 0 k (m_connection st') (web b)"
  have s: "ws_inv 0 bot_callbacks ?s" "stays (web b) ?s"
    using client_frames_inv[OF ok(2) sv, of ds] by (simp_all add: e(1))
  have "client_ok j (client_store k ev st' b)" for j
  proof (cases "j = k")
    case True
    with e l p sv show ?thesis by (simp add: client_ok_def client_store_def store_conn_def)
  next
    case False
    with inv show ?thesis by (intro client_ok_other(1)) (simp_all add: bot_inv_def)
  qed
  with inv s show ?thesis by (simp add: bot_inv_def client_store_def)
qed

lemma web_thread_inv:
  assumes docs: "open_documented S" "exec_documented S" "free_documented S" "close_documented S"
  shows "web_thread L sha1 bio S b r \<Longrightarrow> r = Inr b' \<Longrightarrow> bot_inv S w b \<Longrightarrow> bot_inv S w b'"
proof (induction rule: web_thread.induct)
  case (wt_web b r)
  then obtain s where s: "r = Inr s" "b' = b\<lparr>web := s\<rparr>" by (auto simp: bind_result_eq_Inr)
  have inv: "ws_inv 0 bot_callbacks (web b)" using wt_web(4) by (simp add: bot_inv_def)
  have n: "ws_inv 0 bot_callbacks s" "stays (web b) s"
    using service.step_inv[OF wt_web(1) s(1) inv] service.step_stays[OF wt_web(1) s(1) inv] .
  have "client_ok k (b\<lparr>web := s\<rparr>)" for k
    using wt_web(2,4) s(1) n(2) by (intro client_ok_stays) (auto simp: bot_inv_def)
  with wt_web(4) n(1) s(2) show ?case by (simp add: bot_inv_def)
next
  case (wt_open k b s resolved present)
  then show ?case using new_client_inv[OF docs] by blast
qed

lemma bot_step_inv:
  assumes docs: "open_documented S" "exec_documented S" "free_documented S" "close_documented S"
  shows "bot_step L sha1 bio S run stof b r \<Longrightarrow> r = Inr b' \<Longrightarrow> bot_inv S w b \<Longrightarrow> bot_inv S w b'"
proof (induction rule: bot_step.induct)
  case (bs_page b h)
  then have "loop_inv h" using http_step_inv by (auto simp: bot_inv_def)
  moreover have "client_ok k (b\<lparr>web_page := h\<rparr>) = client_ok k b" for k
    by (simp add: client_ok_def split: option.split)
  ultimately show ?case using bs_page by (auto simp: bot_inv_def)
next
  case (bs_thread b r)
  from web_thread_inv[OF docs this] show ?case .
next
  case (bs_client b k st ev r)
  then obtain st' where st': "r = Inr st'" "b' = client_store k ev st' b" by (auto simp: bind_result_eq_Inr)
  show ?case unfolding st'(2)
    by (rule client_event_inv[OF bs_client(4,1)]) (use bs_client(2) st'(1) in simp)
qed

lemma bot_runs_inv:
  assumes docs: "open_documented S" "exec_documented S" "free_documented S" "close_documented S"
  shows "bot_runs L sha1 bio S run stof b c \<Longrightarrow> bot_inv S w b \<Longrightarrow> bot_inv S w c"
  by (induction rule: bot_runs.induct) (auto intro: bot_step_inv[OF docs])

lemma bot_fields:
  assumes "bot_main argv = Inr b"
  shows "bot_http b = http_server_ctor 8080 1" "map snd (bot_endpoints b) = bot_callbacks"
    "unstarted (bot_ws b)" "length (endpoint_table (bot_ws b)) = 2" "timeout_idle (bot_ws b) = 0"
    "timeout_request (bot_ws b) = 5" "map fst (endpoint_table (bot_ws b)) = [channel_pattern, echo_pattern]"
    "bot_login b = (argv ! 1, argv ! 2)" "timers (bot_ws b) = []"
  using assms pattern_order
  by (auto simp: bot_main_def Let_def unstarted_def ws_server_ctor_def server_ctor_def server.defs timeout_idle_def
      split: if_splits)

lemma bot_started_inv:
  assumes "bot_main argv = Inr b" "bot_started N b w = Inr c"
  shows "bot_inv S w c" "login c = (argv ! 1, argv ! 2)"
proof -
  note f = bot_fields[OF assms(1)]
  obtain h s where hs: "http_start N [] (bot_http b) = Inr h" "ws_start N (bot_ws b) = Inr s"
    and c: "c = \<lparr>web_page = h, web = ws_loop_of bot_callbacks s, chat = (\<lambda>k. None), login = bot_login b, world = w,
      irc_in = (\<lambda>k. [])\<rparr>"
    using assms(2) f(2) by (auto simp: bot_started_def bot_run_def bind_result_eq_Inr)
  have "loop_inv h" using http_start_inv hs(1) f(1) by metis
  moreover have "ws_inv 0 bot_callbacks (ws_loop_of bot_callbacks s)"
    using ws_start_inv[OF hs(2) f(3), of bot_callbacks] f(4,5) by simp
  ultimately show "bot_inv S w c" "login c = (argv ! 1, argv ! 2)"
    unfolding c using f(8) by (simp_all add: bot_inv_def client_ok_def listed_def ws_loop_of_def ws_server.defs)
qed

section \<open>Reachable states\<close>

lemma bot_step_login: "bot_step L sha1 bio S run stof b r \<Longrightarrow> r = Inr d \<Longrightarrow> login d = login b"
proof (induction rule: bot_step.induct)
  case (bs_thread b r)
  then show ?case
    by (auto simp: new_twitch_client_def bind_result_def elim!: web_thread.cases split: if_splits sum.splits)
qed (auto simp: client_store_def bind_result_def split: sum.splits)

lemma bot_reachable:
  assumes "open_documented S" "exec_documented S" "free_documented S" "close_documented S"
    and "bot_main argv = Inr b" "bot_started N b w = Inr c" "bot_runs L sha1 bio S run stof c d"
  shows "bot_inv S w d"
  by (rule bot_runs_inv[OF assms(1-4,7) bot_started_inv(1)[OF assms(5,6)]])

lemma bot_web_inv:
  assumes "bot_inv S w d"
  shows "ws_inv 0 bot_callbacks (web d)" "loop_inv (web d)"
  using assms by (simp_all add: bot_inv_def ws_inv_def)

lemma serving_phase:
  assumes "ws_inv T cbs s"
  shows "(\<exists>i. listed i k s) \<longleftrightarrow> phase (conns s k) \<noteq> Not_Reading"
    "life_of (events (conns s k)) = Some (life_at k s)"
    "life_at k s = Live \<longleftrightarrow> phase (conns s k) \<noteq> Not_Reading"
proof -
  have ok: "socket_ok k s" using assms by (simp add: ws_inv_def)
  show l: "(\<exists>i. listed i k s) \<longleftrightarrow> phase (conns s k) \<noteq> Not_Reading"
    using ok by (cases "ws_stage s k") (auto simp: socket_ok_def listed_def connection_ctor_def conn_ok_def reading_inv_def)
  show "life_of (events (conns s k)) = Some (life_at k s)" using ok by (simp add: socket_ok_def)
  show "life_at k s = Live \<longleftrightarrow> phase (conns s k) \<noteq> Not_Reading"
    unfolding l[symmetric] by (cases "ws_stage s k") (auto simp: life_at_def listed_def)
qed

lemma table_listed:
  assumes "ws_inv T cbs s" "i < length (endpoint_table s)"
  shows "k \<in> snd (endpoint_table s ! i) \<longleftrightarrow> listed i k s"
  using assms by (simp add: ws_inv_def table_ok_def listed_def)

lemma get_connections_listed:
  assumes "ws_inv T cbs s"
  shows "k \<in> get_connections s \<longleftrightarrow> (\<exists>i. listed i k s)"
proof -
  have "k \<in> get_connections s \<longleftrightarrow> (\<exists>i < length (endpoint_table s). k \<in> snd (endpoint_table s ! i))"
  proof -
    have "k \<in> get_connections s \<longleftrightarrow> (\<exists>e \<in> set (endpoint_table s). k \<in> snd e)"
      by (simp add: get_connections_eq case_prod_beta)
    also have "\<dots> \<longleftrightarrow> (\<exists>i < length (endpoint_table s). k \<in> snd (endpoint_table s ! i))"
      by (metis in_set_conv_nth)
    finally show ?thesis .
  qed
  moreover have "i < length (endpoint_table s)" if "listed i k s" for i
  proof -
    have "socket_ok k s" "length (endpoint_table s) = length (callbacks s)"
      using assms by (simp_all add: ws_inv_def table_ok_def)
    with that show ?thesis by (simp add: socket_ok_def listed_def)
  qed
  ultimately show ?thesis using table_listed[OF assms] by blast
qed

end
