(* ===== verification/Bot_Routes.thy ===== *)
theory Bot_Routes
  imports Bot
begin

text \<open>
  The two patterns of \<^verbatim>\<open>src/bot.cpp\<close> as regular expressions, and which paths they take. Boost's
  \<open>regex_match\<close> is a parameter that gets the pattern as text; \<open>route_contract\<close> is its documented
  behaviour on these two, in terms of the reference matcher of \<open>Perl_Regex\<close>.
\<close>

section \<open>The patterns\<close>

definition lits :: "string \<Rightarrow> rx list" where
  "lits w = map (\<lambda>c. Chars False [c]) w"

definition name_chars :: string where
  "name_chars = ''abcdefghijklmnopqrstuvwxyz0123456789''"

definition echo_rx :: rx where
  "echo_rx = rx_seq (Bol # lits ''/echo'' @ [Opt (Chars False ''/''), Eol])"

definition channel_rx :: rx where
  "channel_rx = rx_seq (Bol # lits ''/channel/'' @
     [Group 1 (Seq (Chars False name_chars) (Star True False name_chars)), Opt (Chars False ''/''), Eol])"

text \<open>A match of the whole text; sub-match 0 is the text.\<close>

definition rx_full :: "rx \<Rightarrow> string \<Rightarrow> captures option" where
  "rx_full r s = map_option (\<lambda>cp. cp(0 \<mapsto> s))
     (rx_run r (\<lambda>(p, t, cp). if t = [] then Some cp else None) (None, s, Map.empty))"

definition route_contract :: "boost_lib \<Rightarrow> bool" where
  "route_contract L \<longleftrightarrow> (\<forall>s. bx_match L echo_pattern s = rx_full echo_rx s
     \<and> bx_match L channel_pattern s = rx_full channel_rx s)"

section \<open>Lemmas\<close>

lemma matches_lits:
  "rs \<noteq> [] \<Longrightarrow> rx_matches (rx_seq (lits w @ rs)) (p, s, cp) st' \<longleftrightarrow>
   (\<exists>t. s = w @ t \<and> rx_matches (rx_seq rs) (last_char p w, t, cp) st')"
proof (induction w arbitrary: p s)
  case (Cons c w)
  have q: "rx_seq (lits (c # w) @ rs) = Seq (Chars False [c]) (rx_seq (lits w @ rs))"
    using Cons.prems by (cases "lits w @ rs") (simp_all add: lits_def)
  show ?case
    unfolding q using Cons.IH[OF Cons.prems]
    by (fastforce elim: rx_seqE rx_charsE intro: m_seq m_chars)
qed (simp add: lits_def)

lemma matches_slash_end:
  "rx_matches (Seq (Opt (Chars False ''/'')) Eol) (p, t, cp) st' \<Longrightarrow> fst (snd st') = [] \<Longrightarrow>
   (t = [] \<or> t = ''/'') \<and> snd (snd st') = cp"
  by (auto elim!: rx_seqE rx_optE rx_charsE rx_eolE)

lemma slash_end_matches:
  "t = [] \<or> t = ''/'' \<Longrightarrow> \<exists>q. rx_matches (Seq (Opt (Chars False ''/'')) Eol) (p, t, cp) (q, [], cp)"
proof (erule disjE)
  assume t: "t = []"
  have e: "rx_matches Eol (p, [], cp) (p, [], cp)" by (rule m_eol) (simp add: at_eol_def)
  have "rx_matches (Opt (Chars False ''/'')) (p, [], cp) (p, [], cp)" by (rule m_opt_none)
  from m_seq[OF this e] t show ?thesis by blast
next
  assume t: "t = ''/''"
  have e: "rx_matches Eol (Some CHR ''/'', [], cp) (Some CHR ''/'', [], cp)" by (rule m_eol) (simp add: at_eol_def)
  have "rx_matches (Chars False ''/'') (p, ''/'', cp) (Some CHR ''/'', [], cp)" by (rule m_chars) simp
  from m_seq[OF m_opt_some[OF this] e] t show ?thesis by blast
qed

lemma matches_bol: "rx_matches (Seq Bol r) (None, s, cp) st' \<longleftrightarrow> rx_matches r (None, s, cp) st'"
proof
  have "rx_matches Bol (None, s, cp) (None, s, cp)" by (rule m_bol) (simp add: at_bol_def)
  then show "rx_matches r (None, s, cp) st' \<Longrightarrow> rx_matches (Seq Bol r) (None, s, cp) st'" by (rule m_seq)
qed (auto elim!: rx_seqE rx_bolE)

lemma rx_full_sound:
  assumes "rx_full r s = Some cp"
  obtains q cp' where "rx_matches r (None, s, Map.empty) (q, [], cp')" "cp = cp'(0 \<mapsto> s)"
proof -
  obtain cp' where c: "rx_run r (\<lambda>(p, t, cp). if t = [] then Some cp else None) (None, s, Map.empty) = Some cp'"
    "cp = cp'(0 \<mapsto> s)" using assms by (auto simp: rx_full_def)
  obtain st where "rx_matches r (None, s, Map.empty) st" "(\<lambda>(p, t, cp). if t = [] then Some cp else None) st = Some cp'"
    using rx_run_sound[OF c(1)] by blast
  with c(2) that show thesis by (cases st) (auto split: if_splits)
qed

lemma rx_full_complete: "rx_matches r (None, s, Map.empty) (q, [], cp) \<Longrightarrow> rx_full r s \<noteq> None"
  using rx_run_complete[of r "(None, s, Map.empty)" "(q, [], cp)" "\<lambda>(p, t, cp). if t = [] then Some cp else None"]
  by (simp add: rx_full_def)

lemma matches_echo:
  "rx_matches echo_rx (None, s, cp) st' \<longleftrightarrow>
   (\<exists>t. s = ''/echo'' @ t \<and> rx_matches (Seq (Opt (Chars False ''/'')) Eol) (Some CHR ''o'', t, cp) st')"
proof -
  have e: "echo_rx = Seq Bol (rx_seq (lits ''/echo'' @ [Opt (Chars False ''/''), Eol]))"
    by (simp add: echo_rx_def lits_def)
  show ?thesis unfolding e matches_bol by (subst matches_lits) simp_all
qed

lemma matches_channel:
  "rx_matches channel_rx (None, s, cp) st' \<longleftrightarrow>
   (\<exists>t. s = ''/channel/'' @ t \<and> rx_matches (Seq (Group 1 (Seq (Chars False name_chars) (Star True False name_chars)))
      (Seq (Opt (Chars False ''/'')) Eol)) (Some CHR ''/'', t, cp) st')"
proof -
  have e: "channel_rx = Seq Bol (rx_seq (lits ''/channel/'' @
     [Group 1 (Seq (Chars False name_chars) (Star True False name_chars)), Opt (Chars False ''/''), Eol]))"
    by (simp add: channel_rx_def lits_def)
  show ?thesis unfolding e matches_bol by (subst matches_lits) simp_all
qed

lemma matches_name:
  "rx_matches (Seq (Chars False name_chars) (Star True False name_chars)) (p, t, cp) (q, u, cp') \<longleftrightarrow>
   (\<exists>n. n \<noteq> [] \<and> set n \<subseteq> set name_chars \<and> t = n @ u \<and> q = last_char p n \<and> cp' = cp)"
proof
  assume "rx_matches (Seq (Chars False name_chars) (Star True False name_chars)) (p, t, cp) (q, u, cp')"
  then obtain x s1 w where "t = x # s1" "x \<in> set name_chars" "s1 = w @ u" "\<forall>y \<in> set w. y \<in> set name_chars"
    "q = last_char (Some x) w" "cp' = cp"
    by (auto elim!: rx_seqE rx_charsE rx_starE)
  then show "\<exists>n. n \<noteq> [] \<and> set n \<subseteq> set name_chars \<and> t = n @ u \<and> q = last_char p n \<and> cp' = cp"
    by (intro exI[of _ "x # w"]) auto
next
  assume "\<exists>n. n \<noteq> [] \<and> set n \<subseteq> set name_chars \<and> t = n @ u \<and> q = last_char p n \<and> cp' = cp"
  then obtain x w where n: "set (x # w) \<subseteq> set name_chars" "t = (x # w) @ u" "q = last_char p (x # w)" "cp' = cp"
    by (metis neq_Nil_conv)
  have a: "rx_matches (Chars False name_chars) (p, x # (w @ u), cp) (Some x, w @ u, cp)"
    by (rule m_chars) (use n(1) in simp)
  have b: "rx_matches (Star True False name_chars) (Some x, w @ u, cp) (last_char (Some x) w, u, cp)"
    by (rule m_star) (use n(1) in auto)
  from m_seq[OF a b] n(2-4) show "rx_matches (Seq (Chars False name_chars) (Star True False name_chars)) (p, t, cp) (q, u, cp')"
    by simp
qed

lemma echo_full: "rx_full echo_rx s \<noteq> None \<longleftrightarrow> s = ''/echo'' \<or> s = ''/echo/''"
proof
  assume "rx_full echo_rx s \<noteq> None"
  then obtain cp where "rx_full echo_rx s = Some cp" by blast
  then obtain q cp' where "rx_matches echo_rx (None, s, Map.empty) (q, [], cp')" by (rule rx_full_sound)
  then obtain t where t: "s = ''/echo'' @ t"
    "rx_matches (Seq (Opt (Chars False ''/'')) Eol) (Some CHR ''o'', t, Map.empty) (q, [], cp')"
    unfolding matches_echo by blast
  from matches_slash_end[OF t(2)] t(1) show "s = ''/echo'' \<or> s = ''/echo/''" by auto
next
  assume "s = ''/echo'' \<or> s = ''/echo/''"
  then obtain t where t: "s = ''/echo'' @ t" "t = [] \<or> t = ''/''" by auto
  obtain q where "rx_matches (Seq (Opt (Chars False ''/'')) Eol) (Some CHR ''o'', t, Map.empty) (q, [], Map.empty)"
    using slash_end_matches[OF t(2)] by blast
  with t(1) have "rx_matches echo_rx (None, s, Map.empty) (q, [], Map.empty)" unfolding matches_echo by blast
  then show "rx_full echo_rx s \<noteq> None" by (rule rx_full_complete)
qed

definition name_ok :: "string \<Rightarrow> bool" where
  "name_ok n \<longleftrightarrow> n \<noteq> [] \<and> set n \<subseteq> set name_chars"

lemma channel_full_sound:
  assumes "rx_full channel_rx s = Some cp"
  shows "\<exists>n. name_ok n \<and> (s = ''/channel/'' @ n \<or> s = ''/channel/'' @ n @ ''/'') \<and> sub_match cp 1 = n"
proof -
  obtain q cp' where m: "rx_matches channel_rx (None, s, Map.empty) (q, [], cp')" "cp = cp'(0 \<mapsto> s)"
    using assms by (rule rx_full_sound)
  then obtain t where t: "s = ''/channel/'' @ t" "rx_matches (Seq (Group 1 (Seq (Chars False name_chars) (Star True False name_chars)))
      (Seq (Opt (Chars False ''/'')) Eol)) (Some CHR ''/'', t, Map.empty) (q, [], cp')"
    unfolding matches_channel by blast
  from t(2) obtain st1 where g: "rx_matches (Group 1 (Seq (Chars False name_chars) (Star True False name_chars))) (Some CHR ''/'', t, Map.empty) st1"
    "rx_matches (Seq (Opt (Chars False ''/'')) Eol) st1 (q, [], cp')" by (rule rx_seqE)
  from g(1) obtain p' u c1 where u: "rx_matches (Seq (Chars False name_chars) (Star True False name_chars)) (Some CHR ''/'', t, Map.empty) (p', u, c1)"
    "st1 = (p', u, c1(1 \<mapsto> take (length t - length u) t))" by (auto elim!: rx_groupE)
  then obtain n where n: "n \<noteq> []" "set n \<subseteq> set name_chars" "t = n @ u" "c1 = Map.empty"
    unfolding matches_name by blast
  from g(2) u(2) have e: "rx_matches (Seq (Opt (Chars False ''/'')) Eol) (p', u, c1(1 \<mapsto> take (length t - length u) t)) (q, [], cp')"
    by simp
  from matches_slash_end[OF e] n t(1) m(2) show ?thesis
    by (intro exI[of _ n]) (auto simp: name_ok_def sub_match_def)
qed

lemma channel_full_complete:
  assumes "name_ok n" "s = ''/channel/'' @ n \<or> s = ''/channel/'' @ n @ ''/''"
  shows "rx_full channel_rx s \<noteq> None"
proof -
  from assms(2) obtain u where u: "s = ''/channel/'' @ n @ u" "u = [] \<or> u = ''/''" by auto
  let ?p = "last_char (Some CHR ''/'') n" and ?c = "Map.empty(1 \<mapsto> take (length (n @ u) - length u) (n @ u))"
  have "rx_matches (Seq (Chars False name_chars) (Star True False name_chars)) (Some CHR ''/'', n @ u, Map.empty) (?p, u, Map.empty)"
    unfolding matches_name using assms(1) by (auto simp: name_ok_def)
  from m_group[OF this] have g: "rx_matches (Group 1 (Seq (Chars False name_chars) (Star True False name_chars)))
    (Some CHR ''/'', n @ u, Map.empty) (?p, u, ?c)" .
  obtain q where "rx_matches (Seq (Opt (Chars False ''/'')) Eol) (?p, u, ?c) (q, [], ?c)"
    using slash_end_matches[OF u(2)] by blast
  from m_seq[OF g this] u(1) have "rx_matches channel_rx (None, s, Map.empty) (q, [], ?c)"
    unfolding matches_channel by blast
  then show ?thesis by (rule rx_full_complete)
qed

text \<open>What the contract says of a path.\<close>

lemma route_facts:
  assumes "route_contract L"
  shows "(bx_match L echo_pattern s \<noteq> None \<longleftrightarrow> s = ''/echo'' \<or> s = ''/echo/'')
    \<and> (bx_match L channel_pattern s \<noteq> None \<longleftrightarrow>
        (\<exists>n. name_ok n \<and> (s = ''/channel/'' @ n \<or> s = ''/channel/'' @ n @ ''/'')))
    \<and> (\<forall>cp. bx_match L channel_pattern s = Some cp \<longrightarrow>
        s = ''/channel/'' @ sub_match cp 1 \<or> s = ''/channel/'' @ sub_match cp 1 @ ''/'')
    \<and> (bx_match L echo_pattern s = None \<or> bx_match L channel_pattern s = None)"
proof -
  have L: "bx_match L echo_pattern s = rx_full echo_rx s" "bx_match L channel_pattern s = rx_full channel_rx s"
    using assms by (simp_all add: route_contract_def)
  have "rx_full echo_rx s = None \<or> rx_full channel_rx s = None"
  proof (rule ccontr)
    assume "\<not> ?thesis"
    then obtain cp where "rx_full echo_rx s \<noteq> None" "rx_full channel_rx s = Some cp" by auto
    with echo_full[of s] channel_full_sound[of s cp] show False by auto
  qed
  moreover have "rx_full channel_rx s \<noteq> None \<longleftrightarrow> (\<exists>n. name_ok n \<and> (s = ''/channel/'' @ n \<or> s = ''/channel/'' @ n @ ''/''))"
    using channel_full_sound channel_full_complete by blast
  moreover have "rx_full channel_rx s = Some cp \<Longrightarrow> s = ''/channel/'' @ sub_match cp 1 \<or> s = ''/channel/'' @ sub_match cp 1 @ ''/''" for cp
    using channel_full_sound by blast
  ultimately show ?thesis using echo_full[of s] unfolding L by blast
qed

text \<open>The sub-match of a channel's path is its name.\<close>

lemma channel_name:
  assumes "route_contract L" "name_ok n" "path = ''/channel/'' @ n \<or> path = ''/channel/'' @ n @ ''/''"
  shows "sub_match (the (bx_match L channel_pattern path)) 1 = n"
proof -
  have "bx_match L channel_pattern path = rx_full channel_rx path" using assms(1) by (simp add: route_contract_def)
  with channel_full_complete[OF assms(2,3)] obtain cp where c: "bx_match L channel_pattern path = Some cp"
    "rx_full channel_rx path = Some cp" by auto
  obtain m where m: "name_ok m" "path = ''/channel/'' @ m \<or> path = ''/channel/'' @ m @ ''/''" "sub_match cp 1 = m"
    using channel_full_sound[OF c(2)] by blast
  have "CHR ''/'' \<notin> set m" "CHR ''/'' \<notin> set n" using m(1) assms(2) by (auto simp: name_ok_def name_chars_def)
  with m(2) assms(3) have "m = n" by auto
  with m(3) c(1) show ?thesis by simp
qed

section \<open>Properties\<close>

text \<open>C20: Which endpoint of the program a path opens: the echo endpoint for \<^verbatim>\<open>/echo\<close> and \<^verbatim>\<open>/echo/\<close>, the channel
  endpoint for \<^verbatim>\<open>/channel/\<close> and a name of small letters and digits, with or without a slash behind
  it, and then the first sub-match is the name; any other path opens none, and no path both.\<close>

theorem routes:
  assumes "route_contract L"
  shows "(bx_match L echo_pattern s \<noteq> None \<longleftrightarrow> s = ''/echo'' \<or> s = ''/echo/'')
    \<and> (bx_match L channel_pattern s \<noteq> None \<longleftrightarrow>
        (\<exists>n. name_ok n \<and> (s = ''/channel/'' @ n \<or> s = ''/channel/'' @ n @ ''/'')))
    \<and> (\<forall>cp. bx_match L channel_pattern s = Some cp \<longrightarrow>
        s = ''/channel/'' @ sub_match cp 1 \<or> s = ''/channel/'' @ sub_match cp 1 @ ''/'')
    \<and> (bx_match L echo_pattern s = None \<or> bx_match L channel_pattern s = None)"
  by (rule route_facts[OF assms])

text \<open>A library whose \<open>regex_match\<close> is as documented on the two patterns.\<close>

definition route_boost :: boost_lib where
  "route_boost = ref_boost\<lparr>bx_match := (\<lambda>pat s. if pat = echo_pattern then rx_full echo_rx s
     else if pat = channel_pattern then rx_full channel_rx s else None)\<rparr>"

lemma route_boost_contract: "route_contract route_boost" "boost_contract route_boost"
proof -
  have "echo_pattern \<noteq> channel_pattern" by (simp add: echo_pattern_def channel_pattern_def)
  then show "route_contract route_boost" by (auto simp: route_contract_def route_boost_def)
  show "boost_contract route_boost"
    using ref_boost_contract
    by (simp add: boost_contract_def split_contract_def join_contract_def format_contract_def route_boost_def)
qed

theorem routes_witness:
  "bx_match route_boost echo_pattern ''/echo/'' \<noteq> None \<and> bx_match route_boost channel_pattern ''/channel/ann7'' \<noteq> None
   \<and> bx_match route_boost channel_pattern ''/channel/Ann'' = None"
proof -
  have "name_ok ''ann7''" by (simp add: name_ok_def name_chars_def)
  moreover have "\<nexists>n. name_ok n \<and> (''/channel/Ann'' = ''/channel/'' @ n \<or> ''/channel/Ann'' = ''/channel/'' @ n @ ''/'')"
    by (auto simp: name_ok_def name_chars_def append_eq_Cons_conv)
  ultimately show ?thesis
    using routes[OF route_boost_contract(1), of "''/echo/''"] routes[OF route_boost_contract(1), of "''/channel/ann7''"]
      routes[OF route_boost_contract(1), of "''/channel/Ann''"] by auto
qed
end
