(* ===== verification/Bot_Sessions.thy ===== *)
theory Bot_Sessions
  imports Bot_Loop Bot_Routes
begin

text \<open>
  Whole sessions of the program of \<open>Bot_Loop\<close>, from the accept of a socket to the bytes on its wire,
  as runs of its step relation that start in any reachable state in which a socket is waiting to be
  accepted: the components' lemmas about the request, the frames read, the
  lines of the IRC server and the strand are lifted to runs and put one behind the other.
\<close>

section \<open>One connection of the program\<close>

lemma bot_runs_trans:
  "bot_runs L sha1 bio S run stof c d \<Longrightarrow> bot_runs L sha1 bio S run stof b c \<Longrightarrow> bot_runs L sha1 bio S run stof b d"
  by (induction rule: bot_runs.induct) (auto intro: br_step)

lemma bot_runs_one: "bot_step L sha1 bio S run stof b (Inr c) \<Longrightarrow> bot_runs L sha1 bio S run stof b c"
  by (rule br_step[OF br_start])

text \<open>
  A step of the WebSocket server for socket \<open>k\<close>, which is not about to be opened at the channel
  endpoint, is one of the program, whatever the other sockets are about.
\<close>

lemma own_step:
  assumes "ws_step L sha1 bio (web b) (Inr s)" "\<And>j. j \<noteq> k \<Longrightarrow> ws_stage s j = ws_stage (web b) j"
    and "\<nexists>response. ws_stage (web b) k = Writing_Handshake 0 response"
  shows "bot_step L sha1 bio S run stof b (Inr (b\<lparr>web := s\<rparr>))"
proof -
  have "\<not> opens_at 0 j (web b) s" for j
  proof
    assume o: "opens_at 0 j (web b) s"
    then obtain response where "ws_stage (web b) j = Writing_Handshake 0 response" by (auto simp: opens_at_def)
    moreover have "ws_stage s j = Serving 0" by (rule opened_channel[OF o])
    ultimately show False using assms(2)[of j] assms(3) by (cases "j = k") auto
  qed
  then have "\<nexists>j s'. opens_at 0 j (web b) s' \<and> Inr s = (Inr s' :: ws_loop result)" by auto
  from bs_web[OF assms(1) this, of S run stof] show ?thesis by simp
qed

text \<open>The connection \<open>k\<close> is served by endpoint \<open>i\<close> and has the value \<open>c\<close>.\<close>

definition serves :: "nat \<Rightarrow> nat \<Rightarrow> connection \<Rightarrow> 'w bot_state \<Rightarrow> bool" where
  "serves i k c b \<longleftrightarrow> ws_stage (web b) k = Serving i \<and> is_open (web b) k \<and> conns (web b) k = c
     \<and> callbacks (web b) = bot_callbacks \<and> timeout_idle (web b) = 0"

text \<open>What the steps of a connection leave alone, and the bytes that have arrived on its socket.\<close>

definition beside :: "nat \<Rightarrow> byte list \<Rightarrow> 'w bot_state \<Rightarrow> 'w bot_state \<Rightarrow> bool" where
  "beside k bs b b' \<longleftrightarrow> chat b' = chat b \<and> login b' = login b \<and> conn_match (web b') = conn_match (web b)
     \<and> world b' = world b \<and> irc_in b' = irc_in b \<and> responses (web b') = responses (web b)
     \<and> arrived (web b') = (arrived (web b))(k := arrived (web b) k @ bs)"

lemma beside_refl [simp]: "beside k [] b b"
  by (simp add: beside_def)

lemma beside_trans: "beside k bs b c \<Longrightarrow> beside k cs c d \<Longrightarrow> beside k (bs @ cs) b d"
  by (simp add: beside_def)

lemma serves_step:
  assumes "serves i k c b" "ws_step L sha1 bio (web b) (Inr (store_conn i k d (note_arrived k bs (web b))))"
  shows "\<exists>b'. bot_step L sha1 bio S run stof b (Inr b') \<and> serves i k d b' \<and> beside k bs b b'"
proof -
  have "bot_step L sha1 bio S run stof b (Inr (b\<lparr>web := store_conn i k d (note_arrived k bs (web b))\<rparr>))"
    by (rule own_step[OF assms(2), of k]) (use assms(1) in \<open>simp_all add: serves_def store_conn_def note_arrived_def\<close>)
  moreover have "serves i k d (b\<lparr>web := store_conn i k d (note_arrived k bs (web b))\<rparr>)"
    using assms(1) by (simp add: serves_def store_conn_def timeout_idle_def note_arrived_def)
  moreover have "beside k bs b (b\<lparr>web := store_conn i k d (note_arrived k bs (web b))\<rparr>)"
    by (simp add: beside_def store_conn_def note_arrived_def)
  ultimately show ?thesis by blast
qed

text \<open>The bytes of a feed arrive as reads, one after the other.\<close>

lemma feed_runs:
  assumes "feed 0 (bot_callbacks ! i) bs c = Inr (d, r)" "serves i k c b"
  shows "\<exists>b' xs. bot_runs L sha1 bio S run stof b b' \<and> serves i k d b' \<and> beside k xs b b' \<and> bs = xs @ r"
  using assms
proof (induction "0 :: nat" "bot_callbacks ! i" bs c arbitrary: b rule: feed.induct)
  case (1 bs c)
  show ?case
  proof (cases "wanted (phase c) = 0 \<or> length bs < wanted (phase c)")
    case True
    with "1.prems" have "d = c" "r = bs" by (subst (asm) feed.simps; auto)+
    with "1.prems"(2) have "serves i k d b" "beside k [] b b" "bs = [] @ r" by simp_all
    then show ?thesis using br_start by blast
  next
    case False
    then obtain e where e: "read_done 0 (bot_callbacks ! i) False (take (wanted (phase c)) bs) c = Inr e"
      and f: "feed 0 (bot_callbacks ! i) (drop (wanted (phase c)) bs) e = Inr (d, r)"
      using "1.prems"(1) by (subst (asm) feed.simps) (auto split: sum.splits)
    have sv: "ws_stage (web b) k = Serving i" "is_open (web b) k" "conns (web b) k = c"
      "callbacks (web b) = bot_callbacks" "timeout_idle (web b) = 0" using "1.prems"(2) by (simp_all add: serves_def)
    have rr: "read_result (phase (conns (web b) k)) False (take (wanted (phase c)) bs)"
      using False sv(3) by (cases "phase c") (auto simp: read_result_def)
    let ?x = "take (wanted (phase c)) bs"
    have "ws_step L sha1 bio (web b) (Inr (store_conn i k e (note_arrived k ?x (web b))))"
      using wl_read[OF sv(1) disjI1[OF sv(2)] rr, of L sha1 bio] e sv by (simp add: on_conn_def)
    from serves_step[OF "1.prems"(2) this] obtain b1 where b1: "bot_step L sha1 bio S run stof b (Inr b1)"
      "serves i k e b1" "beside k ?x b b1" by blast
    obtain b' xs where b': "bot_runs L sha1 bio S run stof b1 b'" "serves i k d b'" "beside k xs b1 b'"
      "drop (wanted (phase c)) bs = xs @ r"
      using "1.hyps"[OF False e f b1(2)] by blast
    have "bs = (?x @ xs) @ r" using b'(4) by (metis append_assoc append_take_drop_id)
    with bot_runs_trans[OF b'(1) bot_runs_one[OF b1(1)]] b'(2) beside_trans[OF b1(3) b'(3)] show ?thesis by blast
  qed
qed

text \<open>The strand of a connection is that of its sending side.\<close>

lemma truncate_fields [simp]:
  "strand (sender.truncate c) = strand c" "send_queue (sender.truncate c) = send_queue c"
  "writes (sender.truncate c) = writes c" "wire (sender.truncate c) = wire c" "called (sender.truncate c) = called c"
  by (simp_all add: sender.truncate_def)

lemma truncate_update:
  "(sender.truncate c)\<lparr>strand := a\<rparr> = sender.truncate (c\<lparr>strand := a\<rparr>)"
  "(sender.truncate c)\<lparr>send_queue := q\<rparr> = sender.truncate (c\<lparr>send_queue := q\<rparr>)"
  "(sender.truncate c)\<lparr>writes := w\<rparr> = sender.truncate (c\<lparr>writes := w\<rparr>)"
  "(sender.truncate c)\<lparr>wire := v\<rparr> = sender.truncate (c\<lparr>wire := v\<rparr>)"
  "(sender.truncate c)\<lparr>called := k\<rparr> = sender.truncate (c\<lparr>called := k\<rparr>)"
  by (simp_all add: sender.truncate_def)

lemma run_task_truncate: "run_task (sender.truncate c) = map_option (map_sum id sender.truncate) (run_task c)"
  by (simp add: run_task_def run_post_send_def run_post_write_def send_from_queue_def Let_def truncate_update
      split: list.split task.split)

lemma call_back_truncate: "call_back d ec (sender.truncate c) = sender.truncate (call_back d ec c)"
  by (simp add: call_back_def truncate_update split: option.split)

lemma call_back_queue [simp]: "send_queue (call_back d ec c) = send_queue c"
  by (simp add: call_back_def split: option.split)

lemma written_truncate:
  "header_written ec (sender.truncate c) = map_sum id sender.truncate (header_written ec c)"
  "message_written ec (sender.truncate c) = map_sum id sender.truncate (message_written ec c)"
  by (simp_all add: header_written_def message_written_def send_from_queue_def Let_def call_back_truncate truncate_update
      split: list.split)

lemma complete_truncate: "complete i ec bs (sender.truncate c) = map_option (map_sum id sender.truncate) (complete i ec bs c)"
  by (simp add: complete_def Let_def truncate_update written_truncate split: write_op.split)

lemma ok_step_conn:
  assumes "ok_step (sender.truncate c) u"
  obtains d where "run_task c = Some (Inr d) \<or> (\<exists>j bs. complete j False bs c = Some (Inr d))" "u = sender.truncate d"
proof -
  from assms have "run_task (sender.truncate c) = Some (Inr u) \<or> (\<exists>j bs. complete j False bs (sender.truncate c) = Some (Inr u))"
    by (auto simp: ok_step_def elim!: send_step.cases)
  then obtain r where r: "map_sum id sender.truncate r = (Inr u :: sender result)"
    "run_task c = Some r \<or> (\<exists>j bs. complete j False bs c = Some r)"
    unfolding run_task_truncate complete_truncate by (auto simp: map_option_eq_Some)
  from r(1) obtain d where "r = Inr d" "u = sender.truncate d" by (cases r) auto
  with r(2) that show thesis by blast
qed

lemma strand_runs:
  assumes "ok_step\<^sup>*\<^sup>* (sender.truncate c) u" "serves i k c b"
  shows "\<exists>b' d. bot_runs L sha1 bio S run stof b b' \<and> serves i k d b' \<and> beside k [] b b' \<and> sender.truncate d = u
    \<and> sender.more d = sender.more c"
  using assms
proof (induction "sender.truncate c" arbitrary: b c rule: converse_rtranclp_induct)
  case base
  have "bot_runs L sha1 bio S run stof b b" by (rule br_start)
  with base show ?case using beside_refl[of k b] by metis
next
  case (step v)
  obtain d where d: "run_task c = Some (Inr d) \<or> (\<exists>j bs. complete j False bs c = Some (Inr d))" "v = sender.truncate d"
    using step(1) by (rule ok_step_conn)
  have sv: "ws_stage (web b) k = Serving i" "is_open (web b) k" "conns (web b) k = c"
    using step(4) by (simp_all add: serves_def)
  have "note_arrived k [] (web b) = web b" by (simp add: note_arrived_def)
  then have "ws_step L sha1 bio (web b) (Inr (store_conn i k d (note_arrived k [] (web b))))"
    using d(1) wl_task[OF sv(1), of "Inr d" L sha1 bio] wl_written[OF sv(1) disjI1[OF sv(2)], of _ False _ "Inr d" L sha1 bio] sv(3)
    by (auto simp: on_conn_def)
  from serves_step[OF step(4) this] obtain b1 where b1: "bot_step L sha1 bio S run stof b (Inr b1)" "serves i k d b1" "beside k [] b b1"
    by blast
  have m: "sender.more d = sender.more c" using d(1) run_task_more complete_more by blast
  obtain b' e where e: "bot_runs L sha1 bio S run stof b1 b'" "serves i k e b'" "beside k [] b1 b'" "sender.truncate e = u"
    "sender.more e = sender.more d" using step(3)[OF d(2) b1(2)] by blast
  from bot_runs_trans[OF e(1) bot_runs_one[OF b1(1)]] e(2,4) beside_trans[OF b1(3) e(3), simplified] m e(5) show ?case by metis
qed

section \<open>From the accept to the response\<close>

text \<open>A socket is waiting to be accepted; it has no connection yet.\<close>

definition ready :: "nat \<Rightarrow> 'w bot_state \<Rightarrow> bool" where
  "ready k c \<longleftrightarrow> accepting (web c) = [k] \<and> ws_stage (web c) k = No_Endpoint \<and> conns (web c) k = connection_ctor
     \<and> opt_endpoint (web c) = [channel_pattern, echo_pattern] \<and> callbacks (web c) = bot_callbacks
     \<and> timeout_idle (web c) = 0"

text \<open>The socket is accepted, its request read and answered; the response is under way.\<close>

definition answered ::
  "nat \<Rightarrow> nat \<Rightarrow> captures \<Rightarrow> string \<Rightarrow> string \<Rightarrow> 'w bot_state \<Rightarrow> 'w bot_state \<Rightarrow> bool"
where
  "answered k i pm resp buf c d \<longleftrightarrow> ws_stage (web d) k = Writing_Handshake i resp
     \<and> conns (web d) k = connection_ctor \<and> conn_match (web d) k = pm \<and> is_open (web d) k
     \<and> callbacks (web d) = bot_callbacks \<and> timeout_idle (web d) = 0
     \<and> chat d = chat c \<and> login d = login c \<and> world d = world c \<and> irc_in d = irc_in c
     \<and> arrived (web d) k = arrived (web c) k @ bytes_of buf"

lemma request_answered:
  assumes "ready k c"
    and "handshake_read L sha1 bio (numbered [channel_pattern, echo_pattern]) False buf = Some (Inr (Some (i, pm, resp, [])))"
    and "has_blank_line buf" "length buf < size_max"
  shows "\<exists>d. bot_runs L sha1 bio S run stof c d \<and> answered k i pm resp buf c d"
proof -
  have f: "accepting (web c) = [k]" "ws_stage (web c) k = No_Endpoint" "conns (web c) k = connection_ctor"
    "opt_endpoint (web c) = [channel_pattern, echo_pattern]" "callbacks (web c) = bot_callbacks" "timeout_idle (web c) = 0"
    using assms(1) by (simp_all add: ready_def)
  define t where "t = read_handshake k (new_accept (take_accept False k (web c)))"
  define s1 where "s1 = t\<lparr>remote := (remote t)(k := read_remote_endpoint_data (None, None) (remote t k))\<rparr>"
  have s1: "ws_loop_accepted False (None, None) k (web c) = Inr s1"
    by (simp add: ws_loop_accepted_def ws_accepted_def Let_def s1_def t_def)
  have st: "ws_stage s1 = ws_stage (web c)" "arrived s1 = arrived (web c)"
    by (simp_all add: s1_def t_def read_handshake_def Let_def new_accept_def take_accept_def set_timeout_def)
  have g: "conns s1 k = connection_ctor" "is_open s1 k" "stage s1 k = Reading_Request"
    "opt_endpoint s1 = [channel_pattern, echo_pattern]" "callbacks s1 = bot_callbacks" "timeout_idle s1 = 0"
    using f by (simp_all add: s1_def t_def read_handshake_def Let_def new_accept_def take_accept_def set_timeout_def timeout_idle_def)
  have "ws_step L sha1 bio (web c) (Inr s1)" using wl_accept[of k "web c" L sha1 bio False "(None, None)"] f(1) s1 by simp
  from own_step[OF this, of k S run stof] f(2) st(1)
  have a: "bot_step L sha1 bio S run stof c (Inr (c\<lparr>web := s1\<rparr>))" by simp
  let ?c = "c\<lparr>web := s1\<rparr>"
  define s1' where "s1' = note_arrived k (bytes_of buf) s1"
  define u where "u = (if 0 < timeout_request s1' then cancel_timer k s1' else s1')"
  define s2 where "s2 = u\<lparr>stage := (stage u)(k := Done), conn_match := (conn_match u)(k := pm),
     ws_stage := (ws_stage u)(k := Writing_Handshake i resp),
     conns := (conns u)(k := (conns u k)\<lparr>read_buffer := []\<rparr>)\<rparr>"
  have u: "opt_endpoint u = [channel_pattern, echo_pattern]" "ws_stage u = ws_stage (web c)"
    using g st by (simp_all add: u_def s1'_def cancel_timer_def)
  have q: "ws_handshake_read L sha1 bio False buf k s1' = Some (Inr s2)"
    using assms(2) u(1) by (simp add: ws_handshake_read_def Let_def u_def[symmetric] s2_def bytes_of_def)
  have "ws_step L sha1 bio (web ?c) (Inr s2)"
    using wl_request[OF g(3), of False buf L sha1 bio] g(2) assms(3,4) q by (simp add: s1'_def)
  from own_step[OF this, of k S run stof] f(2) st(1) u(2)
  have b: "bot_step L sha1 bio S run stof ?c (Inr (?c\<lparr>web := s2\<rparr>))" by (simp add: s2_def)
  let ?d = "?c\<lparr>web := s2\<rparr>"
  have runs: "bot_runs L sha1 bio S run stof c ?d" by (rule br_step[OF bot_runs_one[OF a] b])
  have "answered k i pm resp buf c ?d"
    using g f st by (simp add: answered_def s2_def u_def s1'_def note_arrived_def cancel_timer_def timeout_idle_def connection_ctor_def)
  with runs show ?thesis by blast
qed

section \<open>The echo endpoint\<close>

lemma opened_channel_endpoint: "handshake_written T channel_endpoint False connection_ctor = Inr (opened T)"
  by (simp add: handshake_written_def connection_open_def timer_idle_init_def channel_endpoint_def
      note_event_def read_message_def opened_def connection_ctor_def)

definition served_state :: "nat \<Rightarrow> nat \<Rightarrow> string \<Rightarrow> ws_loop \<Rightarrow> ws_loop" where
  "served_state k i resp s = store_conn i k (opened 0)
     (s\<lparr>responses := (responses s)(k := resp), ws_stage := (ws_stage s)(k := Serving i)\<rparr>)"

lemma answered_written:
  assumes "answered k i pm resp buf c d" "i < 2"
  shows "ws_handshake_written False k (web d) = Inr (served_state k i resp (web d))"
proof -
  have "bot_callbacks ! i = channel_endpoint \<or> bot_callbacks ! i = echo_endpoint 0"
    using assms(2) by (cases i) auto
  then have "handshake_written 0 (bot_callbacks ! i) False connection_ctor = Inr (opened 0)"
    using opened_echo opened_channel_endpoint by metis
  with assms(1) show ?thesis
    by (simp add: answered_def ws_handshake_written_def on_conn_def served_state_def)
qed

lemma served_serves:
  assumes "answered k i pm resp buf c d" "web e = served_state k i resp (web d)"
  shows "serves i k (opened 0) e" "responses (web e) k = resp" "arrived (web e) k = arrived (web c) k @ bytes_of buf"
  using assms by (simp_all add: serves_def answered_def served_state_def store_conn_def timeout_idle_def)

lemma echo_served:
  assumes "answered k 1 pm resp buf c d"
  shows "\<exists>e. bot_runs L sha1 bio S run stof d e \<and> serves 1 k (opened 0) e \<and> responses (web e) k = resp
    \<and> arrived (web e) k = arrived (web c) k @ bytes_of buf"
proof -
  have w: "ws_handshake_written False k (web d) = Inr (served_state k 1 resp (web d))"
    by (rule answered_written[OF assms]) simp
  have a: "ws_stage (web d) k = Writing_Handshake 1 resp" "is_open (web d) k" using assms by (simp_all add: answered_def)
  have "ws_step L sha1 bio (web d) (Inr (served_state k 1 resp (web d)))"
    using wl_response[OF a(1), of False L sha1 bio] a(2) w by simp
  then have "bot_step L sha1 bio S run stof d (Inr (d\<lparr>web := served_state k 1 resp (web d)\<rparr>))"
    by (rule own_step[of _ _ _ _ _ k]) (simp_all add: a(1) served_state_def store_conn_def)
  moreover have "web (d\<lparr>web := served_state k 1 resp (web d)\<rparr>) = served_state k 1 resp (web d)" by simp
  ultimately show ?thesis using bot_runs_one served_serves[OF assms] by blast
qed

lemma feed_all_echoes:
  assumes "list_all frame_ok fs"
  shows "feed 0 (bot_callbacks ! 1) (concat (map frame_wire fs)) (opened 0) = Inr (echoed fs (opened 0), [])"
  using feed_echoes[OF awaiting_opened assms, of 0 "[]"] feed_nil[OF awaiting_echoed[OF awaiting_opened]] by simp

lemma opened_sender: "send_inv (opened T)" "stream (opened T) = []"
  by (simp_all add: opened_def connection_ctor_def send_inv_def agents_def stream_def queue_bytes_def)

lemma echoed_frames: "sender.truncate (echoed fs c) = sender.truncate (post_frames (map echo_of fs) c)"
  by (simp add: sender.truncate_def echoed_def post_frames_def)

lemma echo_runs:
  assumes "serves 1 k (opened 0) e" "list_all frame_ok fs"
  shows "\<exists>f. bot_runs L sha1 bio S run stof e f \<and> serves 1 k (conns (web f) k) f
    \<and> beside k (concat (map frame_wire fs)) e f \<and> events (conns (web f) k) = Opened # map received fs
    \<and> wire (conns (web f) k) = concat (map (\<lambda>(op, key, payload). frame_header 129 (length payload) @ payload) fs)"
proof -
  obtain e1 where e1: "bot_runs L sha1 bio S run stof e e1" "serves 1 k (echoed fs (opened 0)) e1"
    "beside k (concat (map frame_wire fs)) e e1"
    using feed_runs[OF feed_all_echoes[OF assms(2)] assms(1), of L sha1 bio S run stof] by auto
  obtain u where u: "ok_step\<^sup>*\<^sup>* (sender.truncate (echoed fs (opened 0))) u"
    "wire u = concat (map frame_bytes (map echo_of fs))"
    using written_in_the_end[OF opened_sender(1)[of 0], where ds = "map echo_of fs"] opened_sender(2)[of 0]
    unfolding echoed_frames by auto
  obtain f d where f: "bot_runs L sha1 bio S run stof e1 f" "serves 1 k d f" "sender.truncate d = u"
    "sender.more d = sender.more (echoed fs (opened 0))" "beside k [] e1 f"
    using strand_runs[OF u(1) e1(2), of L sha1 bio S run stof] by blast
  have b: "beside k (concat (map frame_wire fs)) e f" using beside_trans[OF e1(3) f(5)] by simp
  have d: "conns (web f) k = d" using f(2) by (simp add: serves_def)
  have ev: "events d = Opened # map received fs" using more_fields(6)[OF f(4)] by (simp add: echoed_def opened_def)
  have "wire d = wire u" using f(3) by auto
  moreover have "map frame_bytes (map echo_of fs) = map (\<lambda>(op, key, payload). frame_header 129 (length payload) @ payload) fs"
    by (auto simp: frame_bytes_def reply_frame_def)
  ultimately have w: "wire d = concat (map (\<lambda>(op, key, payload). frame_header 129 (length payload) @ payload) fs)"
    using u(2) by (simp only:)
  show ?thesis
    by (rule exI[of _ f], unfold d) (intro conjI bot_runs_trans[OF f(1) e1(1)] f(2) b ev w)
qed

section \<open>Requests of the two endpoints\<close>

lemma blank_line_request: "has_blank_line (request_text method path version hs [])"
proof (cases hs rule: rev_cases)
  case Nil
  then have "request_text method path version hs [] = (method @ SP # path @ SP # ''HTTP/'' @ version) @ CRLF @ CRLF @ []"
    by (simp add: request_text_def request_line_def header_lines_def CRLF_def)
  then show ?thesis unfolding has_blank_line_def by blast
next
  case (snoc ks h)
  obtain a b where h: "h = (a, b)" by force
  have "request_text method path version hs [] = (request_line method path version @ LF # header_lines ks
      @ butlast (header_line h)) @ CRLF @ CRLF @ []"
    unfolding snoc h by (simp add: request_text_def header_lines_def header_line_def CRLF_def butlast_append)
  then show ?thesis unfolding has_blank_line_def by blast
qed

lemma found_endpoint:
  assumes "route_contract L"
  shows "path = ''/echo'' \<or> path = ''/echo/'' \<Longrightarrow>
      List.find (\<lambda>(pat, ep). bx_match L pat path \<noteq> None) (numbered [channel_pattern, echo_pattern]) = Some (echo_pattern, 1)"
    and "name_ok n \<Longrightarrow> path = ''/channel/'' @ n \<or> path = ''/channel/'' @ n @ ''/'' \<Longrightarrow>
      List.find (\<lambda>(pat, ep). bx_match L pat path \<noteq> None) (numbered [channel_pattern, echo_pattern]) = Some (channel_pattern, 0)"
proof -
  have n: "numbered [channel_pattern, echo_pattern] = [(channel_pattern, 0), (echo_pattern, 1)]"
    by (simp add: numbered_def)
  note f = route_facts[OF assms, of path]
  show "List.find (\<lambda>(pat, ep). bx_match L pat path \<noteq> None) (numbered [channel_pattern, echo_pattern]) = Some (echo_pattern, 1)"
    if "path = ''/echo'' \<or> path = ''/echo/''"
  proof -
    have "bx_match L echo_pattern path \<noteq> None" using conjunct1[OF f] that by (rule iffD2)
    with f have "bx_match L channel_pattern path = None" by argo
    note this \<open>bx_match L echo_pattern path \<noteq> None\<close>
    then show ?thesis unfolding n by simp
  qed
  show "List.find (\<lambda>(pat, ep). bx_match L pat path \<noteq> None) (numbered [channel_pattern, echo_pattern]) = Some (channel_pattern, 0)"
    if "name_ok n" "path = ''/channel/'' @ n \<or> path = ''/channel/'' @ n @ ''/''"
  proof -
    have "bx_match L channel_pattern path \<noteq> None"
      by (rule iffD2[OF conjunct1[OF conjunct2[OF f]]]) (use that in blast)
    then show ?thesis unfolding n by simp
  qed
qed

text \<open>The text the program answers a key with.\<close>

definition accepts_key :: "(string \<Rightarrow> nat list) \<Rightarrow> (string \<Rightarrow> string) \<Rightarrow> string \<Rightarrow> string" where
  "accepts_key sha1 bio key = handshake_text (bio (digest_text (sha1 (key @ ws_magic_string))))"

text \<open>A well-formed request with a key, and the endpoint that answers it.\<close>

definition upgrade :: "string \<Rightarrow> string \<Rightarrow> string \<Rightarrow> (string \<times> string) list \<Rightarrow> string \<Rightarrow> bool" where
  "upgrade method path version hs key \<longleftrightarrow> word_ok method \<and> word_ok path \<and> LF \<notin> set version
     \<and> list_all header_valid hs \<and> length (request_text method path version hs []) < size_max
     \<and> (\<exists>h. List.find (\<lambda>(k, v). ''sec-websocket-key'' = k) hs = Some (h, key))"

lemma upgrade_answered:
  assumes "ready k c" "bio_contract bio" "upgrade method path version hs key"
    and "List.find (\<lambda>(pat, ep). bx_match L pat path \<noteq> None) (numbered [channel_pattern, echo_pattern]) = Some (pat, i)"
  shows "\<exists>d. bot_runs L sha1 bio S run stof c d
    \<and> answered k i (the (bx_match L pat path)) (accepts_key sha1 bio key) (request_text method path version hs []) c d"
proof -
  have u: "word_ok method" "word_ok path" "LF \<notin> set version" "list_all header_valid hs"
    "length (request_text method path version hs []) < size_max"
    "\<exists>h. List.find (\<lambda>(k, v). ''sec-websocket-key'' = k) hs = Some (h, key)"
    using assms(3) unfolding upgrade_def by blast+
  obtain h where h: "List.find (\<lambda>(k, v). ''sec-websocket-key'' = k) hs = Some (h, key)" using u(6) by blast
  have "handshake_read L sha1 bio (numbered [channel_pattern, echo_pattern]) False (request_text method path version hs [])
    = Some (Inr (Some (i, the (bx_match L pat path), accepts_key sha1 bio key, [])))"
    by (subst handshake_reply[OF assms(2) u(1-5)]) (simp only: assms(4) h option.case prod.case accepts_key_def)
  from request_answered[OF assms(1) this blank_line_request u(5)] show ?thesis .
qed

section \<open>Echo sessions\<close>

lemma echo_session_runs:
  assumes "ready k c" "route_contract L" "bio_contract bio"
    and "path = ''/echo'' \<or> path = ''/echo/''" "upgrade method path version hs key" "list_all frame_ok fs"
  shows "\<exists>e. bot_runs L sha1 bio S run stof c e
    \<and> arrived (web e) k = arrived (web c) k @ bytes_of (request_text method path version hs []) @ concat (map frame_wire fs)
    \<and> responses (web e) k = accepts_key sha1 bio key
    \<and> events (conns (web e) k) = Opened # map received fs
    \<and> wire (conns (web e) k) = concat (map (\<lambda>(op, key, payload). frame_header 129 (length payload) @ payload) fs)"
proof -
  obtain d where d: "bot_runs L sha1 bio S run stof c d" "answered k 1 (the (bx_match L echo_pattern path))
      (accepts_key sha1 bio key) (request_text method path version hs []) c d"
    using upgrade_answered[OF assms(1,3,5) found_endpoint(1)[OF assms(2,4)], of sha1 S run stof] by blast
  obtain e1 where e1: "bot_runs L sha1 bio S run stof d e1" "serves 1 k (opened 0) e1"
    "responses (web e1) k = accepts_key sha1 bio key" "arrived (web e1) k = arrived (web c) k @ bytes_of (request_text method path version hs [])"
    using echo_served[OF d(2), of L sha1 bio S run stof] by blast
  obtain e where e: "bot_runs L sha1 bio S run stof e1 e" "beside k (concat (map frame_wire fs)) e1 e"
    "events (conns (web e) k) = Opened # map received fs"
    "wire (conns (web e) k) = concat (map (\<lambda>(op, key, payload). frame_header 129 (length payload) @ payload) fs)"
    using echo_runs[OF e1(2) assms(6), of L sha1 bio S run stof] by blast
  have "arrived (web e) k = arrived (web c) k @ bytes_of (request_text method path version hs []) @ concat (map frame_wire fs)"
    "responses (web e) k = accepts_key sha1 bio key"
    using e(2) e1(3,4) by (simp_all add: beside_def)
  with bot_runs_trans[OF e(1) bot_runs_trans[OF e1(1) d(1)]] e(3,4) show ?thesis by blast
qed

section \<open>Channel sessions\<close>

text \<open>A client is created when the response has been written.\<close>

lemma channel_served:
  fixes d :: "'w bot_state"
  assumes "answered k 0 pm resp buf c d"
    and "db_session S p \<lparr>out = [], err = []\<rparr> (world d) = Inr r"
  shows "\<exists>e st. bot_runs L sha1 bio S run stof d e \<and> serves 0 k (opened 0) e \<and> responses (web e) k = resp
    \<and> arrived (web e) k = arrived (web c) k @ bytes_of buf \<and> irc_in e = irc_in c \<and> chat e k = Some st
    \<and> m_nick st = fst (login d) \<and> m_pass st = snd (login d) \<and> path_match st = pm \<and> m_connection st = opened 0
    \<and> outbox st = [] \<and> response st = [] \<and> json_requests st = []"
proof -
  obtain cn w' where r: "db_session S p \<lparr>out = [], err = []\<rparr> (world d) = Inr (cn, w')" using assms(2) by (cases r) auto
  define t where "t = irc_client.extend (irc_client_ctor (fst (login d)) (snd (login d)))
    \<lparr>m_connection = opened 0, path_match = pm, json_requests = []\<rparr>"
  have t: "cout t = []" "m_nick t = fst (login d)" "m_pass t = snd (login d)" "path_match t = pm"
    "m_connection t = opened 0" "outbox t = []" "response t = []" "json_requests t = []"
    by (simp_all add: t_def irc_client.defs irc_client_ctor_def)
  let ?s = "served_state k 0 resp (web d)" and ?st = "t\<lparr>cout := out cn\<rparr>"
  let ?e = "d\<lparr>web := ?s, chat := (chat d)(k \<mapsto> ?st), world := w'\<rparr>"
  have s: "conns ?s k = opened 0" "conn_match ?s k = pm"
    using assms(1) by (simp_all add: served_state_def store_conn_def answered_def)
  have "opens_at 0 k (web d) ?s"
    using assms(1) answered_written[OF assms(1)] by (auto simp: opens_at_def answered_def)
  from bs_open[OF this, of L sha1 bio S run stof True p]
  have "bot_step L sha1 bio S run stof d (Inr ?e)"
    using r t(1) by (simp add: new_twitch_client_def twitch_client_ctor_def Let_def s t_def[symmetric])
  moreover have "web ?e = ?s" by simp
  note served_serves[OF assms(1) this]
  moreover have "irc_in ?e = irc_in c" using assms(1) by (simp add: answered_def)
  ultimately show ?thesis using t bot_runs_one by (intro exI[of _ ?e] exI[of _ ?st]) auto
qed

text \<open>One handler of a client, and what it leaves alone.\<close>

definition client_at :: "nat \<Rightarrow> twitch_client \<Rightarrow> 'w bot_state \<Rightarrow> bool" where
  "client_at k st b \<longleftrightarrow> serves 0 k (m_connection st) b \<and> chat b k = Some st"

definition aside :: "nat \<Rightarrow> string \<Rightarrow> 'w bot_state \<Rightarrow> 'w bot_state \<Rightarrow> bool" where
  "aside k bytes b b' \<longleftrightarrow> arrived (web b') = arrived (web b) \<and> responses (web b') = responses (web b)
     \<and> irc_in b' k = irc_in b k @ bytes"

lemma aside_trans: "aside k x b c \<Longrightarrow> aside k y c d \<Longrightarrow> aside k (x @ y) b d"
  by (simp add: aside_def)

lemma client_event:
  assumes "client_at k st b" "irc_handle L ev st = Some (Inr st')"
  shows "\<exists>b'. bot_step L sha1 bio S run stof b (Inr b') \<and> client_at k st' b' \<and> aside k (event_bytes ev) b b'"
proof -
  have c: "serves 0 k (m_connection st) b" "chat b k = Some st" using assms(1) by (simp_all add: client_at_def)
  have "st\<lparr>m_connection := conns (web b) k\<rparr> = st" using c(1) by (simp add: serves_def)
  from bs_client[OF c(2), of L ev "Inr st'" sha1 bio S run stof] assms(2) this
  have "bot_step L sha1 bio S run stof b (Inr (client_store k ev st' b))" by simp
  moreover have "client_at k st' (client_store k ev st' b)" "aside k (event_bytes ev) b (client_store k ev st' b)"
    using c(1) by (simp_all add: client_at_def aside_def serves_def client_store_def store_conn_def timeout_idle_def)
  ultimately show ?thesis by blast
qed

lemma client_reads:
  assumes "client_at k st b" "read_all L bs st = Some (Inr st')"
  shows "\<exists>b'. bot_runs L sha1 bio S run stof b b' \<and> client_at k st' b' \<and> aside k (concat bs) b b'"
  using assms
proof (induction bs arbitrary: st b)
  case Nil
  then have "client_at k st' b" "aside k [] b b" by (simp_all add: aside_def)
  with br_start show ?case by (intro exI[of _ b]) simp
next
  case (Cons x bs)
  then obtain u where u: "on_read L (twitch_vt L) False x st = Some (Inr u)" "read_all L bs u = Some (Inr st')"
    by (auto split: option.splits sum.splits)
  then have "irc_handle L (Read_Done False x) st = Some (Inr u)" by simp
  from client_event[OF Cons.prems(1) this, of sha1 bio S run stof] obtain c where
    c: "bot_step L sha1 bio S run stof b (Inr c)" "client_at k u c" "aside k x b c" by auto
  obtain d where d: "bot_runs L sha1 bio S run stof c d" "client_at k st' d" "aside k (concat bs) c d"
    using Cons.IH[OF c(2) u(2)] by blast
  from bot_runs_trans[OF d(1) bot_runs_one[OF c(1)]] d(2) aside_trans[OF c(3) d(3)] show ?case by auto
qed

lemma connect_effect:
  assumes "boost_contract L" "outbox st = []"
  shows "outbox (on_connect L False st) = [''PASS '' @ m_pass st @ CRLF, ''NICK '' @ m_nick st @ CRLF]"
    "response (on_connect L False st) = response st" "m_connection (on_connect L False st) = m_connection st"
    "path_match (on_connect L False st) = path_match st"
  using assms(2)
  by (simp_all add: boost.connected_eq[OF boost.intro[OF assms(1)]] on_connect_def start_read_def wire frames)

lemma client_strand:
  assumes "client_at k st b" "send_inv c" "stream c = []" "m_connection st = post_frames ds c"
  shows "\<exists>b'. bot_runs L sha1 bio S run stof b b' \<and> beside k [] b b' \<and> wire (conns (web b') k) = concat (map frame_bytes ds)"
proof -
  obtain u where u: "ok_step\<^sup>*\<^sup>* (sender.truncate (post_frames ds c)) u" "wire u = concat (map frame_bytes ds)"
    using written_in_the_end[OF assms(2), of ds] assms(3) by auto
  have "serves 0 k (post_frames ds c) b" using assms(1,4) by (simp add: client_at_def)
  from strand_runs[OF u(1) this, of L sha1 bio S run stof] obtain b' d where
    b: "bot_runs L sha1 bio S run stof b b'" "serves 0 k d b'" "beside k [] b b'" "sender.truncate d = u" by blast
  moreover have "wire (conns (web b') k) = wire u" using b(2,4) by (auto simp: serves_def)
  ultimately show ?thesis using u(2) by metis
qed

text \<open>The channel's greeting: the client is connected and has been sent the end of the message of the day.\<close>

definition greeted :: "nat \<Rightarrow> string \<times> string \<Rightarrow> string \<Rightarrow> 'w bot_state \<Rightarrow> bool" where
  "greeted k who name b \<longleftrightarrow> (case chat b k of None \<Rightarrow> False | Some st \<Rightarrow> outbox st = map (\<lambda>l. l @ CRLF)
         [''PASS '' @ snd who, ''NICK '' @ fst who, ''CAP REQ :twitch.tv/tags'', ''CAP REQ :twitch.tv/membership'',
          ''CAP REQ :twitch.tv/commands'', ''JOIN #'' @ name @ '' '']
       \<and> json_requests st = [(''tmi.twitch.tv'', ''/group/user/'' @ name @ ''/chatters'')])"

text \<open>The last line of the greeting.\<close>

definition motd_end :: "line_parts \<Rightarrow> bool" where
  "motd_end lp \<longleftrightarrow> line_parts_ok lp \<and> LF \<notin> set (render_line lp) \<and> lp_command lp = ''376''"

definition demo_motd :: line_parts where
  "demo_motd = \<lparr>lp_tags = None, lp_prefix = None, lp_command = ''376'', lp_middle = [''bot''], lp_trailing = Some ''end''\<rparr>"

lemma demo_motd_end: "motd_end demo_motd"
  by (simp add: motd_end_def demo_motd_def line_parts_ok_def prefix_ok_def middle_ok_def render_line_def render_tags_def
      render_prefix_def render_middle_def render_trailing_def)

lemma greeting_runs:
  fixes e :: "'w bot_state"
  assumes "boost_contract L" "motd_end lp" "serves 0 k (opened 0) e" "chat e k = Some st"
    and "m_connection st = opened 0" "outbox st = []" "response st = []" "json_requests st = []"
    and "m_nick st = fst who" "m_pass st = snd who"
  shows "\<exists>f u. bot_runs L sha1 bio S run stof e f \<and> greeted k who (sub_match (path_match st) 1) f
    \<and> client_at k u f \<and> aside k (render_line lp @ [LF]) e f \<and> m_connection u = opened 0 \<and> response u = []"
proof -
  let ?t = "on_connect L False st"
  note t = connect_effect[OF assms(1,6)]
  have j: "json_requests ?t = []"
    using assms(8) by (simp add: on_connect_def boost.connected_eq[OF boost.intro[OF assms(1)]] start_read_def frames)
  have "client_at k st e" using assms(3,4,5) by (simp add: client_at_def)
  from client_event[OF this, of L "Connect_Done False" ?t sha1 bio S run stof]
  obtain e1 where e1: "bot_step L sha1 bio S run stof e (Inr e1)" "client_at k ?t e1" "aside k [] e e1" by auto
  have m: "line_parts_ok lp" "LF \<notin> set (render_line lp)" "lp_command lp = ''376''"
    using assms(2) by (simp_all add: motd_end_def)
  have rt: "response ?t = []" using t(2) assms(7) by simp
  obtain u where u: "on_read L (twitch_vt L) False (render_line lp @ [LF]) ?t = Some (Inr u)"
    "outbox u = outbox ?t @ map (\<lambda>l. l @ CRLF)
        [''CAP REQ :twitch.tv/tags'', ''CAP REQ :twitch.tv/membership'', ''CAP REQ :twitch.tv/commands'',
         ''JOIN #'' @ sub_match (path_match ?t) 1 @ '' '']"
    "json_requests u = json_requests ?t @ [(''tmi.twitch.tv'', ''/group/user/'' @ sub_match (path_match ?t) 1 @ ''/chatters'')]"
    "m_connection u = m_connection ?t" "response u = []"
    using motd_end_effect[OF assms(1) m(1,2) rt m(3)] by blast
  have "irc_handle L (Read_Done False (render_line lp @ [LF])) ?t = Some (Inr u)" using u(1) by simp
  from client_event[OF e1(2) this, of sha1 bio S run stof]
  obtain f where f: "bot_step L sha1 bio S run stof e1 (Inr f)" "client_at k u f" "aside k (render_line lp @ [LF]) e1 f" by auto
  have a: "aside k (render_line lp @ [LF]) e f" using aside_trans[OF e1(3) f(3)] by simp
  have g: "greeted k who (sub_match (path_match st) 1) f"
    using f(2) assms(9,10) u(2,3) t j by (simp add: greeted_def client_at_def)
  have "m_connection u = opened 0" using u(4) t(3) assms(5) by simp
  with br_step[OF bot_runs_one[OF e1(1)] f(1)] g a f(2) u(5) show ?thesis by blast
qed

lemma channel_session_runs:
  assumes "ready k c" "route_contract L" "boost_contract L" "bio_contract bio"
    and "name_ok n" "path = ''/channel/'' @ n \<or> path = ''/channel/'' @ n @ ''/''" "upgrade method path version hs key"
    and "db_session S p \<lparr>out = [], err = []\<rparr> (world c) = Inr r"
    and "motd_end lp" "list_all (\<lambda>lps. lps \<noteq> [] \<and> list_all harmless lps) css"
  shows "\<exists>e1 e. bot_runs L sha1 bio S run stof c e1 \<and> bot_runs L sha1 bio S run stof e1 e
    \<and> greeted k (login c) n e1
    \<and> arrived (web e) k = arrived (web c) k @ bytes_of (request_text method path version hs []) \<and> responses (web e) k = accepts_key sha1 bio key
    \<and> irc_in e k = irc_in c k @ render_line lp @ [LF] @ concat (map render_lines css)
    \<and> wire (conns (web e) k) = concat (map (\<lambda>t. frame_header 129 (length t + 1) @ bytes_of (t @ [LF]))
        (List.map_filter lp_text (concat css)))"
proof -
  let ?pm = "the (bx_match L channel_pattern path)" and ?buf = "request_text method path version hs []"
  let ?ds = "map chat_frame (List.map_filter lp_text (concat css))"
  obtain d where d: "bot_runs L sha1 bio S run stof c d" "answered k 0 ?pm (accepts_key sha1 bio key) ?buf c d"
    using upgrade_answered[OF assms(1,4,7) found_endpoint(2)[OF assms(2,5,6)], of sha1 S run stof] by blast
  have l: "login d = login c" "world d = world c" using d(2) by (simp_all add: answered_def)
  obtain e0 st where e0: "bot_runs L sha1 bio S run stof d e0" "serves 0 k (opened 0) e0"
    "responses (web e0) k = accepts_key sha1 bio key" "arrived (web e0) k = arrived (web c) k @ bytes_of ?buf" "irc_in e0 = irc_in c"
    "chat e0 k = Some st" "m_nick st = fst (login c)" "m_pass st = snd (login c)" "path_match st = ?pm" "m_connection st = opened 0"
    "outbox st = []" "response st = []" "json_requests st = []"
    using channel_served[OF d(2), of S p r L sha1 bio run stof] assms(8) unfolding l by auto
  obtain e1 u where e1: "bot_runs L sha1 bio S run stof e0 e1" "greeted k (login c) (sub_match (path_match st) 1) e1"
    "client_at k u e1" "aside k (render_line lp @ [LF]) e0 e1" "m_connection u = opened 0" "response u = []"
    using greeting_runs[OF assms(3,9) e0(2,6) e0(10,11,12,13,7,8), of sha1 bio S run stof] by blast
  obtain v where v: "read_all L (map render_lines css) u = Some (Inr v)" "m_connection v = post_frames ?ds (opened 0)"
    using boost.read_all_session[OF boost.intro[OF assms(3)] assms(10) e1(6)] e1(5) by auto
  obtain e2 where e2: "bot_runs L sha1 bio S run stof e1 e2" "client_at k v e2" "aside k (concat (map render_lines css)) e1 e2"
    using client_reads[OF e1(3) v(1), of sha1 bio S run stof] by blast
  obtain e where e: "bot_runs L sha1 bio S run stof e2 e" "beside k [] e2 e" "wire (conns (web e) k) = concat (map frame_bytes ?ds)"
    using client_strand[OF e2(2) opened_sender v(2), of L sha1 bio S run stof] by blast
  have fr: "map frame_bytes ?ds = map (\<lambda>t. frame_header 129 (length t + 1) @ bytes_of (t @ [LF])) (List.map_filter lp_text (concat css))"
    by (simp add: frame_bytes_def chat_frame_def reply_frame_def bytes_of_def)
  have a: "arrived (web e) k = arrived (web c) k @ bytes_of ?buf" "responses (web e) k = accepts_key sha1 bio key"
    "irc_in e k = irc_in c k @ render_line lp @ [LF] @ concat (map render_lines css)"
    using e(2) e2(3) e1(4) e0(3,4,5) by (simp_all add: beside_def aside_def)
  have g: "greeted k (login c) n e1" using e1(2) unfolding e0(9) channel_name[OF assms(2,5,6)] .
  show ?thesis
    by (rule exI[of _ e1], rule exI[of _ e])
      (intro conjI bot_runs_trans[OF e1(1) bot_runs_trans[OF e0(1) d(1)]] bot_runs_trans[OF e(1) e2(1)] g a e(3)[unfolded fr])
qed

section \<open>Every reachable state is ready for a connection\<close>

text \<open>The endpoints' patterns do not change, nor does the login.\<close>

definition names :: "'a ws_server_scheme \<Rightarrow> string list" where
  "names s = map fst (endpoint_table s)"

lemma names_store [simp]: "names (store_conn i k c s) = names s"
proof -
  have "map fst ((endpoint_table s)[i := enlist k m (endpoint_table s ! i)]) = map fst (endpoint_table s)" for m
    by (cases "i < length (endpoint_table s)") (simp_all add: map_update enlist_def list_update_same_conv list_update_beyond not_less)
  then show ?thesis by (simp add: names_def store_conn_def)
qed

lemma names_on_conn: "on_conn i k r s = Inr s' \<Longrightarrow> names s' = names s"
  by (auto simp: on_conn_def bind_result_eq_Inr)

lemma names_simps [simp]:
  "names (note_arrived k bs s) = names s" "names (s\<lparr>responses := p\<rparr>) = names s" "names (s\<lparr>ws_stage := q\<rparr>) = names s"
  by (simp_all add: names_def note_arrived_def)

lemma ws_step_names: "ws_step L sha1 bio s r \<Longrightarrow> r = Inr s' \<Longrightarrow> names s' = names s"
proof (induction rule: ws_step.induct)
  case (wl_accept k s ec peer)
  then show ?case
    by (auto simp: names_def ws_loop_accepted_def ws_accepted_def bind_result_eq_Inr Let_def read_handshake_def take_accept_def
      new_accept_def set_timeout_def split: if_splits)
next
  case (wl_expire s i)
  then show ?case by (auto simp: names_def timer_expires_def split: prod.split)
next
  case (wl_timeout i s k sec peer_connected)
  then show ?case by (auto simp: names_def timeout_on_connection_def timeout_on_socket_def split: if_splits prod.split)
next
  case (wl_request s k ec buffer r)
  then show ?case
    by (auto simp: names_def ws_handshake_read_def note_arrived_def Let_def bind_result_eq_Inr cancel_timer_def
      split: option.splits if_splits)
next
  case (wl_response s k i response ec)
  from wl_response(1) names_on_conn[OF wl_response(3)[unfolded ws_handshake_written_def wl_response(1) ws_stage.case]]
  show ?case by simp
next
  case (wl_read s k i ec bytes)
  from names_on_conn[OF wl_read(4)] show ?case by simp
qed (auto dest: names_on_conn)

lemma bot_step_names: "bot_step L sha1 bio S run stof b r \<Longrightarrow> r = Inr d \<Longrightarrow> names (web d) = names (web b)"
proof (induction rule: bot_step.induct)
  case (bs_thread b r)
  from bs_thread(1) show ?case
  proof cases
    case (wt_web q)
    with bs_thread(2) show ?thesis using ws_step_names by (auto simp: bind_result_eq_Inr)
  next
    case (wt_open k s resolved present)
    have "names s = names (web b)" using ws_step_names[OF opens_at_steps(1)[OF wt_open(2)] refl] .
    with wt_open(1)[symmetric] bs_thread(2) show ?thesis
      by (auto simp: new_twitch_client_def bind_result_eq_Inr split: if_splits)
  qed
qed (auto simp: client_store_def bind_result_eq_Inr)

lemma bot_runs_const:
  assumes "bot_runs L sha1 bio S run stof b d"
  shows "names (web d) = names (web b)" "login d = login b"
  using assms by (induction rule: bot_runs.induct) (simp_all add: bot_step_names bot_step_login)

lemma ready_reached:
  assumes "open_documented S" "exec_documented S" "free_documented S" "close_documented S"
    and "bot_main argv = Inr b" "bot_started N b w = Inr c" "bot_runs L sha1 bio S run stof c d"
  shows "\<exists>k. ready k d" "accepting (web d) = [k] \<Longrightarrow> ready k d" "login d = (argv ! 1, argv ! 2)"
proof -
  note web = bot_web_inv[OF bot_reachable[OF assms]]
  note f = bot_fields[OF assms(5)]
  obtain h s where hs: "ws_start N (bot_ws b) = Inr s" and c: "c = \<lparr>web_page = h, web = ws_loop_of bot_callbacks s,
      chat = (\<lambda>k. None), login = bot_login b, world = w, irc_in = (\<lambda>k. [])\<rparr>"
    using assms(6) f(2) by (auto simp: bot_started_def bot_run_def bind_result_eq_Inr)
  have "names (web c) = [channel_pattern, echo_pattern]"
    using ws_start_fields(2)[OF hs f(3)] f(7) unfolding c by (simp add: names_def ws_loop_of_def ws_server.defs)
  with bot_runs_const(1)[OF assms(7)] have o: "opt_endpoint (web d) = [channel_pattern, echo_pattern]"
    using web(1) by (simp add: ws_inv_def table_ok_def names_def)
  show r: "ready k d" if "accepting (web d) = [k]" for k
  proof -
    have "stage (web d) k = Accepting" using web(2) that by (auto simp: loop_inv_def one_accept_def)
    moreover have "socket_ok k (web d)" using web(1) by (simp add: ws_inv_def)
    ultimately have "ws_stage (web d) k = No_Endpoint \<and> conns (web d) k = connection_ctor"
      by (cases "ws_stage (web d) k") (simp_all add: socket_ok_def)
    with that o web(1) show ?thesis by (simp add: ready_def ws_inv_def)
  qed
  show "\<exists>k. ready k d" using r web(2) by (auto simp: loop_inv_def one_accept_def)
  show "login d = (argv ! 1, argv ! 2)" using bot_runs_const(2)[OF assms(7)] bot_started_inv(2)[OF assms(5,6)] by simp
qed

end
