(* ===== verification/Http_Session.thy ===== *)
theory Http_Session
  imports Bot
begin

text \<open>
  A connection of the HTTP server that is kept open: requests one after the other on one socket, each
  read, dispatched and answered before the next is read. The handlers are those of \<open>Server_Loop\<close>;
  the lemmas put them behind each other, with the timers of the socket.
\<close>

section \<open>Requests\<close>

text \<open>A request as the client sends it; what of its content comes with the header, and what behind it.\<close>

record query =
  q_method :: string
  q_path :: string
  q_version :: string
  q_headers :: "(string \<times> string) list"
  q_early :: string
  q_late :: string

definition q_request :: "query \<Rightarrow> request" where
  "q_request q = sent_request (q_method q) (q_path q) (q_version q) (q_headers q)"

text \<open>What the server's first read gets of it, and how much of that is the header.\<close>

definition q_read :: "query \<Rightarrow> string" where
  "q_read q = request_text (q_method q) (q_path q) (q_version q) (q_headers q) (q_early q)"

definition q_header_size :: "query \<Rightarrow> nat" where
  "q_header_size q = length (request_text (q_method q) (q_path q) (q_version q) (q_headers q) [])"

text \<open>A well-formed request: its declared length, if it has one, is that of its content.\<close>

definition q_ok :: "boost_lib \<Rightarrow> query \<Rightarrow> bool" where
  "q_ok L q \<longleftrightarrow> word_ok (q_method q) \<and> word_ok (q_path q) \<and> LF \<notin> set (q_version q)
     \<and> list_all header_valid (q_headers q) \<and> length (q_read q) < size_max
     \<and> (case multimap_find L ''Content-Length'' (q_headers q) of
          None \<Rightarrow> q_early q = [] \<and> q_late q = []
        | Some v \<Rightarrow> stoull v = Inr (length (q_early q @ q_late q)))"

section \<open>One exchange\<close>

text \<open>
  The handlers that run on socket \<open>k\<close> for a request, from the read of its header to the end of
  the write of the response \<open>a\<close>.
\<close>

definition exchange ::
  "boost_lib \<Rightarrow> 'f runner \<Rightarrow> (string \<Rightarrow> rat result) \<Rightarrow> (string \<rightharpoonup> 'f) \<Rightarrow> nat \<Rightarrow> query \<Rightarrow> string
    \<Rightarrow> 'f http_server \<Rightarrow> 'f http_server \<Rightarrow> bool"
where
  "exchange L run stof dflt k q a s t \<longleftrightarrow> stage s k = Reading_Request \<and> is_open s k
     \<and> (\<exists>u v rq. http_request_read L run (opt_resource s) dflt False (q_read q) (q_header_size q) k s = Some (Inr u)
          \<and> (if q_late q = [] then v = u
             else (\<exists>r b. stage u k = Reading_Content r b)
               \<and> v = http_content_read L run (opt_resource u) dflt False (q_late q) k u)
          \<and> stage v k = Writing_Response rq a \<and> t = response_written L stof False k v)"

fun exchanges ::
  "boost_lib \<Rightarrow> 'f runner \<Rightarrow> (string \<Rightarrow> rat result) \<Rightarrow> (string \<rightharpoonup> 'f) \<Rightarrow> nat \<Rightarrow> (query \<times> string) list
    \<Rightarrow> 'f http_server \<Rightarrow> 'f http_server \<Rightarrow> bool"
where
  "exchanges L run stof dflt k [] s t \<longleftrightarrow> t = s"
| "exchanges L run stof dflt k ((q, a) # qs) s t \<longleftrightarrow>
     (\<exists>u. exchange L run stof dflt k q a s u \<and> exchanges L run stof dflt k qs u t)"

text \<open>The timers of the other sockets, and those of socket \<open>k\<close> that no handler can cancel.\<close>

definition other_timers :: "nat \<Rightarrow> 'a server_scheme \<Rightarrow> (nat \<times> int \<times> timer_state) list" where
  "other_timers k s = filter (\<lambda>(j, sec, st). \<not> (j = k \<and> st = Armed)) (timers s)"

text \<open>What an exchange leaves alone.\<close>

definition same_server :: "nat \<Rightarrow> 'f http_server \<Rightarrow> 'f http_server \<Rightarrow> bool" where
  "same_server k s t \<longleftrightarrow> opt_resource t = opt_resource s \<and> timeout_request t = timeout_request s
     \<and> timeout_content t = timeout_content s \<and> is_open t = is_open s \<and> other_timers k t = other_timers k s
     \<and> accepting t = accepting s"

lemma same_server_trans: "same_server k s t \<Longrightarrow> same_server k t u \<Longrightarrow> same_server k s u"
  by (simp add: same_server_def)

lemma same_server_refl [simp]: "same_server k s s"
  by (simp add: same_server_def)

lemma same_cancel [simp]: "same_server k s (cancel_timer k s)" "timers (cancel_timer k s) = other_timers k s"
  by (simp_all add: same_server_def cancel_timer_def other_timers_def)

lemma same_set [simp]: "same_server k s (set_timeout k sec s)"
  by (simp add: same_server_def set_timeout_def other_timers_def)

lemma same_arm [simp]: "same_server k s (arm_content k s)"
  by (simp add: arm_content_def)

lemma same_stage [simp]: "same_server k s (t\<lparr>stage := f\<rparr>) = same_server k s t"
  by (simp add: same_server_def other_timers_def)

lemma same_write [simp]: "same_server k s (write_response run f rq sm content k s)"
  by (simp add: write_response_def Let_def)

lemma stage_timer [simp]: "stage (cancel_timer k s) = stage s" "stage (set_timeout k sec s) = stage s"
  "stage (arm_content k s) = stage s"
  by (simp_all add: cancel_timer_def set_timeout_def arm_content_def)

lemma stage_write [simp]: "stage (write_response run f rq sm content k s) k = Writing_Response rq (run f rq sm content)"
  by (simp add: write_response_def Let_def)

lemma declared_read:
  assumes "q_ok L q"
  shows "declared_length L (q_read q) = map_option stoull (multimap_find L ''Content-Length'' (q_headers q))"
  using assms parse_request_text[of "q_method q" "q_path q" "q_version q" "q_headers q" "q_early q" request_ctor]
  by (simp add: q_ok_def q_read_def declared_length_def request_ctor_def)

lemma first_read:
  assumes "q_ok L q" "find_resource L opt dflt (q_request q) = Some (f, sm)"
  shows "request_read L opt dflt False (q_read q) (q_header_size q) = Some (Inr
    (if q_late q = [] then Respond f (q_request q) sm (q_early q) else Await_Content (length (q_late q)) (q_request q) (q_early q)))"
proof -
  have "request_read L opt dflt False (q_read q) (q_header_size q) = Some (Inr (let rq = q_request q in
        case multimap_find L ''Content-Length'' (q_headers q) of
          None \<Rightarrow> dispatch L opt dflt rq (q_early q)
        | Some v \<Rightarrow>
            (case stoull v of Inl f \<Rightarrow> Drop
             | Inr n \<Rightarrow> if length (q_early q) < n then Await_Content (n - length (q_early q)) rq (q_early q)
                       else dispatch L opt dflt rq (q_early q))))"
    unfolding q_read_def q_header_size_def q_request_def
    by (rule request_read_text) (use assms(1) in \<open>simp_all add: q_ok_def q_read_def\<close>)
  with assms show ?thesis
    by (cases "q_late q") (auto simp: q_ok_def Let_def dispatch_def split: option.splits)
qed

lemma answered_query:
  assumes "q_ok L q" "find_resource L (opt_resource s) dflt (q_request q) = Some (f, sm)"
    and "stage s k = Reading_Request"
  shows "\<exists>u v. http_request_read L run (opt_resource s) dflt False (q_read q) (q_header_size q) k s = Some (Inr u)
      \<and> (if q_late q = [] then v = u
         else (\<exists>r b. stage u k = Reading_Content r b)
           \<and> v = http_content_read L run (opt_resource u) dflt False (q_late q) k u)
      \<and> stage v k = Writing_Response (q_request q) (run f (q_request q) sm (q_early q @ q_late q)) \<and> same_server k s v"
proof -
  define s1 where "s1 = (if 0 < timeout_request s then cancel_timer k s else s)"
  define len where "len = (if False then None else declared_length L (q_read q))"
  define t where "t = (case len of None \<Rightarrow> s1 | Some n \<Rightarrow> arm_content k s1)"
  define w where "w = (case len of Some (Inr n) \<Rightarrow> (if 0 < timeout_content t then cancel_timer k t else t) | _ \<Rightarrow> t)"
  have same: "same_server k s s1" "same_server k s1 t" "same_server k t w"
    by (simp_all add: s1_def t_def w_def split: option.splits sum.splits)
  then have sw: "same_server k s t" "same_server k s w" using same_server_trans by blast+
  note r = first_read[OF assms(1,2)]
  let ?a = "run f (q_request q) sm (q_early q @ q_late q)"
  show ?thesis
  proof (cases "q_late q = []")
    case True
    let ?u = "write_response run f (q_request q) sm (q_early q) k w"
    have "http_request_read L run (opt_resource s) dflt False (q_read q) (q_header_size q) k s = Some (Inr ?u)"
      unfolding http_request_read_def Let_def s1_def[symmetric] len_def[symmetric] t_def[symmetric] w_def[symmetric] r
      using True by simp
    with True sw(2) same_server_trans[OF sw(2) same_write] show ?thesis by auto
  next
    case False
    let ?u = "t\<lparr>stage := (stage t)(k := Reading_Content (q_request q) (q_early q))\<rparr>"
    have u: "http_request_read L run (opt_resource s) dflt False (q_read q) (q_header_size q) k s = Some (Inr ?u)"
      unfolding http_request_read_def Let_def s1_def[symmetric] len_def[symmetric] t_def[symmetric] w_def[symmetric] r
      using False by simp
    have su: "same_server k s ?u" using sw(1) by simp
    let ?c = "if 0 < timeout_content ?u then cancel_timer k ?u else ?u"
    let ?v = "write_response run f (q_request q) sm (q_early q @ q_late q) k ?c"
    have "opt_resource ?u = opt_resource s" using su by (simp add: same_server_def)
    then have v: "http_content_read L run (opt_resource ?u) dflt False (q_late q) k ?u = ?v"
      using assms(2) by (simp add: http_content_read_def Let_def content_read_def dispatch_def)
    have "same_server k ?u ?c" by simp
    from same_server_trans[OF same_server_trans[OF su this] same_write] have sv: "same_server k s ?v" .
    have "\<exists>r b. stage ?u k = Reading_Content r b" by simp
    moreover have "stage ?v k = Writing_Response (q_request q) ?a" by simp
    ultimately show ?thesis using u v sv False by (intro exI[of _ ?u] exI[of _ ?v]) simp
  qed
qed

lemma exchanged:
  assumes "q_ok L q" "find_resource L (opt_resource s) dflt (q_request q) = Some (f, sm)"
    and "stage s k = Reading_Request" "is_open s k" "keep_alive L stof False (q_request q)"
    and "0 < timeout_request s" "0 < timeout_content s"
  shows "\<exists>t. exchange L run stof dflt k q (run f (q_request q) sm (q_early q @ q_late q)) s t
    \<and> stage t k = Reading_Request \<and> same_server k s t \<and> timers t = other_timers k s @ [(k, timeout_request s, Armed)]"
proof -
  obtain u v where uv: "http_request_read L run (opt_resource s) dflt False (q_read q) (q_header_size q) k s = Some (Inr u)"
      "if q_late q = [] then v = u
         else (\<exists>r b. stage u k = Reading_Content r b)
           \<and> v = http_content_read L run (opt_resource u) dflt False (q_late q) k u"
      "stage v k = Writing_Response (q_request q) (run f (q_request q) sm (q_early q @ q_late q))" "same_server k s v"
    using answered_query[OF assms(1-3)] by blast
  have v: "timeout_content v = timeout_content s" "timeout_request v = timeout_request s" "other_timers k v = other_timers k s"
    using uv(4) by (simp_all add: same_server_def)
  let ?t = "response_written L stof False k v"
  have t: "?t = read_request_and_content k (cancel_timer k v)"
    using uv(3) assms(5,7) v(1) by (simp add: response_written_def)
  have "same_server k v ?t" "stage ?t k = Reading_Request" "timers ?t = other_timers k v @ [(k, timeout_request v, Armed)]"
    unfolding t using assms(6) v(2)
    by (simp_all add: read_request_and_content_def Let_def same_server_def cancel_timer_def set_timeout_def other_timers_def)
  moreover have "exchange L run stof dflt k q (run f (q_request q) sm (q_early q @ q_late q)) s ?t"
    unfolding exchange_def using assms(3,4) uv(1-3) by blast
  ultimately show ?thesis using same_server_trans[OF uv(4)] v by metis
qed

lemma http_runs_trans: "http_runs L run stof dflt t u \<Longrightarrow> http_runs L run stof dflt s t \<Longrightarrow> http_runs L run stof dflt s u"
  by (induction rule: http_runs.induct) (auto intro: hr_step)

text \<open>An exchange is two or three steps of the server.\<close>

lemma open_timer [simp]: "is_open (cancel_timer k s) = is_open s" "is_open (arm_content k s) = is_open s"
  "is_open (write_response run f rq sm content k s) = is_open s"
  by (simp_all add: cancel_timer_def arm_content_def set_timeout_def write_response_def)

definition same_setup :: "'f http_server \<Rightarrow> 'f http_server \<Rightarrow> bool" where
  "same_setup s t \<longleftrightarrow> opt_resource t = opt_resource s \<and> timeout_request t = timeout_request s
     \<and> timeout_content t = timeout_content s"

lemma same_setup_simps [simp]: "same_setup s s" "same_setup s (t\<lparr>stage := f\<rparr>) = same_setup s t"
  by (simp_all add: same_setup_def)

lemma same_setup_trans: "same_setup s t \<Longrightarrow> same_setup t u \<Longrightarrow> same_setup s u"
  by (simp add: same_setup_def)

lemma same_setup_server: "same_server k s t \<Longrightarrow> same_setup s t"
  by (simp add: same_server_def same_setup_def)

lemma request_read_keeps:
  assumes "http_request_read L run opt dflt ec buffer n k s = Some (Inr s')"
  shows "is_open s' = is_open s" "same_setup s s'"
proof -
  define t0 where "t0 = (if 0 < timeout_request s then cancel_timer k s else s)"
  define len where "len = (if ec then None else declared_length L buffer)"
  define t where "t = (case len of None \<Rightarrow> t0 | Some n \<Rightarrow> arm_content k t0)"
  define u where "u = (case len of Some (Inr n) \<Rightarrow> (if 0 < timeout_content t then cancel_timer k t else t) | _ \<Rightarrow> t)"
  have "same_server k s t0" "same_server k t0 t" "same_server k t u"
    by (simp_all add: t0_def t_def u_def split: option.split sum.split)
  then have o: "same_server k s t" "same_server k s u" using same_server_trans by blast+
  obtain a where s': "s' = (case a of
           Drop \<Rightarrow> u\<lparr>stage := (stage u)(k := Done)\<rparr>
         | Await_Content n rq buf \<Rightarrow> t\<lparr>stage := (stage t)(k := Reading_Content rq buf)\<rparr>
         | Respond f rq sm content \<Rightarrow> write_response run f rq sm content k u)"
    using assms unfolding http_request_read_def Let_def t0_def[symmetric] len_def[symmetric] t_def[symmetric] u_def[symmetric]
    by (auto simp: bind_result_eq_Inr)
  have w: "same_server k s s'" unfolding s' using o same_server_trans[OF o(2) same_write] by (cases a) simp_all
  then show "is_open s' = is_open s" by (simp add: same_server_def)
  from w show "same_setup s s'" by (rule same_setup_server)
qed

lemma content_read_keeps: "same_setup s (http_content_read L run opt dflt ec bytes k s)"
proof -
  define t where "t = (if 0 < timeout_content s then cancel_timer k s else s)"
  have t: "same_server k s t" by (simp add: t_def)
  have "same_setup s (write_response run f rq sm content k t)" for f rq sm content
    by (rule same_setup_server[OF same_server_trans[OF t same_write]])
  then show ?thesis
    unfolding http_content_read_def Let_def t_def[symmetric]
    using same_setup_server[OF t] by (simp split: stage.split action.split)
qed

lemma response_written_keeps: "same_setup s (response_written L stof ec k s)"
  by (simp add: response_written_def Let_def read_request_and_content_def same_setup_def cancel_timer_def set_timeout_def
      split: stage.split)

lemma http_step_setup: "http_step L run stof dflt s t \<Longrightarrow> same_setup s t"
proof (induction rule: http_step.induct)
  case (hs_accept k s ec ok s')
  then show ?case
    by (auto simp: same_setup_def http_accepted_def http_accept_def take_accept_def new_accept_def Let_def
        read_request_and_content_def set_timeout_def split: if_splits)
next
  case (hs_expire s i)
  show ?case by (simp add: same_setup_def timer_expires_def split: prod.split)
next
  case (hs_timeout i s k sec)
  show ?case by (simp add: same_setup_def timeout_on_socket_def split: prod.split)
next
  case (hs_request s k ec buffer n s')
  then show ?case using request_read_keeps(2) by blast
qed (rule content_read_keeps response_written_keeps)+

lemma http_runs_setup: "http_runs L run stof dflt s t \<Longrightarrow> same_setup s t"
  by (induction rule: http_runs.induct) (auto intro: same_setup_trans http_step_setup)

lemma exchange_runs:
  assumes "exchange L run stof dflt k q a s t"
  shows "http_runs L run stof dflt s t"
proof -
  obtain u v rq where st: "stage s k = Reading_Request" "is_open s k"
    "http_request_read L run (opt_resource s) dflt False (q_read q) (q_header_size q) k s = Some (Inr u)"
    "if q_late q = [] then v = u
       else (\<exists>r b. stage u k = Reading_Content r b)
         \<and> v = http_content_read L run (opt_resource u) dflt False (q_late q) k u"
    "stage v k = Writing_Response rq a" "t = response_written L stof False k v"
    using assms by (auto simp: exchange_def)
  have o: "is_open u k" using request_read_keeps(1)[OF st(3)] st(2) by simp
  have u: "http_runs L run stof dflt s u"
    by (rule hr_step[OF hr_start hs_request[OF st(1) _ st(3)]]) (simp add: st(2))
  have v: "http_runs L run stof dflt s v \<and> is_open v k"
  proof (cases "q_late q = []")
    case True
    with st(4) u o show ?thesis by simp
  next
    case False
    then obtain r b where r: "stage u k = Reading_Content r b"
      "v = http_content_read L run (opt_resource u) dflt False (q_late q) k u" using st(4) by auto
    have "http_step L run stof dflt u v" unfolding r(2) by (rule hs_content[OF r(1)]) (simp add: o)
    moreover have "is_open v k"
      using o r by (auto simp: http_content_read_def Let_def split: action.splits)
    ultimately show ?thesis using hr_step[OF u] by blast
  qed
  have "http_step L run stof dflt v t" unfolding st(6) by (rule hs_written[OF st(5)]) (simp add: v)
  with v hr_step show ?thesis by blast
qed

lemma exchanges_runs: "exchanges L run stof dflt k qs s t \<Longrightarrow> http_runs L run stof dflt s t"
proof (induction qs arbitrary: s)
  case (Cons x qs)
  obtain q a where x: "x = (q, a)" by force
  with Cons.prems obtain u where "exchange L run stof dflt k q a s u" "exchanges L run stof dflt k qs u t" by auto
  with Cons.IH exchange_runs http_runs_trans show ?case by blast
qed (simp add: hr_start)

section \<open>Sessions\<close>

definition answer_to :: "boost_lib \<Rightarrow> 'f runner \<Rightarrow> 'f opt_resource \<Rightarrow> (string \<rightharpoonup> 'f) \<Rightarrow> query \<Rightarrow> string" where
  "answer_to L run opt dflt q =
     (case find_resource L opt dflt (q_request q) of
        None \<Rightarrow> []
      | Some (f, sm) \<Rightarrow> run f (q_request q) sm (q_early q @ q_late q))"

text \<open>A request that is answered and leaves the connection open.\<close>

definition kept :: "boost_lib \<Rightarrow> (string \<Rightarrow> rat result) \<Rightarrow> 'f opt_resource \<Rightarrow> (string \<rightharpoonup> 'f) \<Rightarrow> query \<Rightarrow> bool" where
  "kept L stof opt dflt q \<longleftrightarrow> q_ok L q \<and> find_resource L opt dflt (q_request q) \<noteq> None
     \<and> keep_alive L stof False (q_request q)"

lemma kept_session:
  assumes "list_all (kept L stof (opt_resource s) dflt) qs" "stage s k = Reading_Request" "is_open s k"
    and "0 < timeout_request s" "0 < timeout_content s"
  shows "\<exists>t. exchanges L run stof dflt k (map (\<lambda>q. (q, answer_to L run (opt_resource s) dflt q)) qs) s t
    \<and> stage t k = Reading_Request \<and> same_server k s t
    \<and> timers t = (if qs = [] then timers s else other_timers k s @ [(k, timeout_request s, Armed)])"
  using assms
proof (induction qs arbitrary: s)
  case (Cons q qs)
  obtain f sm where f: "find_resource L (opt_resource s) dflt (q_request q) = Some (f, sm)"
    using Cons.prems(1) by (auto simp: kept_def)
  have k: "q_ok L q" "keep_alive L stof False (q_request q)" using Cons.prems(1) by (simp_all add: kept_def)
  have a: "run f (q_request q) sm (q_early q @ q_late q) = answer_to L run (opt_resource s) dflt q"
    using f by (simp add: answer_to_def)
  obtain u where u: "exchange L run stof dflt k q (answer_to L run (opt_resource s) dflt q) s u" "stage u k = Reading_Request"
    "same_server k s u" "timers u = other_timers k s @ [(k, timeout_request s, Armed)]"
    using exchanged[OF k(1) f Cons.prems(2,3) k(2) Cons.prems(4,5), of run] unfolding a by blast
  have s: "opt_resource u = opt_resource s" "timeout_request u = timeout_request s" "timeout_content u = timeout_content s"
    "is_open u = is_open s" "other_timers k u = other_timers k s" using u(3) by (simp_all add: same_server_def)
  obtain t where t: "exchanges L run stof dflt k (map (\<lambda>q. (q, answer_to L run (opt_resource s) dflt q)) qs) u t"
    "stage t k = Reading_Request" "same_server k u t"
    "timers t = (if qs = [] then timers u else other_timers k s @ [(k, timeout_request s, Armed)])"
    using Cons.IH[of u] Cons.prems u(2) unfolding s by auto
  have "timers t = other_timers k s @ [(k, timeout_request s, Armed)]" using t(4) u(4) by simp
  with u(1) t(1,2) same_server_trans[OF u(3) t(3)] show ?case by auto
qed simp
lemma started_setup:
  assumes "http_start N resource (http_server_ctor p n) = Inr s"
  shows "opt_resource s = start_resources resource" "timeout_request s = 5" "timeout_content s = 300"
  using assms by (auto simp: http_start_def bind_result_eq_Inr listen_def Let_def http_server_ctor_def server_ctor_def
      server.defs spawn_threads_def http_accept_def new_accept_def split: if_splits)

lemma reached_session:
  assumes "http_start N resource (http_server_ctor p n) = Inr s0" "http_runs L run stof dflt s0 s"
    and "stage s k = Reading_Request" "is_open s k" "list_all (kept L stof (start_resources resource) dflt) qs"
  shows "\<exists>t. exchanges L run stof dflt k (map (\<lambda>q. (q, answer_to L run (start_resources resource) dflt q)) qs) s t
    \<and> http_runs L run stof dflt s0 t \<and> stage t k = Reading_Request \<and> is_open t k
    \<and> timers t = (if qs = [] then timers s else other_timers k s @ [(k, 5, Armed)])"
proof -
  have s: "opt_resource s = start_resources resource" "timeout_request s = 5" "timeout_content s = 300"
    using http_runs_setup[OF assms(2)] started_setup[OF assms(1)] by (simp_all add: same_setup_def)
  obtain t where t: "exchanges L run stof dflt k (map (\<lambda>q. (q, answer_to L run (start_resources resource) dflt q)) qs) s t"
    "stage t k = Reading_Request" "same_server k s t" "timers t = (if qs = [] then timers s else other_timers k s @ [(k, 5, Armed)])"
    using kept_session[of L stof s dflt qs k run] assms(3-5) unfolding s by auto
  from http_runs_trans[OF exchanges_runs[OF t(1)] assms(2)] t assms(4) show ?thesis by (auto simp: same_server_def)
qed

text \<open>The default resource of the program, when no write fails.\<close>

definition page_runner :: "'p filesystem \<Rightarrow> unit runner" where
  "page_runner F f rq sm content = concat (response_writes F (\<lambda>i. None) (rq_path rq))"

definition page_text :: "'p served \<Rightarrow> string" where
  "page_text r = (case r of
     Thrown \<Rightarrow> []
   | Could_Not_Open content \<Rightarrow> bad_request content
   | Serve_File p content \<Rightarrow> ok_header (length content) @ content)"

lemma page_answer: "q_method q = ''GET'' \<Longrightarrow> answer_to L (page_runner F) [] [''GET'' \<mapsto> ()] q = page_text (default_get F (q_path q))"
  by (simp add: answer_to_def find_resource_def page_runner_def q_request_def sent_request_def response_text page_text_def
      bad_request_def cong: served.case_cong)

section \<open>Properties\<close>

text \<open>C8: On a kept connection, in whatever state the server has reached, any number of well-formed requests
  sent one after the other are answered one after the other: each response is that of the resource
  its method and path select, for the request and the whole content, wherever that is cut in two,
  and no timer is left over from an exchange but the one for the next request.\<close>

theorem keep_alive_session:
  assumes "http_start N resource (http_server_ctor p n) = Inr s0" "http_runs L run stof dflt s0 s"
    and "stage s k = Reading_Request" "is_open s k" "list_all (kept L stof (start_resources resource) dflt) qs"
  shows "\<exists>t. exchanges L run stof dflt k (map (\<lambda>q. (q, answer_to L run (start_resources resource) dflt q)) qs) s t
    \<and> http_runs L run stof dflt s0 t \<and> stage t k = Reading_Request \<and> is_open t k
    \<and> timers t = (if qs = [] then timers s else other_timers k s @ [(k, 5, Armed)])"
  by (rule reached_session[OF assms])

definition demo_query :: query where
  "demo_query = \<lparr>q_method = ''POST'', q_path = ''/a'', q_version = ''1.1'', q_headers = [(''content-length'', ''2'')],
     q_early = ''x'', q_late = ''y''\<rparr>"

lemma demo_kept: "kept ref_boost (\<lambda>v. Inr (11 / 10)) (start_resources demo_table) Map.empty demo_query"
proof -
  have r: "q_request demo_query = sent_request ''POST'' ''/a'' ''1.1'' [(''content-length'', ''2'')]"
    by (simp add: q_request_def demo_query_def)
  have "length (q_read demo_query) < size_max"
    by (simp add: q_read_def demo_query_def request_text_def request_line_def header_lines_def header_line_def size_max_def)
  moreover have "stoull (show_nat 2) = Inr 2" using stoull_show_nat[of 2 "[]"] by (simp add: size_max_def)
  ultimately have "q_ok ref_boost demo_query"
    using demo_facts(1-3) demo_length by (simp add: q_ok_def demo_query_def)
  moreover have "map upper ''content-length'' \<noteq> map upper ''Connection''" by code_simp
  then have "keep_alive ref_boost (\<lambda>v. Inr (11 / 10)) False (q_request demo_query)"
    by (simp add: r keep_alive_def multimap_equal_range_def boost.iequals_eq[OF boost.intro[OF ref_boost_contract]] sent_request_def
        del: list.map)
  ultimately show ?thesis using demo_facts(4) by (simp add: kept_def r)
qed

theorem keep_alive_session_witness:
  "\<exists>t. exchanges ref_boost (\<lambda>f rq sm c. c) (\<lambda>v. Inr (11 / 10)) Map.empty 0
      [(demo_query, ''xy''), (demo_query, ''xy''), (demo_query, ''xy'')] demo_accepted t \<and> stage t 0 = Reading_Request"
proof -
  have st: "stage demo_accepted 0 = Reading_Request" "is_open demo_accepted 0"
    by (simp_all add: demo_accepted_def demo_server_def read_request_and_content_def take_accept_def
        http_accept_def new_accept_def set_timeout_def http_server_ctor_def server_ctor_def server.defs)
  have a: "answer_to ref_boost (\<lambda>f rq sm c. c) (start_resources demo_table) Map.empty demo_query = ''xy''"
    using demo_kept demo_facts(4) by (simp add: answer_to_def q_request_def demo_query_def)
  have "list_all (kept ref_boost (\<lambda>v. Inr (11 / 10)) (start_resources demo_table) Map.empty) [demo_query, demo_query, demo_query]"
    using demo_kept by simp
  from keep_alive_session[OF demo_started demo_accept_step[of ref_boost "\<lambda>f rq sm c. c"] st this] a show ?thesis by auto
qed

text \<open>C3: The page of the program, end to end: on a kept connection any number of GET requests get, one after
  the other, each the head and the content of the file its path names, or the error text with its
  length. The requests are taken from the bytes, the files from the file system.\<close>

theorem page_session:
  assumes "bot_main argv = Inr b" "http_start N [] (bot_http b) = Inr s0"
    and "http_runs L (page_runner F) stof (bot_default b) s0 s" "stage s k = Reading_Request" "is_open s k"
    and "list_all (\<lambda>q. q_ok L q \<and> q_method q = ''GET'' \<and> keep_alive L stof False (q_request q)) qs"
  shows "\<exists>t. exchanges L (page_runner F) stof (bot_default b) k (map (\<lambda>q. (q, page_text (default_get F (q_path q)))) qs) s t
    \<and> http_runs L (page_runner F) stof (bot_default b) s0 t \<and> stage t k = Reading_Request"
proof -
  have b: "bot_http b = http_server_ctor 8080 1" "bot_default b = [''GET'' \<mapsto> ()]"
    using assms(1) by (auto simp: bot_main_def Let_def split: if_splits)
  have e: "start_resources [] = ([] :: unit opt_resource)" by (simp add: start_resources_def)
  have "kept L stof (start_resources []) (bot_default b) q"
    if "q_ok L q" "q_method q = ''GET''" "keep_alive L stof False (q_request q)" for q
    using that by (simp add: kept_def b e find_resource_def q_request_def sent_request_def)
  with assms(6) have k: "list_all (kept L stof (start_resources []) (bot_default b)) qs" by (simp add: list_all_iff)
  have m: "map (\<lambda>q. (q, answer_to L (page_runner F) (start_resources []) (bot_default b) q)) qs
    = map (\<lambda>q. (q, page_text (default_get F (q_path q)))) qs"
    using assms(6) by (simp add: list_all_iff e b page_answer)
  show ?thesis using reached_session[OF assms(2)[unfolded b(1)] assms(3-5) k] unfolding m by blast
qed

theorem page_session_witness:
  "\<exists>(s :: unit http_server) t. exchanges ref_boost (page_runner demo_fs) (\<lambda>v. Inr (11 / 10)) [''GET'' \<mapsto> ()] 0
      [(\<lparr>q_method = ''GET'', q_path = ''/'', q_version = ''1.1'', q_headers = [], q_early = [], q_late = []\<rparr>, ok_header 5 @ ''hello'')] s t
    \<and> stage t 0 = Reading_Request"
proof -
  let ?q = "\<lparr>q_method = ''GET'', q_path = ''/'', q_version = ''1.1'', q_headers = [], q_early = [], q_late = []\<rparr> :: query"
  let ?argv = "[''bot'', ''u'', ''p'', ''web'']"
  obtain b :: bot where b: "bot_main ?argv = Inr b" by (simp add: bot_main_def Let_def)
  then have h: "bot_http b = http_server_ctor 8080 1" "bot_default b = [''GET'' \<mapsto> ()]" by (auto simp: bot_main_def Let_def)
  define s0 where "s0 = (http_server_ctor 8080 1 :: unit http_server)\<lparr>acceptor := Listening ''0.0.0.0'' 8080,
     accepting := [0], stage := (\<lambda>k. Unused)(0 := Accepting), next_socket := 1\<rparr>"
  have s0: "http_start demo_net [] (bot_http b) = Inr s0"
    unfolding h by (simp add: s0_def http_start_def listen_def demo_net_def http_server_ctor_def server_ctor_def server.defs
        config_ctor_def spawn_threads_def http_accept_def new_accept_def start_resources_def)
  define s where "s = read_request_and_content 0 (http_accept (take_accept False 0 s0))"
  have a: "http_accepted False True 0 s0 = Inr s" by (simp add: http_accepted_def s_def)
  have r: "http_runs ref_boost (page_runner demo_fs) (\<lambda>v. Inr (11 / 10)) (bot_default b) s0 s"
    by (rule hr_step[OF hr_start hs_accept[OF _ a]]) (simp add: s0_def)
  have st: "stage s 0 = Reading_Request" "is_open s 0"
    by (simp_all add: s_def s0_def read_request_and_content_def take_accept_def http_accept_def new_accept_def set_timeout_def
        http_server_ctor_def server_ctor_def server.defs)
  have q: "list_all (\<lambda>q. q_ok ref_boost q \<and> q_method q = ''GET'' \<and> keep_alive ref_boost (\<lambda>v. Inr (11 / 10)) False (q_request q)) [?q]"
    by (simp add: q_ok_def q_request_def q_read_def word_ok_def multimap_find_def request_text_def request_line_def header_lines_def
        size_max_def keep_alive_def multimap_equal_range_def sent_request_def)
  have d: "default_get demo_fs ''/'' = Serve_File [''/'', ''web'', ''index.html''] ''hello''"
    by (simp add: default_get_def demo_fs_def within_root_def)
  from page_session[OF b s0 r st q] d show ?thesis unfolding h by (auto simp: page_text_def eval_nat_numeral)
qed

end
