(* ===== verification/Bot_Properties.thy ===== *)
theory Bot_Properties
  imports Bot_Sessions Http_Session
begin

text \<open>
  What holds of the whole program of \<^verbatim>\<open>src/bot.cpp\<close> while it runs: the invariants of every reachable
  state of \<open>Bot_Loop\<close>, what can take its WebSocket server down, and the two sessions of
  \<open>Bot_Sessions\<close> as theorems, each with a concrete run.
\<close>

section \<open>A concrete start\<close>

definition demo_argv :: "string list" where
  "demo_argv = [''bot'', ''u'', ''p'', ''web'']"

definition demo_key :: "(string \<times> string) list" where
  "demo_key = [(''sec-websocket-key'', ''abc'')]"

lemma demo_start:
  obtains b and c :: "(nat multiset \<times> nat multiset) bot_state"
  where "bot_main demo_argv = Inr b" "bot_started demo_net b ({#}, {#}) = Inr c" "timers (web c) = []" "accepting (web c) = [0]"
proof -
  obtain b :: bot where b: "bot_main demo_argv = Inr b" by (simp add: bot_main_def Let_def demo_argv_def)
  have "\<exists>c :: (nat multiset \<times> nat multiset) bot_state. bot_started demo_net b ({#}, {#}) = Inr c \<and> timers (web c) = []
    \<and> accepting (web c) = [0]"
    using b by (auto simp: bot_main_def Let_def demo_argv_def bot_started_def bot_run_def http_start_def ws_start_def listen_def
        demo_net_def http_server_ctor_def ws_server_ctor_def server_ctor_def server.defs config_ctor_def ws_loop_of_def
        ws_server.defs spawn_threads_def http_accept_def new_accept_def)
  with b that show thesis by blast
qed

lemma started_world:
  fixes w :: 'w
  shows "bot_main argv = Inr b \<Longrightarrow> bot_started N b w = Inr c \<Longrightarrow> world c = w"
  by (auto simp: bot_started_def bind_result_eq_Inr split: prod.splits)

lemma demo_upgrade: "upgrade ''GET'' ''/echo'' ''1.1'' demo_key ''abc''" "upgrade ''GET'' ''/channel/ann7'' ''1.1'' demo_key ''abc''"
  by (simp_all add: upgrade_def word_ok_def header_valid_def COLON_def request_text_def request_line_def demo_key_def
      header_lines_def header_line_def size_max_def)
section \<open>Sessions\<close>

text \<open>C2: An echo session, from the accept to the wire, in every reachable state of the program: whichever socket
  is waiting to be accepted, after a well-formed request for \<^verbatim>\<open>/echo\<close> with a key there is a run in
  which exactly that request and the frames behind it arrive on it, the response with the accept
  key is written, every frame is handed to \<open>onmessage\<close> in order, and the wire holds one text frame
  for each with the payload unmasked.\<close>

theorem echo_session:
  assumes "open_documented S" "exec_documented S" "free_documented S" "close_documented S"
    and "bot_main argv = Inr b" "bot_started N b w = Inr c" "bot_runs L sha1 bio S run stof c d" "accepting (web d) = [k]"
    and "route_contract L" "bio_contract bio"
    and "path = ''/echo'' \<or> path = ''/echo/''" "upgrade method path version hs key" "list_all frame_ok fs"
  shows "\<exists>e. bot_runs L sha1 bio S run stof d e
    \<and> arrived (web e) k = arrived (web d) k @ bytes_of (request_text method path version hs []) @ concat (map frame_wire fs)
    \<and> responses (web e) k = handshake_text (bio (digest_text (sha1 (key @ ws_magic_string))))
    \<and> events (conns (web e) k) = Opened # map received fs
    \<and> wire (conns (web e) k) = concat (map (\<lambda>(op, key, payload). frame_header 129 (length payload) @ payload) fs)"
  using echo_session_runs[OF ready_reached(2)[OF assms(1-8)] assms(9-13)] unfolding accepts_key_def .

definition demo_frames :: "data_frame list" where
  "demo_frames = [(129, [1, 2, 3, 4], [104, 105]), (130, [9, 9, 9, 9], [])]"

lemma demo_frames_ok: "list_all frame_ok demo_frames"
  by (simp add: demo_frames_def)

theorem echo_session_witness:
  "\<exists>(c :: (nat multiset \<times> nat multiset) bot_state) e. bot_runs route_boost demo_sha1 b64 (ref_sqlite []) (page_runner demo_fs) (\<lambda>s. Inr 1) c e
    \<and> responses (web e) 0 = handshake_text (b64 ''000000012345'')
    \<and> wire (conns (web e) 0) = [129, 2, 104, 105, 129, 0]"
proof -
  obtain b and c :: "(nat multiset \<times> nat multiset) bot_state"
    where s: "bot_main demo_argv = Inr b" "bot_started demo_net b ({#}, {#}) = Inr c" "accepting (web c) = [0]" by (rule demo_start)
  have "digest_text (demo_sha1 (''abc'' @ ws_magic_string)) = ''000000012345''"
    using demo_digest by (simp add: demo_sha1_def)
  with echo_session[OF ref_sqlite_documented s(1,2) br_start s(3) route_boost_contract(1) b64_contract disjI1[OF refl] demo_upgrade(1) demo_frames_ok]
  show ?thesis by (fastforce simp: demo_frames_def frame_header_def)
qed

text \<open>C1: A channel session, from the accept to the wire, in every reachable state of the program: a
  well-formed request for \<^verbatim>\<open>/channel/NAME\<close> on the socket waiting to be accepted is answered and a client
  created; the client sends the program's login and, after the end of the message of the day, asks
  for the capabilities and joins \<^verbatim>\<open>#NAME\<close>; and whatever lines of the protocol the IRC server then
  sends, in any reads that end with a line, the wire of that connection holds one text frame for each
  chat line, in order.\<close>

theorem channel_session:
  assumes "open_documented S" "exec_documented S" "free_documented S" "close_documented S"
    and "bot_main argv = Inr b" "bot_started N b w = Inr c" "bot_runs L sha1 bio S run stof c d" "accepting (web d) = [k]"
    and "route_contract L" "boost_contract L" "bio_contract bio"
    and "name_ok n" "path = ''/channel/'' @ n \<or> path = ''/channel/'' @ n @ ''/''" "upgrade method path version hs key"
    and "db_session S p \<lparr>out = [], err = []\<rparr> (world d) = Inr r"
    and "motd_end lp" "list_all (\<lambda>lps. lps \<noteq> [] \<and> list_all harmless lps) css"
  shows "\<exists>e1 e. bot_runs L sha1 bio S run stof d e1 \<and> bot_runs L sha1 bio S run stof e1 e
    \<and> greeted k (argv ! 1, argv ! 2) n e1
    \<and> arrived (web e) k = arrived (web d) k @ bytes_of (request_text method path version hs [])
    \<and> responses (web e) k = handshake_text (bio (digest_text (sha1 (key @ ws_magic_string))))
    \<and> irc_in e k = irc_in d k @ render_line lp @ [LF] @ concat (map render_lines css)
    \<and> wire (conns (web e) k) = concat (map (\<lambda>t. frame_header 129 (length t + 1) @ bytes_of (t @ [LF]))
        (List.map_filter lp_text (concat css)))"
  using channel_session_runs[OF ready_reached(2)[OF assms(1-8)] assms(9-17)]
  unfolding accepts_key_def ready_reached(3)[OF assms(1-7)] .

lemma demo_name: "name_ok ''ann7''"
  by (simp add: name_ok_def name_chars_def)

lemma demo_session: "\<exists>r. db_session (ref_sqlite []) (Some True) \<lparr>out = [], err = []\<rparr> ({#}, {#}) = Inr r"
  by (simp add: db_session_def ref_sqlite_def run_rows_out)

theorem channel_session_witness:
  "\<exists>(c :: (nat multiset \<times> nat multiset) bot_state) e1 e.
    bot_runs route_boost demo_sha1 b64 (ref_sqlite []) (page_runner demo_fs) (\<lambda>s. Inr 1) c e1
    \<and> bot_runs route_boost demo_sha1 b64 (ref_sqlite []) (page_runner demo_fs) (\<lambda>s. Inr 1) e1 e
    \<and> greeted 0 (''u'', ''p'') ''ann7'' e1
    \<and> wire (conns (web e) 0) = concat (replicate 3 ([129, 4] @ bytes_of (''hi'' @ CRLF)))"
proof -
  obtain b and c :: "(nat multiset \<times> nat multiset) bot_state"
    where s: "bot_main demo_argv = Inr b" "bot_started demo_net b ({#}, {#}) = Inr c" "accepting (web c) = [0]" by (rule demo_start)
  obtain r where r: "db_session (ref_sqlite []) (Some True) \<lparr>out = [], err = []\<rparr> ({#}, {#}) = Inr r" using demo_session by blast
  have p: "''/channel/ann7'' = ''/channel/'' @ ''ann7'' \<or> ''/channel/ann7'' = ''/channel/'' @ ''ann7'' @ ''/''" by simp
  have t: "lp_text demo_chat = Some (''hi'' @ [CR])" by (simp add: lp_text_def demo_chat_def)
  have h: "list_all (\<lambda>lps. lps \<noteq> [] \<and> list_all harmless lps) [[demo_chat, demo_chat], [demo_chat]]"
    by (simp add: demo_chat_harmless)
  have w: "concat (map (\<lambda>t. frame_header 129 (length t + 1) @ bytes_of (t @ [LF]))
      (List.map_filter lp_text (concat [[demo_chat, demo_chat], [demo_chat]]))) = concat (replicate 3 ([129, 4] @ bytes_of (''hi'' @ CRLF)))"
    by (simp add: t List.map_filter_simps frame_header_def CRLF_def numeral_3_eq_3)
  have a: "demo_argv ! 1 = ''u''" "demo_argv ! 2 = ''p''" by (simp_all add: demo_argv_def)
  have x: "world c = ({#}, {#})" using started_world[OF s(1,2)] .
  show ?thesis
    using channel_session[OF ref_sqlite_documented s(1,2) br_start s(3) route_boost_contract b64_contract demo_name p
        demo_upgrade(2) r[folded x] demo_motd_end h] unfolding w a by metis
qed

section \<open>Reachable states\<close>

text \<open>After the echo session the connection is listed.\<close>

lemma demo_listed:
  fixes c :: "(nat multiset \<times> nat multiset) bot_state"
  assumes "bot_main demo_argv = Inr b" "bot_started demo_net b ({#}, {#}) = Inr c"
    and "bot_runs route_boost demo_sha1 b64 (ref_sqlite []) (page_runner demo_fs) (\<lambda>s. Inr 1) c d"
    and "events (conns (web d) 0) = Opened # map received demo_frames"
  shows "0 \<in> get_connections (web d)"
proof -
  note inv = bot_web_inv(1)[OF bot_reachable[OF ref_sqlite_documented assms(1-3)]]
  have "life_of (events (conns (web d) 0)) = Some Live"
    by (simp add: assms(4) demo_frames_def life_of_def)
  with serving_phase[OF inv, of 0] get_connections_listed[OF inv, of 0] show ?thesis by simp
qed

text \<open>C6: However the sockets of the WebSocket server, the page's server and the chat clients interleave,
  one accept is pending at any time, every open socket that is waited on for its request has a timer,
  and \<open>get_connections\<close> gives exactly the connections a read is under way on, each in the set of one
  endpoint only.\<close>

theorem connections_registered:
  assumes "open_documented S" "exec_documented S" "free_documented S" "close_documented S"
    and "bot_main argv = Inr b" "bot_started N b w = Inr c" "bot_runs L sha1 bio S run stof c d"
  shows "(\<exists>k. accepting (web d) = [k] \<and> stage (web d) k = Accepting)
    \<and> (\<nexists>k. timed k (web d) \<and> is_open (web d) k \<and> \<not> has_timer_on k (web d))
    \<and> get_connections (web d) = {k. phase (conns (web d) k) \<noteq> Not_Reading}
    \<and> snd (endpoint_table (web d) ! 0) \<inter> snd (endpoint_table (web d) ! 1) = {}"
proof -
  note inv = bot_web_inv[OF bot_reachable[OF assms]]
  have "length (endpoint_table (web d)) = 2" using inv(1) by (simp add: ws_inv_def table_ok_def)
  with table_listed[OF inv(1)] have "snd (endpoint_table (web d) ! 0) \<inter> snd (endpoint_table (web d) ! 1) = {}"
    by (auto simp: listed_def)
  with inv(2) get_connections_listed[OF inv(1)] serving_phase(1)[OF inv(1)] show ?thesis
    by (auto simp: loop_inv_def one_accept_def timers_ok_def)
qed

theorem connections_registered_witness:
  "\<exists>(c :: (nat multiset \<times> nat multiset) bot_state) d. bot_runs route_boost demo_sha1 b64 (ref_sqlite []) (page_runner demo_fs) (\<lambda>s. Inr 1) c d
    \<and> get_connections (web d) = {k. phase (conns (web d) k) \<noteq> Not_Reading} \<and> 0 \<in> get_connections (web d)"
proof -
  obtain b and c :: "(nat multiset \<times> nat multiset) bot_state"
    where s: "bot_main demo_argv = Inr b" "bot_started demo_net b ({#}, {#}) = Inr c" "timers (web c) = []"
      "accepting (web c) = [0]" by (rule demo_start)
  obtain d where d: "bot_runs route_boost demo_sha1 b64 (ref_sqlite []) (page_runner demo_fs) (\<lambda>s. Inr 1) c d" "events (conns (web d) 0) = Opened # map received demo_frames"
    using echo_session_runs[OF ready_reached(2)[OF ref_sqlite_documented s(1,2) br_start s(4)] route_boost_contract(1) b64_contract disjI1[OF refl] demo_upgrade(1) demo_frames_ok] by blast
  have "0 \<in> get_connections (web d)"
    using demo_listed[OF s(1,2) d] .
  with connections_registered[OF ref_sqlite_documented s(1,2) d(1)] d(1) show ?thesis by blast
qed

text \<open>C5: On every connection the callbacks of its endpoint are called in the order of the contract: opened
  first, then messages, then one close or one error and nothing more; a connection is between
  opened and ended exactly while a read is under way on it.\<close>

theorem callback_order:
  assumes "open_documented S" "exec_documented S" "free_documented S" "close_documented S"
    and "bot_main argv = Inr b" "bot_started N b w = Inr c" "bot_runs L sha1 bio S run stof c d"
  shows "\<exists>l. life_of (events (conns (web d) k)) = Some l \<and> (l = Live \<longleftrightarrow> phase (conns (web d) k) \<noteq> Not_Reading)"
  using serving_phase(2,3)[OF bot_web_inv(1)[OF bot_reachable[OF assms]], of k] by blast

theorem callback_order_witness:
  "\<exists>(c :: (nat multiset \<times> nat multiset) bot_state) d. bot_runs route_boost demo_sha1 b64 (ref_sqlite []) (page_runner demo_fs) (\<lambda>s. Inr 1) c d
    \<and> events (conns (web d) 0) = Opened # map received demo_frames \<and> phase (conns (web d) 0) \<noteq> Not_Reading"
proof -
  obtain b and c :: "(nat multiset \<times> nat multiset) bot_state"
    where s: "bot_main demo_argv = Inr b" "bot_started demo_net b ({#}, {#}) = Inr c" "timers (web c) = []"
      "accepting (web c) = [0]" by (rule demo_start)
  obtain d where d: "bot_runs route_boost demo_sha1 b64 (ref_sqlite []) (page_runner demo_fs) (\<lambda>s. Inr 1) c d" "events (conns (web d) 0) = Opened # map received demo_frames"
    using echo_session_runs[OF ready_reached(2)[OF ref_sqlite_documented s(1,2) br_start s(4)] route_boost_contract(1) b64_contract disjI1[OF refl] demo_upgrade(1) demo_frames_ok] by blast
  have "life_of (events (conns (web d) 0)) = Some Live"
    by (simp add: d(2) demo_frames_def life_of_def)
  with callback_order[OF ref_sqlite_documented s(1,2) d(1), of 0] d show ?thesis by auto
qed

text \<open>C7: Every connection listed at the channel endpoint has a chat client, and every client belongs to
  one connection that endpoint serves, holds the login given to the program and the sub-matches of
  its connection's path. What its database session took from SQLite has been given back.\<close>

theorem client_per_channel:
  assumes "open_documented S" "exec_documented S" "free_documented S" "close_documented S"
    and "bot_main argv = Inr b" "bot_started N b w = Inr c" "bot_runs L sha1 bio S run stof c d"
  shows "(case chat d k of
      None \<Rightarrow> k \<notin> snd (endpoint_table (web d) ! 0)
    | Some st \<Rightarrow> ws_stage (web d) k = Serving 0 \<and> m_nick st = argv ! 1 \<and> m_pass st = argv ! 2
        \<and> path_match st = conn_match (web d) k)
    \<and> handles S (world d) = handles S w \<and> blocks S (world d) = blocks S w"
proof -
  have inv: "bot_inv S w d" by (rule bot_reachable[OF assms])
  have len: "length (endpoint_table (web d)) = 2" using bot_web_inv(1)[OF inv] by (simp add: ws_inv_def table_ok_def)
  have ok: "client_ok k d" using inv by (simp add: bot_inv_def)
  have "login d = login c"
    using assms(7) by induction (simp_all add: bot_step_login)
  with bot_started_inv(2)[OF assms(5,6)] have l: "login d = (argv ! 1, argv ! 2)" by simp
  have t: "k \<in> snd (endpoint_table (web d) ! 0) \<longleftrightarrow> listed 0 k (web d)"
    using table_listed[OF bot_web_inv(1)[OF inv], of 0 k] len by simp
  have w: "handles S (world d) = handles S w" "blocks S (world d) = blocks S w"
    using inv by (simp_all add: bot_inv_def)
  from ok l t w show ?thesis by (cases "chat d k") (simp_all add: client_ok_def)
qed

theorem client_per_channel_witness:
  "\<exists>(c :: (nat multiset \<times> nat multiset) bot_state) d st. bot_runs route_boost demo_sha1 b64 (ref_sqlite []) (page_runner demo_fs) (\<lambda>s. Inr 1) c d
    \<and> chat d 0 = Some st \<and> m_nick st = ''u'' \<and> m_pass st = ''p'' \<and> ws_stage (web d) 0 = Serving 0"
proof -
  obtain b and c :: "(nat multiset \<times> nat multiset) bot_state"
    where s: "bot_main demo_argv = Inr b" "bot_started demo_net b ({#}, {#}) = Inr c" "timers (web c) = []"
      "accepting (web c) = [0]" by (rule demo_start)
  obtain r where r: "db_session (ref_sqlite []) (Some True) \<lparr>out = [], err = []\<rparr> ({#}, {#}) = Inr r" using demo_session by blast
  have p: "''/channel/ann7'' = ''/channel/'' @ ''ann7'' \<or> ''/channel/ann7'' = ''/channel/'' @ ''ann7'' @ ''/''" by simp
  have h: "list_all (\<lambda>lps. lps \<noteq> [] \<and> list_all harmless lps) []" by simp
  have x: "world c = ({#}, {#})" using started_world[OF s(1,2)] .
  obtain d where d: "bot_runs route_boost demo_sha1 b64 (ref_sqlite []) (page_runner demo_fs) (\<lambda>s. Inr 1) c d" "greeted 0 (login c) ''ann7'' d"
    using channel_session_runs[OF ready_reached(2)[OF ref_sqlite_documented s(1,2) br_start s(4)] route_boost_contract
        b64_contract demo_name p demo_upgrade(2) r[folded x] demo_motd_end h] by blast
  then obtain st where st: "chat d 0 = Some st" by (auto simp: greeted_def split: option.splits)
  from client_per_channel[OF ref_sqlite_documented s(1,2) d(1), of 0] d(1) st show ?thesis
    by (auto simp: demo_argv_def)
qed

text \<open>When the answer to a handshake has been written, the channel endpoint is opened.\<close>

lemma channel_opens:
  assumes "ws_inv 0 bot_callbacks s"
  shows "(\<exists>s'. opens_at 0 k s s') \<longleftrightarrow> (\<exists>response. ws_stage s k = Writing_Handshake 0 response) \<and> is_open s k"
proof -
  have "callbacks s ! 0 = channel_endpoint" "timeout_idle s = 0" using assms by (simp_all add: ws_inv_def)
  then have "\<exists>s'. ws_handshake_written False k s = Inr s'" if "ws_stage s k = Writing_Handshake 0 response" for response
    using that by (simp add: ws_handshake_written_def on_conn_def handshake_written_def connection_open_def channel_endpoint_def Let_def)
  then show ?thesis by (auto simp: opens_at_def)
qed

text \<open>A client cannot be created when a name or a file cannot be looked up, or its session faults.\<close>

lemma new_client_fault:
  "(\<exists>resolved present. new_twitch_client S resolved present k b = Inl f) \<longleftrightarrow>
     f = System_Error \<or> f = Undefined_Behaviour \<and> text_missing S \<lparr>out = [], err = []\<rparr> (world b)"
proof -
  have t: "twitch_client_ctor S present n p c pm w = Inl f \<longleftrightarrow> db_session S present \<lparr>out = [], err = []\<rparr> w = Inl f"
    for present n p c pm w
    by (auto simp: twitch_client_ctor_def Let_def bind_result_def irc_client.defs irc_client_ctor_def split: sum.splits)
  have "new_twitch_client S resolved present k b = Inl f \<longleftrightarrow>
      (if resolved then db_session S present \<lparr>out = [], err = []\<rparr> (world b) = Inl f else f = System_Error)" for resolved present
  proof -
    let ?c = "twitch_client_ctor S present (fst (login b)) (snd (login b)) (conns (web b) k) (conn_match (web b) k) (world b)"
    have "new_twitch_client S resolved present k b = Inl f \<longleftrightarrow> (if resolved then ?c = Inl f else f = System_Error)"
      by (cases ?c) (auto simp: new_twitch_client_def)
    then show ?thesis by (simp only: t)
  qed
  then show ?thesis unfolding db_session_fault by (auto split: if_splits)
qed

text \<open>C4: What can take the thread of the WebSocket server down, in any reachable state of the program: a
  handshake timer whose time is over while the peer is gone; a frame with an eight-byte length; and
  the creation of a chat client when the answer to a handshake at the channel endpoint has been
  written, which throws when the IRC server's name or the database's file cannot be looked up and is
  undefined when the query fails without a text. Every other handler returns, whatever bytes arrive
  and in whatever order.\<close>

theorem web_faults:
  assumes "open_documented S" "exec_documented S" "free_documented S" "close_documented S"
    and "bot_main argv = Inr b" "bot_started N b w = Inr c" "bot_runs L sha1 bio S run stof c d"
    and "bio_contract bio"
  shows "web_thread L sha1 bio S d (Inl f) \<longleftrightarrow>
      f = System_Error \<and> ((\<exists>k sec. (k, sec, Queued) \<in> set (timers (web d)))
        \<or> (\<exists>k response. ws_stage (web d) k = Writing_Handshake 0 response \<and> is_open (web d) k))
    \<or> f = Undefined_Behaviour \<and> ((\<exists>k i op. ws_stage (web d) k = Serving i \<and> is_open (web d) k
          \<and> phase (conns (web d) k) = Read_Length 8 op)
        \<or> (\<exists>k response. ws_stage (web d) k = Writing_Handshake 0 response \<and> is_open (web d) k)
          \<and> text_missing S \<lparr>out = [], err = []\<rparr> (world d))"
proof -
  note inv = bot_web_inv(1)[OF bot_reachable[OF assms(1-7)]]
  then have "timeout_idle (web d) = 0" by (simp add: ws_inv_def)
  then have "ws_hazard f (web d) \<longleftrightarrow>
      f = System_Error \<and> (\<exists>k sec. (k, sec, Queued) \<in> set (timers (web d)))
    \<or> f = Undefined_Behaviour \<and> (\<exists>k i op. ws_stage (web d) k = Serving i \<and> is_open (web d) k
        \<and> phase (conns (web d) k) = Read_Length 8 op)" by (auto simp: ws_hazard_def)
  moreover have "ws_step L sha1 bio (web d) (Inl f) \<longleftrightarrow> ws_hazard f (web d)"
    using service.step_fault[OF _ refl inv assms(8)] service.hazard_fault[OF inv] by blast
  moreover have "web_thread L sha1 bio S d (Inl f) \<longleftrightarrow> ws_step L sha1 bio (web d) (Inl f)
    \<or> (\<exists>k s. opens_at 0 k (web d) s \<and> (\<exists>resolved present. new_twitch_client S resolved present k (d\<lparr>web := s\<rparr>) = Inl f))"
    (is "_ \<longleftrightarrow> _ \<or> ?opens")
  proof
    assume "web_thread L sha1 bio S d (Inl f)"
    then show "ws_step L sha1 bio (web d) (Inl f) \<or> ?opens"
    proof cases
      case (wt_web r)
      then show ?thesis by (cases r) auto
    next
      case (wt_open k s resolved present)
      from this(1)[symmetric] this(2) show ?thesis by blast
    qed
  next
    assume "ws_step L sha1 bio (web d) (Inl f) \<or> ?opens"
    then show "web_thread L sha1 bio S d (Inl f)"
    proof
      assume "ws_step L sha1 bio (web d) (Inl f)"
      from wt_web[OF this, of S] show ?thesis by simp
    next
      assume ?opens
      then obtain k s resolved present where o: "opens_at 0 k (web d) s"
        "new_twitch_client S resolved present k (d\<lparr>web := s\<rparr>) = Inl f" by blast
      from wt_open[OF o(1), of L sha1 bio S resolved present] show ?thesis unfolding o(2) .
    qed
  qed
  ultimately show ?thesis unfolding new_client_fault using channel_opens[OF inv] by simp blast
qed

theorem web_faults_witness:
  "\<exists>c :: (nat multiset \<times> nat multiset) bot_state. \<not> web_thread route_boost demo_sha1 b64 (ref_sqlite []) c (Inl System_Error)"
proof -
  obtain b and c :: "(nat multiset \<times> nat multiset) bot_state"
    where s: "bot_main demo_argv = Inr b" "bot_started demo_net b ({#}, {#}) = Inr c" "timers (web c) = []"
      "accepting (web c) = [0]" by (rule demo_start)
  have "ws_stage (web c) k = No_Endpoint" for k
    using s(2) by (auto simp: bot_started_def bind_result_eq_Inr ws_loop_of_def ws_server.defs split: prod.splits)
  with web_faults[OF ref_sqlite_documented s(1,2) br_start b64_contract, where f = System_Error] s(3) show ?thesis
    by auto
qed

end
