(* ===== verification/Chatters.thy ===== *)
theory Chatters
  imports Bot_Sessions Http_Client
begin

text \<open>
  The list of chatters: at the end of the greeting the chat client of \<^verbatim>\<open>src/twitch_client.cpp\<close> creates a
  JSON client, which runs the HTTP client of \<open>Http_Client\<close> on a thread of its own and gives the parsed
  answer to a callback, which prints a number. Boost's property trees are parameters: the parser,
  \<open>get_child\<close> and \<open>get_value\<close>, each \<open>None\<close> where it throws.
\<close>

section \<open>The callback\<close>

definition show_int :: "int \<Rightarrow> string" where
  "show_int n = (if n < 0 then CHR ''-'' # show_nat (nat (- n)) else show_nat (nat n))"

text \<open>The state is what has been printed; an exception leaves the thread.\<close>

definition chatters_callback ::
  "('j \<Rightarrow> string \<Rightarrow> 'j option) \<Rightarrow> ('j \<Rightarrow> int option) \<Rightarrow> 'j \<Rightarrow> string list \<Rightarrow> string list result"
where
  "chatters_callback get_child get_value res ls =
     (case get_child res ''chatter_count'' of
        None \<Rightarrow> Inl Invalid_Argument
      | Some chatter_count \<Rightarrow>
          (case get_value chatter_count of
             None \<Rightarrow> Inl Invalid_Argument
           | Some n \<Rightarrow> Inr (ls @ [show_int n @ [LF]])))"

section \<open>The client's run\<close>

text \<open>
  An HTTP client whose name has been resolved: it connects, writes its request and reads what the
  server sends, in \<open>parts\<close> and to the end of the stream.
\<close>

definition fetch :: "('e \<Rightarrow> bool) \<Rightarrow> string list \<Rightarrow> 'e http_client \<Rightarrow> 'e http_client" where
  "fetch up parts c = receive parts [] (handle_write_request False (connect_run up c))"

text \<open>What has been delivered goes to the callback.\<close>

definition json_run :: "(string \<Rightarrow> 'j option) \<Rightarrow> ('j \<Rightarrow> 's \<Rightarrow> 's result) \<Rightarrow> 'e http_client \<Rightarrow> 's \<Rightarrow> 's result" where
  "json_run read_json json_cb c s =
     fold (\<lambda>res r. bind_result r (json_callback read_json json_cb res)) (delivered c) (Inr s)"

lemma fetched:
  fixes c :: "'e http_client"
  assumes "hc_op c = Connect_To e es" "\<exists>x \<in> set (e # es). up x" "hc_response c = []" "delivered c = []" "hc_res c = []"
    and "response_ok version message hs" "hs \<noteq> [] \<or> contains (CRLF @ CRLF) (CR # LF # body)"
    and "concat parts = response_text version message hs body"
  shows "delivered (fetch up parts c) = [body]" "hc_stopped (fetch up parts c)" "hc_request (connect_run up c) = hc_request c"
proof -
  have c: "connect_run up c = c\<lparr>hc_op := Write_Request, hc_socket_open := True\<rparr>"
    using connect_run_all[OF assms(1), of up] assms(2) by simp
  let ?c = "handle_write_request False (connect_run up c)"
  have f: "hc_op ?c = Read_Until_Line" "hc_response ?c = []" "delivered ?c = []" "hc_res ?c = []"
    using assms(3-5) by (simp_all add: handle_write_request_def c)
  from response_received[OF assms(6,7) f(1,2) assms(8)] f(3,4)
  show "delivered (fetch up parts c) = [body]" "hc_stopped (fetch up parts c)" by (simp_all add: fetch_def)
  show "hc_request (connect_run up c) = hc_request c" by (simp add: c)
qed

section \<open>Properties\<close>

text \<open>C30: The number of chatters, end to end: on the end of the message of the day the client asks for the
  chatters of the channel of its path; the request that goes to the first endpoint that accepts
  names that channel, and when the answer has status 200 and header fields, however the network
  cuts it, its whole content is parsed once and the number under \<open>chatter_count\<close> is printed.\<close>

theorem chatters_printed:
  assumes "boost_contract L" "motd_end lp" "response st = []" "\<exists>x \<in> set (e # es). up x"
    and "response_ok version message hs" "hs \<noteq> []" "concat parts = response_text version message hs body"
    and "read_json body = Some pt" "get_child pt ''chatter_count'' = Some v" "get_value v = Some n"
  shows "\<exists>st' server path c. on_read L (twitch_vt L) False (render_line lp @ [LF]) st = Some (Inr st')
    \<and> json_requests st' = json_requests st @ [(server, path)]
    \<and> handle_resolve False (e # es) (http_client_ctor server path) = Inr c
    \<and> hc_request (connect_run up c) = ''GET /group/user/'' @ sub_match (path_match st) 1 @ ''/chatters HTTP/1.0'' @ CRLF
        @ ''Host: tmi.twitch.tv'' @ CRLF @ ''Accept: */*'' @ CRLF @ ''Connection: close'' @ CRLF @ CRLF
    \<and> hc_stopped (fetch up parts c)
    \<and> json_run read_json (chatters_callback get_child get_value) (fetch up parts c) ls = Inr (ls @ [show_int n @ [LF]])"
proof -
  have m: "line_parts_ok lp" "LF \<notin> set (render_line lp)" "lp_command lp = ''376''"
    using assms(2) by (simp_all add: motd_end_def)
  let ?path = "''/group/user/'' @ sub_match (path_match st) 1 @ ''/chatters''"
  obtain st' where st': "on_read L (twitch_vt L) False (render_line lp @ [LF]) st = Some (Inr st')"
    "json_requests st' = json_requests st @ [(''tmi.twitch.tv'', ?path)]"
    using motd_end_effect[OF assms(1) m(1,2) assms(3) m(3)] by blast
  let ?c = "(http_client_ctor ''tmi.twitch.tv'' ?path)\<lparr>hc_op := Connect_To e es\<rparr>"
  have c: "handle_resolve False (e # es) (http_client_ctor ''tmi.twitch.tv'' ?path) = Inr ?c"
    by (simp add: handle_resolve_def)
  have z: "hc_op ?c = Connect_To e es" "hc_response ?c = []" "delivered ?c = []" "hc_res ?c = []"
    by (simp_all add: http_client_ctor_def)
  note f = fetched[OF z(1) assms(4) z(2-4) assms(5) disjI1[OF assms(6)] assms(7)]
  have "json_run read_json (chatters_callback get_child get_value) (fetch up parts ?c) ls = Inr (ls @ [show_int n @ [LF]])"
    unfolding json_run_def f(1) using assms(8-10) by (simp add: json_callback_def chatters_callback_def)
  moreover have "hc_request (connect_run up ?c) = ''GET /group/user/'' @ sub_match (path_match st) 1 @ ''/chatters HTTP/1.0'' @ CRLF
        @ ''Host: tmi.twitch.tv'' @ CRLF @ ''Accept: */*'' @ CRLF @ ''Connection: close'' @ CRLF @ CRLF"
    unfolding f(3) by (simp add: http_client_ctor_def)
  ultimately show ?thesis using st' c f(2) by blast
qed

definition demo_parts :: "string list" where
  "demo_parts = [''HTTP/1.0 200'', '' OK'' @ CRLF @ ''A: 1'' @ CRLF @ [CR], LF # ''ab'', ''c'']"

theorem chatters_printed_witness:
  "\<exists>st' server path c. on_read ref_boost (twitch_vt ref_boost) False (render_line demo_motd @ [LF]) demo_twitch = Some (Inr st')
    \<and> json_requests st' = [(server, path)] \<and> path = ''/group/user/ann/chatters''
    \<and> handle_resolve False [1, 2] (http_client_ctor server path) = Inr c
    \<and> json_run (\<lambda>s. Some (length s)) (chatters_callback (\<lambda>j k. Some j) (\<lambda>j. Some (int j)))
        (fetch (\<lambda>e. e = (2 :: nat)) demo_parts c) [] = Inr [show_int 3 @ [LF]]"
proof -
  have h: "concat demo_parts = response_text ''1.0'' '' OK'' [(''A'', ''1'')] ''abc''"
    by (simp add: demo_parts_def response_text_def status_line_def header_lines_def header_line_def COLON_def CRLF_def)
  have st: "response demo_twitch = []" "json_requests demo_twitch = []" "sub_match (path_match demo_twitch) 1 = ''ann''"
    by (simp_all add: demo_twitch_def irc_client.defs irc_client_ctor_def sub_match_def)
  have up: "\<exists>x \<in> set [1, 2]. (\<lambda>e. e = (2 :: nat)) x" by simp
  obtain st' server path c where r: "on_read ref_boost (twitch_vt ref_boost) False (render_line demo_motd @ [LF]) demo_twitch = Some (Inr st')"
    "json_requests st' = [(server, path)]" "handle_resolve False [1, 2] (http_client_ctor server path) = Inr c"
    "json_run (\<lambda>s. Some (length s)) (chatters_callback (\<lambda>j k. Some j) (\<lambda>j. Some (int j)))
        (fetch (\<lambda>e. e = (2 :: nat)) demo_parts c) [] = Inr [show_int 3 @ [LF]]"
    using chatters_printed[where ls = "[]" and read_json = "\<lambda>s. Some (length s)" and get_child = "\<lambda>j k. Some j"
        and get_value = "\<lambda>j. Some (int j)" and pt = 3 and v = 3 and n = 3,
        OF ref_boost_contract demo_motd_end st(1) up demo_response(1) _ h] st(2) by auto
  have "line_parts_ok demo_motd" "LF \<notin> set (render_line demo_motd)" "lp_command demo_motd = ''376''"
    using demo_motd_end by (simp_all add: motd_end_def)
  from motd_end_effect[OF ref_boost_contract this(1,2) st(1) this(3)] r(1,2) st(2,3)
  have "path = ''/group/user/ann/chatters''" by auto
  with r show ?thesis by blast
qed

end
