(* ===== verification/Spec2Isabelle.thy ===== *)
theory Spec2Isabelle
  imports Irc_Reply Irc_Client Ws_Handshake Http_Server Http_Client Sqlite_Prototypes Bot_Properties Chatters
begin

text \<open>
  Verification of boost-irc: a program that serves a web page over HTTP and, for each WebSocket
  connection a browser opens, joins a Twitch chat channel over IRC and forwards its messages.

  \<^bold>\<open>The program and its parts.\<close> \<^verbatim>\<open>src/bot.cpp\<close> starts an HTTP server (\<^verbatim>\<open>web_server/\<close>) whose default
  resource serves files, and a WebSocket server (\<^verbatim>\<open>web_socket_server/\<close>) with two endpoints: one
  echoes, the other creates a \<open>twitch_client\<close> for its connection. That class
  (\<^verbatim>\<open>src/twitch_client.cpp\<close>) is an IRC client (\<^verbatim>\<open>irc/\<close>) that queries a database with SQLite
  (\<^verbatim>\<open>sqlite3/sqlite3.h\<close>), joins a channel once greeted, asks for the list of chatters with the
  JSON client on top of the HTTP client (\<^verbatim>\<open>http_client/\<close>), and sends each chat message to the
  connection as a text frame.

  \<^bold>\<open>Theories.\<close>

  \<^item> \<open>Prelude\<close>: faults as values of a sum type, control characters, list lemmas, the model of
    \<open>std::map\<close> as an association list in key order.
  \<^item> \<open>Cpp_String\<close>, \<open>Perl_Regex\<close>, \<open>Boost_Api\<close>: the parts of the C++ library the sources use
    (\<open>find\<close>, \<open>substr\<close>, \<open>getline\<close>, \<open>stoi\<close>, \<open>stoull\<close>), a matcher for the regular expressions, and
    Boost as a record of functions with a contract. \<open>ref_boost\<close> satisfies the contract.
  \<^item> \<open>Irc_Reply\<close>, \<open>Irc_Message\<close>, \<open>Irc_Client\<close>: \<^verbatim>\<open>irc_client.hpp\<close> and \<^verbatim>\<open>irc_client.cpp\<close>. The
    enumeration, the parser of a line, and the client as a record with a function for each
    command and each completion handler. What a subclass overrides is a \<open>vtable\<close>.
  \<^item> \<open>Ws_Frame\<close>, \<open>Ws_Send_Queue\<close>, \<open>Ws_Connection\<close>, \<open>Ws_Endpoints\<close>, \<open>Ws_Handshake\<close>:
    \<^verbatim>\<open>server_ws.hpp\<close>. Frames as bytes; the queue of frames with its strand and writes as a step
    relation; the reader, the idle timer and the closing handshake of a connection; the endpoints
    of \<^verbatim>\<open>bot.cpp\<close>; the parser of the opening request and its answer.
  \<^item> \<open>Crypto\<close>: \<^verbatim>\<open>crypto.hpp\<close>, the same file in both servers, over OpenSSL as a parameter.
  \<^item> \<open>Http_Headers\<close>, \<open>Http_Server\<close>, \<open>Server_Loop\<close>: \<^verbatim>\<open>server_http.hpp\<close> with the loop over header
    lines it shares with \<^verbatim>\<open>server_ws.hpp\<close>, the multimap of headers and its hash; parser and resources; start and stop, accepts,
    TLS handshakes and timers of the four servers, and an HTTP socket from accept to close.
  \<^item> \<open>Http_Client\<close>: \<^verbatim>\<open>http_client.cpp\<close> and \<^verbatim>\<open>json_client.cpp\<close>, each handler with the operation it
    starts next, and the network between request and end of stream, which cuts the response in any way.
  \<^item> \<open>Sqlite_Api\<close>, \<open>Sqlite_Prototypes\<close>, \<open>Sqlite_Session\<close>: constants, structures and functions
    \<^verbatim>\<open>sqlite3.h\<close> declares, and the session in the constructor of \<open>twitch_client\<close> over the library
    as a parameter, whose documented behaviour is a hypothesis.
  \<^item> \<open>Http_Session\<close>: requests one after the other on a kept connection of the HTTP server.
  \<^item> \<open>Ws_Loop\<close>: the WebSocket server over all its sockets, as one step relation: accepts, timers,
    handshakes, the reader, timer and strand of every connection, and the endpoints' sets of
    connections. The result of a step may be a fault.
  \<^item> \<open>Twitch_Client\<close>, \<open>Chat_Stream\<close>, \<open>Bot\<close>, \<open>Bot_Routes\<close>: the program's own classes and \<open>main\<close>; what the
    chat client makes of any lines in any reads; the two patterns as regular expressions.
  \<^item> \<open>Chatters\<close>: from the end of the greeting through the JSON client's request and its answer to
    the number of chatters printed.
  \<^item> \<open>Bot_Loop\<close>, \<open>Bot_Sessions\<close>, \<open>Bot_Properties\<close>: the whole program while it runs, as a step relation over
    the page's server, the WebSocket server and one chat client for each connection of the
    channel endpoint; sessions as runs of it, composed of the components' lemmas; and what holds
    in every reachable state. What has arrived on a socket, the responses written and what the
    IRC server has sent are recorded in fields no handler reads.

  \<^bold>\<open>Interfaces.\<close> \<open>boost\<close> (what the parsers rely on of Boost), \<open>header_store\<close> with \<open>first_kept\<close> and \<open>last_found\<close> (the two header maps),
  \<open>ordered_sender\<close> (what is posted reaches the wire in order), \<open>ws_endpoint\<close> and
  \<open>safe_ws_endpoint\<close> (what the reader of a connection needs of an endpoint's callbacks),
  \<open>logged_endpoint\<close>, \<open>ws_service\<close> and \<open>safe_ws_service\<close> (what the WebSocket server relies on of all its
  endpoints) and \<open>accept_loop\<close> (what the servers share) are locales, interpreted on the
  definitions of the model, the services on the two endpoints of \<^verbatim>\<open>bot.cpp\<close>.

  \<^bold>\<open>What the lemmas show.\<close> From end to end, from the accept of a socket to the bytes on its wire: in every reachable
  state, frames sent to the echo endpoint come back once each and in order; a connection of the channel endpoint
  gets a client that logs in, joins the channel its path names, and one text frame for each chat
  line, whatever lines of the protocol come, in any reads that end with a line; requests for pages on a kept connection are
  answered one after the other with the files. In every reachable state of the program: the
  callbacks of each connection are called in the order of their contract, the sets of connections
  are exactly those being read, every channel connection has its client, and the
  thread of the WebSocket server can fault in four ways and no others: a timer of a peer that has
  gone, a frame with an eight-byte length, and two in the creation of a chat client. Per component: one accept is always pending and each wait has a timer; at most one close
  frame is posted; the send queue never touches an empty list, keeps the order and gets everything
  on the wire; messages are parsed back from their parts; loops return on every input; requests
  lead to places under the directory served, of which the file or the entry \<^verbatim>\<open>index.html\<close> is sent,
  which may itself be a link; and which inputs end in a fault, each of them exactly
  characterised. Several lemmas prove that the code departs from its specification: the accept key
  is never the one RFC 6455 asks for, frames over 65535 bytes are undefined behaviour, a response
  without header fields is lost unless its content makes up for the blank line, an unfinished line is taken for a whole one.

  \<^bold>\<open>Termination and bounds.\<close> The loops over header lines and received lines are
  \<open>partial_function (option)\<close>, so that a loop that does not return is the value \<open>None\<close>, and are
  proved to return. No fuel is used. Base64 sizes are computed in a model of \<open>double\<close> that rounds to 53
  binary digits. Bytes are 8-bit words, ports 16-bit; \<open>size_t\<close> arithmetic
  wraps at \<open>size_max\<close>, the hypotheses on lengths keep buffers below it. Memory layouts follow LP64.

  \<^bold>\<open>Not modelled.\<close> The network, asio's scheduling beyond the order of handlers, Boost, OpenSSL, the
  JSON parser and SQLite are parameters. Threads are not: each server is run by one thread, as the
  program configures it, and the start of the IRC client's thread inside its constructor is taken
  to be after construction. Where the standard leaves open what its library does (the order of equal
  keys in a multimap, \<open>tolower\<close> of a byte from 128 on, an enumeration's value out of range), the model
  follows the GNU implementation and says so. Console output of the endpoints, the
  preprocessor's conditions, typedefs and comments of \<^verbatim>\<open>sqlite3.h\<close>, the build files and the page
  \<^verbatim>\<open>web/index.html\<close> are left out.
\<close>

end
